theory Spec2Isabelle
  imports Main "HOL-Library.Sublist"
begin

section \<open>Characters, strings and the built-in conversions\<close>

text \<open>
  A \<^typ>\<open>char\<close> stands for one character of a Python \<open>str\<close> (the code points below 256);
  a line of input and a text column are a \<^typ>\<open>string\<close>.

  \<open>lower_char\<close> is \<open>str.lower()\<close> on one such character: the ASCII capitals and the
  Latin-1 capitals (\<open>0xC0\<close> to \<open>0xDE\<close> without \<open>0xD7\<close>) move up by 32.
  \<open>like_fold\<close> is the folding of the engine's \<open>LIKE\<close> operator, which touches the ASCII
  letters only.
\<close>

definition lower_char :: "char \<Rightarrow> char" where
  "lower_char c =
     (let n = (of_char c :: nat)
      in if (65 \<le> n \<and> n \<le> 90) \<or> (192 \<le> n \<and> n \<le> 222 \<and> n \<noteq> 215)
         then char_of (n + 32) else c)"

definition lower :: "string \<Rightarrow> string" where
  "lower s = map lower_char s"

definition like_fold :: "char \<Rightarrow> char" where
  "like_fold c =
     (let n = (of_char c :: nat)
      in if 65 \<le> n \<and> n \<le> 90 then char_of (n + 32) else c)"

text \<open>
  \<open>py_int\<close> is \<open>int(s)\<close> on a \<open>str\<close>: white space is stripped at both ends, one sign may
  lead, and the rest is decimal digits in which single underscores may separate digits.
  More than 4300 digits are refused (the interpreter's default limit). \<open>None\<close> is the
  \<open>ValueError\<close>, which every caller in the program catches.
\<close>

definition is_space :: "char \<Rightarrow> bool" where
  "is_space c = ((of_char c :: nat) \<in> {9, 10, 11, 12, 13, 32, 133, 160})"

definition is_digit :: "char \<Rightarrow> bool" where
  "is_digit c = (48 \<le> (of_char c :: nat) \<and> (of_char c :: nat) \<le> 57)"

definition strip :: "string \<Rightarrow> string" where
  "strip s = rev (dropWhile is_space (rev (dropWhile is_space s)))"

fun well_grouped :: "string \<Rightarrow> bool" where
  "well_grouped [] = False"
| "well_grouped [c] = is_digit c"
| "well_grouped (c # d # s) =
     (if is_digit c
      then (if d = CHR ''_'' then well_grouped s else well_grouped (d # s))
      else False)"

definition digits_value :: "string \<Rightarrow> nat" where
  "digits_value ds = foldl (\<lambda>a c. 10 * a + (of_char c - 48)) 0 ds"

definition py_int :: "string \<Rightarrow> int option" where
  "py_int s =
     (let t = strip s;
          neg = (t \<noteq> [] \<and> hd t = CHR ''-'');
          body = (if t \<noteq> [] \<and> (hd t = CHR ''-'' \<or> hd t = CHR ''+'') then tl t else t);
          ds = filter is_digit body
      in if well_grouped body \<and> length ds \<le> 4300
         then Some (if neg then - int (digits_value ds) else int (digits_value ds))
         else None)"

text \<open>\<open>str(n)\<close> for an integer, as the f-strings of the program format it.\<close>

fun str_nat :: "nat \<Rightarrow> string" where
  "str_nat n =
     (if n < 10 then [char_of (48 + n)]
      else str_nat (n div 10) @ [char_of (48 + n mod 10)])"

definition str_int :: "int \<Rightarrow> string" where
  "str_int i = (if i < 0 then CHR ''-'' # str_nat (nat (- i)) else str_nat (nat i))"

section \<open>The books table\<close>

text \<open>
  \<open>class Book\<close> of the source. Its field \<open>id\<close> is called \<open>book_id\<close> here, since \<open>id\<close>
  is the identity function of HOL.
\<close>

record Book =
  book_id :: int
  title :: string
  author :: string
  quantity :: int

text \<open>
  The table \<open>books\<close> that \<open>CREATE TABLE\<close> declares: its rows in rowid order, which is the
  order a \<open>SELECT\<close> without \<open>ORDER BY\<close> scans them in, and \<open>seq\<close>, the largest rowid the
  table has ever held, which \<open>AUTOINCREMENT\<close> keeps. The rows are those this program
  writes: text in \<open>Title\<close> and \<open>Author\<close>, an integer in \<open>Qty\<close>.
\<close>

record database =
  rows :: "Book list"
  seq :: int

datatype error = EOFError | OverflowError | OperationalError | IntegrityError | IndexError

text \<open>
  A Python \<open>int\<close> bound to a statement parameter must fit the engine's 64-bit signed
  \<open>INTEGER\<close>; the binding raises \<open>OverflowError\<close> otherwise.
\<close>

definition int64 :: "int \<Rightarrow> bool" where
  "int64 n = (- 9223372036854775808 \<le> n \<and> n \<le> 9223372036854775807)"

definition MAX_ROWID :: int where
  "MAX_ROWID = 9223372036854775807"

definition largest_rowid :: "database \<Rightarrow> int" where
  "largest_rowid d = foldr max (map book_id (rows d)) (seq d)"

text \<open>
  \<open>INSERT INTO books (Title, Author, Qty) VALUES (?, ?, ?)\<close>, the statement of
  \<open>add_books\<close>: the new rowid is one more than the largest the table has ever held,
  and the statement fails (``database or disk is full'') when that one is the largest
  rowid there is.
\<close>

definition insert_book :: "string \<Rightarrow> string \<Rightarrow> int \<Rightarrow> database \<Rightarrow> error + database" where
  "insert_book t a q d =
     (if \<not> int64 q then Inl OverflowError
      else if MAX_ROWID \<le> largest_rowid d then Inl OperationalError
      else Inr \<lparr>rows = rows d @
                   [\<lparr>book_id = largest_rowid d + 1, title = t, author = a, quantity = q\<rparr>],
                seq = largest_rowid d + 1\<rparr>)"

text \<open>
  \<open>INSERT INTO books VALUES (?, ?, ?, ?)\<close>, the statement of the seeding, which gives
  the rowid itself, and \<open>executemany\<close>, which runs it for each tuple in turn.
\<close>

definition insert_row :: "Book \<Rightarrow> database \<Rightarrow> error + database" where
  "insert_row b d =
     (if \<not> int64 (book_id b) \<or> \<not> int64 (quantity b) then Inl OverflowError
      else if book_id b \<in> set (map book_id (rows d)) then Inl IntegrityError
      else Inr \<lparr>rows = insort_key book_id b (rows d), seq = max (seq d) (book_id b)\<rparr>)"

fun executemany :: "Book list \<Rightarrow> database \<Rightarrow> error + database" where
  "executemany [] d = Inr d"
| "executemany (b # bs) d =
     (case insert_row b d of Inl e \<Rightarrow> Inl e | Inr d' \<Rightarrow> executemany bs d')"

text \<open>
  \<open>UPDATE books SET Title = ?, Author = ?, Qty = ? WHERE id = ?\<close> and
  \<open>DELETE FROM books WHERE id = ?\<close>. The id bound to either is the id of a row that
  was read from the table. A statement whose \<open>WHERE\<close> selects no row changes nothing.
\<close>

definition update_row :: "Book \<Rightarrow> database \<Rightarrow> error + database" where
  "update_row b d =
     (if \<not> int64 (quantity b) \<or> \<not> int64 (book_id b) then Inl OverflowError
      else Inr (d\<lparr>rows := map (\<lambda>r. if book_id r = book_id b then b else r) (rows d)\<rparr>))"

definition delete_row :: "int \<Rightarrow> database \<Rightarrow> error + database" where
  "delete_row i d =
     (if \<not> int64 i then Inl OverflowError
      else Inr (d\<lparr>rows := filter (\<lambda>r. book_id r \<noteq> i) (rows d)\<rparr>))"

text \<open>
  The comparison of \<open>X LIKE P\<close> in the engine, without an \<open>ESCAPE\<close> clause, on the
  characters that the engine reads of \<open>X\<close> and of \<open>P\<close> (\<open>c_text\<close> below): in the pattern
  \<open>%\<close> stands for any run of characters, \<open>_\<close> for any one character, and every other
  character for itself, ASCII letters without regard to case.
\<close>

fun like :: "string \<Rightarrow> string \<Rightarrow> bool" where
  "like x [] = (x = [])"
| "like x (p # ps) =
     (if p = CHR ''%''
      then (like x ps \<or> (case x of [] \<Rightarrow> False | c # t \<Rightarrow> like t (p # ps)))
      else (case x of [] \<Rightarrow> False
            | c # t \<Rightarrow> (p = CHR ''_'' \<or> like_fold p = like_fold c) \<and> like t ps))"

declare like.simps [simp del]

text \<open>
  The engine reads the pattern and the text that it compares as C strings, each up to
  its first NUL character (\<open>c_text\<close>), and refuses a pattern of more than 50000 bytes
  (``LIKE or GLOB pattern too complex''), the bytes being those of the whole pattern in
  UTF-8: one for a character below 128, two for the others there are here.
\<close>

definition c_text :: "string \<Rightarrow> string" where
  "c_text s = takeWhile (\<lambda>c. c \<noteq> CHR 0x00) s"

definition utf8_length :: "string \<Rightarrow> int" where
  "utf8_length s = sum_list (map (\<lambda>c. if (of_char c :: nat) < 128 then 1 else 2) s)"

definition MAX_LIKE_PATTERN_LENGTH :: int where
  "MAX_LIKE_PATTERN_LENGTH = 50000"

subsection \<open>\<open>initialise_database\<close>\<close>

text \<open>
  The file \<open>ebookstore.db\<close> is \<open>None\<close> when \<open>os.path.exists\<close> answers no, and holds a
  table otherwise.
\<close>

definition initial_data :: "Book list" where
  "initial_data =
     [\<lparr>book_id = 3001, title = ''A Tale of Two Cities'', author = ''Charles Dickens'',
       quantity = 30\<rparr>,
      \<lparr>book_id = 3002,
       title = ''Harry Potter and the Philosopher'' @ CHR 0x27 # ''s Stone'',
       author = ''J. K. Rowling'', quantity = 40\<rparr>,
      \<lparr>book_id = 3003, title = ''The Lion, the Witch, and the Warderobe'',
       author = ''C. S. Lewis'', quantity = 25\<rparr>,
      \<lparr>book_id = 3004, title = ''The Lord of the Rings'', author = ''J. R. R. Tolkien'',
       quantity = 37\<rparr>,
      \<lparr>book_id = 3005, title = ''Alice in Wonderland'', author = ''Lewis Carroll'',
       quantity = 12\<rparr>]"

definition initialise_database :: "database option \<Rightarrow> error + database" where
  "initialise_database file =
     (case file of
        None \<Rightarrow> executemany initial_data \<lparr>rows = [], seq = 0\<rparr>
      | Some d \<Rightarrow> Inr d)"

subsection \<open>\<open>find_matching_books\<close>\<close>

text \<open>
  \<open>SELECT * FROM books WHERE Title LIKE ? OR Author LIKE ?\<close>, with the query bound to
  both parameters. The engine evaluates \<open>LIKE\<close> for the first row it scans, so the
  statement fails on a pattern that is too long exactly when the table has a row; then
  \<open>cursor.execute\<close> raises \<open>sqlite3.OperationalError\<close>, which nothing catches.
\<close>

definition find_matching_books :: "string \<Rightarrow> database \<Rightarrow> error + Book list" where
  "find_matching_books query d =
     (if rows d \<noteq> [] \<and> utf8_length query > MAX_LIKE_PATTERN_LENGTH
      then Inl OperationalError
      else Inr (filter (\<lambda>b. like (c_text (title b)) (c_text query)
                          \<or> like (c_text (author b)) (c_text query)) (rows d)))"

section \<open>The terminal\<close>

text \<open>
  The program reads lines from the standard input and writes to the standard output.
  \<open>stdin\<close> is the lines still to be read; \<open>input\<close> raises \<open>EOFError\<close> when none is
  left. \<open>stdout\<close> records what was written: a printed line, the prompt of an
  \<open>input\<close>, or a table handed to \<open>tabulate.tabulate\<close> with \<open>headers="firstrow"\<close>
  and printed. \<open>db\<close> is the global of that name.

  A function of the program takes the world and returns its result, or the exception
  that ended it, together with the world it left behind.
\<close>

datatype cell = Text string | Number int

datatype written = Print string | Prompt string | Tabulate "cell list list"

record world =
  stdin :: "string list"
  stdout :: "written list"
  db :: database

definition print :: "string \<Rightarrow> world \<Rightarrow> world" where
  "print s w = w\<lparr>stdout := stdout w @ [Print s]\<rparr>"

definition print_table :: "cell list list \<Rightarrow> world \<Rightarrow> world" where
  "print_table t w = w\<lparr>stdout := stdout w @ [Tabulate t]\<rparr>"

definition input :: "string \<Rightarrow> world \<Rightarrow> (error + string) \<times> world" where
  "input prompt w =
     (case stdin w of
        [] \<Rightarrow> (Inl EOFError, w\<lparr>stdout := stdout w @ [Prompt prompt]\<rparr>)
      | l # ls \<Rightarrow> (Inr l, w\<lparr>stdin := ls, stdout := stdout w @ [Prompt prompt]\<rparr>))"

text \<open>\<open>xs[i]\<close> of a Python list: a negative index counts from the end.\<close>

definition getitem :: "'a list \<Rightarrow> int \<Rightarrow> error + 'a" where
  "getitem xs i =
     (if 0 \<le> i \<and> i < int (length xs) then Inr (xs ! nat i)
      else if - int (length xs) \<le> i \<and> i < 0 then Inr (xs ! nat (int (length xs) + i))
      else Inl IndexError)"

subsection \<open>Input helpers\<close>

function input_non_empty_string :: "string \<Rightarrow> world \<Rightarrow> (error + string) \<times> world" where
  "input_non_empty_string prompt w =
     (case input prompt w of
        (Inl e, w1) \<Rightarrow> (Inl e, w1)
      | (Inr s, w1) \<Rightarrow>
          if length s > 0 then (Inr s, w1)
          else input_non_empty_string prompt
                 (print ''Expected a value, please try again.'' w1))"
  by pat_completeness auto
termination
  by (relation "measure (\<lambda>(p, w). length (stdin w))")
    (auto simp: input_def print_def split: list.splits)

function input_integer :: "string \<Rightarrow> world \<Rightarrow> (error + int) \<times> world" where
  "input_integer prompt w =
     (case input prompt w of
        (Inl e, w1) \<Rightarrow> (Inl e, w1)
      | (Inr s, w1) \<Rightarrow>
          (case py_int s of
             Some v \<Rightarrow> (Inr v, w1)
           | None \<Rightarrow> input_integer prompt
                       (print ''Expected an integer as input, please try again.'' w1)))"
  by pat_completeness auto
termination
  by (relation "measure (\<lambda>(p, w). length (stdin w))")
    (auto simp: input_def print_def split: list.splits)

function input_integer_or_none :: "string \<Rightarrow> world \<Rightarrow> (error + int option) \<times> world" where
  "input_integer_or_none prompt w =
     (case input prompt w of
        (Inl e, w1) \<Rightarrow> (Inl e, w1)
      | (Inr s, w1) \<Rightarrow>
          if length s = 0 then (Inr None, w1)
          else (case py_int s of
                  Some v \<Rightarrow> (Inr (Some v), w1)
                | None \<Rightarrow> input_integer_or_none prompt
                            (print ''Expected an integer as input, please try again.'' w1)))"
  by pat_completeness auto
termination
  by (relation "measure (\<lambda>(p, w). length (stdin w))")
    (auto simp: input_def print_def split: list.splits)

declare input_non_empty_string.simps [simp del]
declare input_integer.simps [simp del]
declare input_integer_or_none.simps [simp del]

text \<open>
  What a helper leaves behind: the table is untouched, the lines left are a suffix of the
  lines there were, and an integer it returns was parsed from one of those lines.
\<close>

lemma stdin_print [simp]: "stdin (print s w) = stdin w"
  by (simp add: print_def)

lemma db_print [simp]: "db (print s w) = db w"
  by (simp add: print_def)

lemma stdin_print_table [simp]: "stdin (print_table t w) = stdin w"
  by (simp add: print_table_def)

lemma db_print_table [simp]: "db (print_table t w) = db w"
  by (simp add: print_table_def)

lemma input_effect:
  "input p w = (r, w1) \<Longrightarrow>
     db w1 = db w \<and> suffix (stdin w1) (stdin w) \<and>
     (\<forall>s. r = Inr s \<longrightarrow> stdin w = s # stdin w1)"
  by (auto simp: input_def suffix_def split: list.splits)

lemma input_Inr_less: "input p w = (Inr s, w1) \<Longrightarrow> length (stdin w1) < length (stdin w)"
  by (auto simp: input_def split: list.splits)

lemma input_non_empty_string_effect:
  "input_non_empty_string p w = (r, w1) \<Longrightarrow>
     db w1 = db w \<and> suffix (stdin w1) (stdin w)"
proof (induction p w rule: input_non_empty_string.induct)
  case (1 prompt w)
  obtain r0 w0 where i: "input prompt w = (r0, w0)" by (cases "input prompt w")
  note e0 = input_effect [OF i]
  show ?case
  proof (cases r0)
    case (Inl e)
    with 1(2) i e0 show ?thesis by (simp add: input_non_empty_string.simps)
  next
    case (Inr s)
    show ?thesis
    proof (cases "length s > 0")
      case True
      with 1(2) i e0 Inr show ?thesis
        by (auto simp: input_non_empty_string.simps intro: suffix_ConsI)
    next
      case False
      with 1(2) i Inr
      have "input_non_empty_string prompt (print ''Expected a value, please try again.'' w0)
            = (r, w1)"
        by (simp add: input_non_empty_string.simps)
      with 1(1) [OF i [symmetric] Inr] False
      have "db w1 = db w0 \<and> suffix (stdin w1) (stdin w0)" by simp
      with e0 show ?thesis by (auto intro: suffix_order.trans)
    qed
  qed
qed

lemma input_integer_effect:
  "input_integer p w = (r, w1) \<Longrightarrow>
     db w1 = db w \<and> suffix (stdin w1) (stdin w) \<and>
     (\<forall>v. r = Inr v \<longrightarrow>
        (\<exists>l \<in> set (stdin w). py_int l = Some v) \<and> length (stdin w1) < length (stdin w))"
proof (induction p w rule: input_integer.induct)
  case (1 prompt w)
  obtain r0 w0 where i: "input prompt w = (r0, w0)" by (cases "input prompt w")
  note e0 = input_effect [OF i]
  show ?case
  proof (cases r0)
    case (Inl e)
    with 1(2) i e0 show ?thesis by (auto simp: input_integer.simps)
  next
    case (Inr s)
    with e0 have w: "stdin w = s # stdin w0" by simp
    show ?thesis
    proof (cases "py_int s")
      case (Some v)
      with 1(2) i e0 Inr w show ?thesis by (auto simp: input_integer.simps)
    next
      case None
      with 1(2) i Inr
      have "input_integer prompt
              (print ''Expected an integer as input, please try again.'' w0) = (r, w1)"
        by (simp add: input_integer.simps)
      with 1(1) [OF i [symmetric] Inr None]
      have "db w1 = db w0 \<and> suffix (stdin w1) (stdin w0) \<and>
            (\<forall>v. r = Inr v \<longrightarrow>
               (\<exists>l \<in> set (stdin w0). py_int l = Some v) \<and>
               length (stdin w1) < length (stdin w0))"
        by simp
      with e0 w show ?thesis by (auto intro: suffix_order.trans)
    qed
  qed
qed

lemma input_integer_or_none_effect:
  "input_integer_or_none p w = (r, w1) \<Longrightarrow>
     db w1 = db w \<and> suffix (stdin w1) (stdin w) \<and>
     (\<forall>v. r = Inr (Some v) \<longrightarrow> (\<exists>l \<in> set (stdin w). py_int l = Some v))"
proof (induction p w rule: input_integer_or_none.induct)
  case (1 prompt w)
  obtain r0 w0 where i: "input prompt w = (r0, w0)" by (cases "input prompt w")
  note e0 = input_effect [OF i]
  show ?case
  proof (cases r0)
    case (Inl e)
    with 1(2) i e0 show ?thesis by (auto simp: input_integer_or_none.simps)
  next
    case (Inr s)
    with e0 have w: "stdin w = s # stdin w0" by simp
    show ?thesis
    proof (cases "length s = 0")
      case True
      with 1(2) i e0 Inr show ?thesis by (auto simp: input_integer_or_none.simps)
    next
      case False
      show ?thesis
      proof (cases "py_int s")
        case (Some v)
        with 1(2) i e0 Inr w False show ?thesis
          by (auto simp: input_integer_or_none.simps)
      next
        case None
        with 1(2) i Inr False
        have "input_integer_or_none prompt
                (print ''Expected an integer as input, please try again.'' w0) = (r, w1)"
          by (simp add: input_integer_or_none.simps)
        with 1(1) [OF i [symmetric] Inr False None]
        have "db w1 = db w0 \<and> suffix (stdin w1) (stdin w0) \<and>
              (\<forall>v. r = Inr (Some v) \<longrightarrow> (\<exists>l \<in> set (stdin w0). py_int l = Some v))"
          by simp
        with e0 w show ?thesis by (auto intro: suffix_order.trans)
      qed
    qed
  qed
qed

text \<open>The only exception a helper lets through is the end of the input.\<close>

lemma input_error: "input p w = (Inl e, w1) \<Longrightarrow> e = EOFError \<and> stdin w1 = []"
  by (auto simp: input_def split: list.splits)

lemma input_non_empty_string_error:
  "input_non_empty_string p w = (Inl e, w1) \<Longrightarrow> e = EOFError \<and> stdin w1 = []"
proof (induction p w rule: input_non_empty_string.induct)
  case (1 prompt w)
  obtain r0 w0 where i: "input prompt w = (r0, w0)" by (cases "input prompt w")
  show ?case
  proof (cases r0)
    case (Inl e0)
    with 1(2) i have "input prompt w = (Inl e, w1)"
      by (simp add: input_non_empty_string.simps)
    then show ?thesis by (rule input_error)
  next
    case (Inr s)
    with 1(2) i have "\<not> length s > 0"
      by (auto simp: input_non_empty_string.simps split: if_splits)
    moreover from this 1(2) i Inr
    have "input_non_empty_string prompt (print ''Expected a value, please try again.'' w0)
          = (Inl e, w1)"
      by (simp add: input_non_empty_string.simps)
    ultimately show ?thesis
      using 1(1) [OF i [symmetric] Inr] by simp
  qed
qed

lemma input_integer_error:
  "input_integer p w = (Inl e, w1) \<Longrightarrow> e = EOFError \<and> stdin w1 = []"
proof (induction p w rule: input_integer.induct)
  case (1 prompt w)
  obtain r0 w0 where i: "input prompt w = (r0, w0)" by (cases "input prompt w")
  show ?case
  proof (cases r0)
    case (Inl e0)
    with 1(2) i have "input prompt w = (Inl e, w1)"
      by (simp add: input_integer.simps)
    then show ?thesis by (rule input_error)
  next
    case (Inr s)
    with 1(2) i have none: "py_int s = None"
      by (auto simp: input_integer.simps split: option.splits)
    with 1(2) i Inr
    have "input_integer prompt
            (print ''Expected an integer as input, please try again.'' w0) = (Inl e, w1)"
      by (simp add: input_integer.simps)
    then show ?thesis
      using 1(1) [OF i [symmetric] Inr none] by simp
  qed
qed

lemma input_integer_or_none_error:
  "input_integer_or_none p w = (Inl e, w1) \<Longrightarrow> e = EOFError \<and> stdin w1 = []"
proof (induction p w rule: input_integer_or_none.induct)
  case (1 prompt w)
  obtain r0 w0 where i: "input prompt w = (r0, w0)" by (cases "input prompt w")
  show ?case
  proof (cases r0)
    case (Inl e0)
    with 1(2) i have "input prompt w = (Inl e, w1)"
      by (simp add: input_integer_or_none.simps)
    then show ?thesis by (rule input_error)
  next
    case (Inr s)
    with 1(2) i have ne: "\<not> length s = 0" and none: "py_int s = None"
      by (auto simp: input_integer_or_none.simps split: option.splits if_splits)
    with 1(2) i Inr
    have "input_integer_or_none prompt
            (print ''Expected an integer as input, please try again.'' w0) = (Inl e, w1)"
      by (simp add: input_integer_or_none.simps)
    then show ?thesis
      using 1(1) [OF i [symmetric] Inr ne none] by simp
  qed
qed

subsection \<open>\<open>add_books\<close>\<close>

function add_books_loop :: "world \<Rightarrow> (error + unit) \<times> world" where
  "add_books_loop w =
     (case input_non_empty_string ''Title: '' (print ''Please enter the book details:'' w) of
        (Inl e, w1) \<Rightarrow> (Inl e, w1)
      | (Inr t, w1) \<Rightarrow>
     (case input_non_empty_string ''Author: '' w1 of
        (Inl e, w2) \<Rightarrow> (Inl e, w2)
      | (Inr a, w2) \<Rightarrow>
     (case input_integer ''Number in stock: '' w2 of
        (Inl e, w3) \<Rightarrow> (Inl e, w3)
      | (Inr q, w3) \<Rightarrow>
     (case insert_book t a q (db w3) of
        Inl e \<Rightarrow> (Inl e, w3)
      | Inr d \<Rightarrow>
     (case input ''Add another? Y/N '' (print [] (print ''Saved.'' (w3\<lparr>db := d\<rparr>))) of
        (Inl e, w4) \<Rightarrow> (Inl e, w4)
      | (Inr choice, w4) \<Rightarrow>
          if lower choice \<noteq> ''y'' then (Inr (), w4) else add_books_loop w4)))))"
  by pat_completeness auto
termination
proof (relation "measure (\<lambda>w. length (stdin w))", goal_cases)
  case 1
  show ?case by simp
next
  case (2 w r1 w1 t r2 w2 a r3 w3 q d r4 w4 choice)
  have "suffix (stdin w1) (stdin w)"
    using input_non_empty_string_effect [OF 2(1) [symmetric]] by simp
  moreover have "suffix (stdin w2) (stdin w1)"
    using input_non_empty_string_effect [OF 2(3) [symmetric]] by simp
  moreover have "suffix (stdin w3) (stdin w2)"
    using input_integer_effect [OF 2(5) [symmetric]] by simp
  moreover have "input ''Add another? Y/N '' (print [] (print ''Saved.'' (w3\<lparr>db := d\<rparr>)))
                 = (Inr choice, w4)"
    using 2(8,9) by simp
  then have "length (stdin w4) < length (stdin w3)"
    by (auto dest: input_Inr_less)
  ultimately show ?case
    by (auto dest!: suffix_length_le)
qed

declare add_books_loop.simps [simp del]

definition add_books :: "world \<Rightarrow> (error + unit) \<times> world" where
  "add_books w = add_books_loop (print [] (print ''-- Add new books --'' w))"

subsection \<open>\<open>query_for_books\<close> and \<open>select_book_from_list\<close>\<close>

function query_for_books :: "world \<Rightarrow> (error + Book list) \<times> world" where
  "query_for_books w =
     (case input ''Query (title or author): '' w of
        (Inl e, w1) \<Rightarrow> (Inl e, w1)
      | (Inr query, w1) \<Rightarrow>
          (case find_matching_books (''%'' @ query @ ''%'') (db w1) of
             Inl e \<Rightarrow> (Inl e, w1)
           | Inr matches \<Rightarrow>
               if length matches > 0 then (Inr matches, w1)
               else (case input ''No matches, try again? Y/N '' w1 of
                       (Inl e, w2) \<Rightarrow> (Inl e, w2)
                     | (Inr choice, w2) \<Rightarrow>
                         if lower choice \<noteq> ''y'' then (Inr [], w2)
                         else query_for_books w2)))"
  by pat_completeness auto
termination
proof (relation "measure (\<lambda>w. length (stdin w))", goal_cases)
  case 1
  show ?case by simp
next
  case (2 w r1 w1 query matches r2 w2 choice)
  have "input ''Query (title or author): '' w = (Inr query, w1)"
    using 2(1,2) by simp
  then have "length (stdin w1) < length (stdin w)"
    by (rule input_Inr_less)
  moreover have "input ''No matches, try again? Y/N '' w1 = (Inr choice, w2)"
    using 2(5,6) by simp
  then have "length (stdin w2) < length (stdin w1)"
    by (rule input_Inr_less)
  ultimately show ?case by simp
qed

declare query_for_books.simps [simp del]

definition table_rows :: "Book list \<Rightarrow> cell list list" where
  "table_rows books =
     [Text ''#'', Text ''Title'', Text ''Author'', Text ''Stock Level''] #
     map (\<lambda>(index, book).
            [Number (int index + 1), Text (title book), Text (author book),
             Number (quantity book)])
         (enumerate 0 books)"

definition out_of_range :: "int \<Rightarrow> string" where
  "out_of_range index =
     CHR 0x27 # str_int (index + 1) @ CHR 0x27 # '' is not a valid choice, out of range.''"

function select_book_from_list_loop :: "Book list \<Rightarrow> world \<Rightarrow> (error + Book) \<times> world" where
  "select_book_from_list_loop books w =
     (case input_integer ''Enter the number of the book to update: '' w of
        (Inl e, w1) \<Rightarrow> (Inl e, w1)
      | (Inr n, w1) \<Rightarrow>
          (let index = n - 1
           in if index < 0 \<or> index \<ge> int (length books)
              then select_book_from_list_loop books (print (out_of_range index) w1)
              else (case getitem books index of
                      Inl e \<Rightarrow> (Inl e, w1)
                    | Inr book \<Rightarrow> (Inr book, w1))))"
  by pat_completeness auto
termination
proof (relation "measure (\<lambda>(books, w). length (stdin w))", goal_cases)
  case 1
  show ?case by simp
next
  case (2 books w r1 w1 n index)
  have "input_integer ''Enter the number of the book to update: '' w = (Inr n, w1)"
    using 2(1,2) by simp
  from input_integer_effect [OF this] show ?case by simp
qed

declare select_book_from_list_loop.simps [simp del]

definition select_book_from_list :: "Book list \<Rightarrow> world \<Rightarrow> (error + Book) \<times> world" where
  "select_book_from_list books w =
     select_book_from_list_loop books (print [] (print_table (table_rows books) w))"

subsection \<open>\<open>update_book\<close>, \<open>delete_book\<close> and \<open>search_books\<close>\<close>

definition update_book :: "world \<Rightarrow> (error + unit) \<times> world" where
  "update_book w =
     (case query_for_books
             (print ''Search for the book to be updated'' (print ''-- Update --'' w)) of
        (Inl e, w1) \<Rightarrow> (Inl e, w1)
      | (Inr matches, w1) \<Rightarrow>
     (case select_book_from_list matches w1 of
        (Inl e, w2) \<Rightarrow> (Inl e, w2)
      | (Inr book, w2) \<Rightarrow>
     (case input ''Enter the new title, or blank to skip: '' w2 of
        (Inl e, w3) \<Rightarrow> (Inl e, w3)
      | (Inr new_title, w3) \<Rightarrow>
     (case input ''Enter the new author, or blank to skip: '' w3 of
        (Inl e, w4) \<Rightarrow> (Inl e, w4)
      | (Inr new_author, w4) \<Rightarrow>
     (case input_integer_or_none ''Enter the new stock level, or blank to skip: '' w4 of
        (Inl e, w5) \<Rightarrow> (Inl e, w5)
      | (Inr new_quantity, w5) \<Rightarrow>
          (let new_book =
                 \<lparr>book_id = book_id book,
                  title = (if length new_title > 0 then new_title else title book),
                  author = (if length new_author > 0 then new_author else author book),
                  quantity = (case new_quantity of Some q \<Rightarrow> q | None \<Rightarrow> quantity book)\<rparr>
           in case update_row new_book (db w5) of
                Inl e \<Rightarrow> (Inl e, w5)
              | Inr d \<Rightarrow> (Inr (), print [] (print ''Updated.'' (w5\<lparr>db := d\<rparr>)))))))))"

definition delete_book :: "world \<Rightarrow> (error + unit) \<times> world" where
  "delete_book w =
     (case query_for_books
             (print ''Search for the book to be deleted'' (print ''-- Delete --'' w)) of
        (Inl e, w1) \<Rightarrow> (Inl e, w1)
      | (Inr matches, w1) \<Rightarrow>
     (case select_book_from_list matches w1 of
        (Inl e, w2) \<Rightarrow> (Inl e, w2)
      | (Inr book, w2) \<Rightarrow>
     (case delete_row (book_id book) (db w2) of
        Inl e \<Rightarrow> (Inl e, w2)
      | Inr d \<Rightarrow> (Inr (), print [] (print ''Deleted.'' (w2\<lparr>db := d\<rparr>))))))"

definition search_books :: "world \<Rightarrow> (error + unit) \<times> world" where
  "search_books w =
     (case input ''Query (title or author): '' (print ''-- Search --'' w) of
        (Inl e, w1) \<Rightarrow> (Inl e, w1)
      | (Inr query, w1) \<Rightarrow>
          (let w2 = print [] w1
           in case find_matching_books (''%'' @ query @ ''%'') (db w2) of
                Inl e \<Rightarrow> (Inl e, w2)
              | Inr matches \<Rightarrow>
                  (let w3 = print []
                              (print (str_int (int (length matches)) @ '' result(s)'') w2)
                   in if length matches > 0
                      then (Inr (),
                            print []
                              (print_table
                                 ([Text ''Title'', Text ''Author'', Text ''Stock Level''] #
                                  map (\<lambda>book. [Text (title book), Text (author book),
                                                Number (quantity book)]) matches)
                                 w3))
                      else (Inr (), w3))))"

text \<open>
  Two predicates for the invariants of the table: \<open>quantities ok d\<close> says that every
  quantity stored in \<open>d\<close> satisfies \<open>ok\<close>, and \<open>entries ok ls\<close> that every line of \<open>ls\<close>
  which \<open>int\<close> reads as an integer the engine can store is read as one satisfying \<open>ok\<close>.
\<close>

definition quantities :: "(int \<Rightarrow> bool) \<Rightarrow> database \<Rightarrow> bool" where
  "quantities ok d = list_all (\<lambda>b. ok (quantity b)) (rows d)"

definition entries :: "(int \<Rightarrow> bool) \<Rightarrow> string list \<Rightarrow> bool" where
  "entries ok ls =
     list_all (\<lambda>l. case py_int l of None \<Rightarrow> True | Some k \<Rightarrow> int64 k \<longrightarrow> ok k) ls"

text \<open>
  What the engine guarantees of every table: the ids are distinct (\<open>PRIMARY KEY\<close>) and the
  stored integers are 64-bit signed integers. The seeded table is such a table and
  every statement of the program keeps it one (\<open>program_table_ok\<close> below).
\<close>

definition table_ok :: "database \<Rightarrow> bool" where
  "table_ok d =
     (distinct (map book_id (rows d)) \<and> int64 (seq d) \<and>
      list_all (\<lambda>r. int64 (book_id r) \<and> int64 (quantity r)) (rows d))"

lemma entries_suffix: "suffix ls' ls \<Longrightarrow> entries ok ls \<Longrightarrow> entries ok ls'"
  by (auto simp: entries_def list_all_iff dest: set_mono_suffix)

lemma entries_parsed:
  "entries ok ls \<Longrightarrow> l \<in> set ls \<Longrightarrow> py_int l = Some k \<Longrightarrow> int64 k \<Longrightarrow> ok k"
  by (auto simp: entries_def list_all_iff split: option.splits)

lemma find_matching_books_rows:
  "find_matching_books p d = Inr ms \<Longrightarrow> set ms \<subseteq> set (rows d)"
  by (auto simp: find_matching_books_def split: if_splits)

lemma query_for_books_effect:
  "query_for_books w = (r, w1) \<Longrightarrow>
     db w1 = db w \<and> suffix (stdin w1) (stdin w) \<and>
     (\<forall>ms. r = Inr ms \<longrightarrow> set ms \<subseteq> set (rows (db w)))"
proof (induction w rule: query_for_books.induct)
  case (1 w)
  obtain r0 w0 where i: "input ''Query (title or author): '' w = (r0, w0)"
    by (cases "input ''Query (title or author): '' w")
  note e0 = input_effect [OF i]
  show ?case
  proof (cases r0)
    case (Inl e)
    with 1(2) i e0 show ?thesis by (auto simp: query_for_books.simps)
  next
    case (Inr query)
    show ?thesis
    proof (cases "find_matching_books (''%'' @ query @ ''%'') (db w0)")
      case f: (Inl e)
      with 1(2) i Inr have "r = Inl e" "w1 = w0"
        by (auto simp: query_for_books.simps)
      with e0 show ?thesis by simp
    next
      case f: (Inr ms)
      from find_matching_books_rows [OF f] e0 have sub: "set ms \<subseteq> set (rows (db w))"
        by simp
      show ?thesis
      proof (cases "length ms > 0")
        case True
        with 1(2) i Inr f have "r = Inr ms" "w1 = w0"
          by (auto simp: query_for_books.simps)
        with e0 sub show ?thesis by simp
      next
        case False
        obtain r2 w2 where i2: "input ''No matches, try again? Y/N '' w0 = (r2, w2)"
          by (cases "input ''No matches, try again? Y/N '' w0")
        note e2 = input_effect [OF i2]
        show ?thesis
        proof (cases r2)
          case (Inl e)
          with 1(2) i Inr f i2 False e0 e2 show ?thesis
            by (auto simp: query_for_books.simps intro: suffix_order.trans)
        next
          case r2: (Inr choice)
          show ?thesis
          proof (cases "lower choice \<noteq> ''y''")
            case True
            with 1(2) i Inr f i2 False r2 have "r = Inr []" "w1 = w2"
              by (auto simp: query_for_books.simps)
            with e0 e2 show ?thesis by (auto intro: suffix_order.trans)
          next
            case again: False
            with 1(2) i Inr f i2 False r2 have "query_for_books w2 = (r, w1)"
              by (auto simp: query_for_books.simps)
            with 1(1) [OF i [symmetric] Inr f False i2 [symmetric] r2] again
            have "db w1 = db w2 \<and> suffix (stdin w1) (stdin w2) \<and>
                  (\<forall>ms. r = Inr ms \<longrightarrow> set ms \<subseteq> set (rows (db w2)))"
              by simp
            with e0 e2 show ?thesis by (auto intro: suffix_order.trans)
          qed
        qed
      qed
    qed
  qed
qed

lemma getitem_in_range:
  "0 \<le> i \<Longrightarrow> i < int (length xs) \<Longrightarrow> getitem xs i = Inr (xs ! nat i)"
  by (simp add: getitem_def)

lemma select_book_from_list_loop_effect:
  "select_book_from_list_loop books w = (r, w1) \<Longrightarrow>
     db w1 = db w \<and> suffix (stdin w1) (stdin w) \<and> r \<noteq> Inl IndexError \<and>
     (\<forall>b. r = Inr b \<longrightarrow> b \<in> set books)"
proof (induction books w rule: select_book_from_list_loop.induct)
  case (1 books w)
  obtain r0 w0 where
    i: "input_integer ''Enter the number of the book to update: '' w = (r0, w0)"
    by (cases "input_integer ''Enter the number of the book to update: '' w")
  note e0 = input_integer_effect [OF i]
  show ?case
  proof (cases r0)
    case (Inl e)
    with i have "e = EOFError" by (auto dest: input_integer_error)
    with 1(2) i e0 Inl show ?thesis
      by (auto simp: select_book_from_list_loop.simps)
  next
    case (Inr n)
    show ?thesis
    proof (cases "n - 1 < 0 \<or> n - 1 \<ge> int (length books)")
      case True
      with 1(2) i Inr
      have "select_book_from_list_loop books (print (out_of_range (n - 1)) w0) = (r, w1)"
        by (auto simp: select_book_from_list_loop.simps Let_def)
      with 1(1) [OF i [symmetric] Inr refl] True
      have "db w1 = db w0 \<and> suffix (stdin w1) (stdin w0) \<and> r \<noteq> Inl IndexError \<and>
            (\<forall>b. r = Inr b \<longrightarrow> b \<in> set books)"
        by simp
      with e0 show ?thesis by (auto intro: suffix_order.trans)
    next
      case False
      then have "getitem books (n - 1) = Inr (books ! nat (n - 1))"
        by (simp add: getitem_in_range)
      with 1(2) i Inr False have "r = Inr (books ! nat (n - 1))" "w1 = w0"
        by (auto simp: select_book_from_list_loop.simps Let_def)
      moreover from False have "books ! nat (n - 1) \<in> set books"
        by (simp add: nat_less_iff)
      ultimately show ?thesis using e0 by simp
    qed
  qed
qed

lemma insert_book_quantities:
  "insert_book t a q d = Inr d' \<Longrightarrow> quantities ok d \<Longrightarrow> (int64 q \<Longrightarrow> ok q) \<Longrightarrow>
     quantities ok d'"
  by (auto simp: insert_book_def quantities_def split: if_splits)

lemma update_row_quantities:
  "update_row b d = Inr d' \<Longrightarrow> quantities ok d \<Longrightarrow> (int64 (quantity b) \<Longrightarrow> ok (quantity b)) \<Longrightarrow>
     quantities ok d'"
  by (auto simp: update_row_def quantities_def list_all_iff split: if_splits)

lemma delete_row_quantities:
  "delete_row i d = Inr d' \<Longrightarrow> quantities ok d \<Longrightarrow> quantities ok d'"
  by (auto simp: delete_row_def quantities_def list_all_iff split: if_splits)

lemma add_books_loop_effect:
  "add_books_loop w = (r, w') \<Longrightarrow>
     suffix (stdin w') (stdin w) \<and>
     (entries ok (stdin w) \<longrightarrow> quantities ok (db w) \<longrightarrow> quantities ok (db w'))"
proof (induction w rule: add_books_loop.induct)
  case (1 w)
  let ?w0 = "print ''Please enter the book details:'' w"
  obtain r1 w1 where i1: "input_non_empty_string ''Title: '' ?w0 = (r1, w1)"
    by (cases "input_non_empty_string ''Title: '' ?w0")
  from input_non_empty_string_effect [OF i1]
  have e1: "db w1 = db w" "suffix (stdin w1) (stdin w)" by simp_all
  show ?case
  proof (cases r1)
    case (Inl e)
    with 1(2) i1 e1 show ?thesis by (auto simp: add_books_loop.simps)
  next
    case t: (Inr t)
    obtain r2 w2 where i2: "input_non_empty_string ''Author: '' w1 = (r2, w2)"
      by (cases "input_non_empty_string ''Author: '' w1")
    from input_non_empty_string_effect [OF i2] e1
    have e2: "db w2 = db w" "suffix (stdin w2) (stdin w)"
      by (auto intro: suffix_order.trans)
    show ?thesis
    proof (cases r2)
      case (Inl e)
      with 1(2) i1 t i2 e2 show ?thesis by (auto simp: add_books_loop.simps)
    next
      case a: (Inr a)
      obtain r3 w3 where i3: "input_integer ''Number in stock: '' w2 = (r3, w3)"
        by (cases "input_integer ''Number in stock: '' w2")
      from input_integer_effect [OF i3] e2
      have e3: "db w3 = db w" "suffix (stdin w3) (stdin w)"
        by (auto intro: suffix_order.trans)
      show ?thesis
      proof (cases r3)
        case (Inl e)
        with 1(2) i1 t i2 a i3 e3 show ?thesis by (auto simp: add_books_loop.simps)
      next
        case q: (Inr q)
        from input_integer_effect [OF i3] q e2
        obtain l where l: "l \<in> set (stdin w)" "py_int l = Some q"
          by (auto dest: set_mono_suffix)
        show ?thesis
        proof (cases "insert_book t a q (db w3)")
          case (Inl e)
          with 1(2) i1 t i2 a i3 q e3 show ?thesis by (auto simp: add_books_loop.simps)
        next
          case d: (Inr d)
          have inv: "entries ok (stdin w) \<Longrightarrow> quantities ok (db w) \<Longrightarrow> quantities ok d"
            using insert_book_quantities [OF d, of ok] e3 l
            by (auto dest: entries_parsed)
          let ?w3 = "print [] (print ''Saved.'' (w3\<lparr>db := d\<rparr>))"
          obtain r4 w4 where i4: "input ''Add another? Y/N '' ?w3 = (r4, w4)"
            by (cases "input ''Add another? Y/N '' ?w3")
          from input_effect [OF i4] e3
          have e4: "db w4 = d" "suffix (stdin w4) (stdin w)"
            by (auto intro: suffix_order.trans)
          show ?thesis
          proof (cases r4)
            case (Inl e)
            with 1(2) i1 t i2 a i3 q d i4 e4 inv show ?thesis
              by (auto simp: add_books_loop.simps)
          next
            case c: (Inr choice)
            show ?thesis
            proof (cases "lower choice \<noteq> ''y''")
              case True
              with 1(2) i1 t i2 a i3 q d i4 c e4 inv show ?thesis
                by (auto simp: add_books_loop.simps)
            next
              case False
              with 1(2) i1 t i2 a i3 q d i4 c have "add_books_loop w4 = (r, w')"
                by (auto simp: add_books_loop.simps)
              with 1(1) [OF i1 [symmetric] t i2 [symmetric] a i3 [symmetric] q d
                  i4 [symmetric] c] False
              have "suffix (stdin w') (stdin w4) \<and>
                    (entries ok (stdin w4) \<longrightarrow> quantities ok (db w4) \<longrightarrow>
                     quantities ok (db w'))"
                by simp
              with e4 inv show ?thesis
                by (auto intro: suffix_order.trans dest: entries_suffix)
            qed
          qed
        qed
      qed
    qed
  qed
qed

lemma add_books_effect:
  "add_books w = (r, w') \<Longrightarrow>
     suffix (stdin w') (stdin w) \<and>
     (entries ok (stdin w) \<longrightarrow> quantities ok (db w) \<longrightarrow> quantities ok (db w'))"
  using add_books_loop_effect [of "print [] (print ''-- Add new books --'' w)" r w' ok]
  by (simp add: add_books_def)

lemma select_book_from_list_effect:
  "select_book_from_list books w = (r, w1) \<Longrightarrow>
     db w1 = db w \<and> suffix (stdin w1) (stdin w) \<and> r \<noteq> Inl IndexError \<and>
     (\<forall>b. r = Inr b \<longrightarrow> b \<in> set books)"
  using select_book_from_list_loop_effect
          [of books "print [] (print_table (table_rows books) w)" r w1]
  by (simp add: select_book_from_list_def)

lemma update_book_effect:
  "update_book w = (r, w') \<Longrightarrow>
     suffix (stdin w') (stdin w) \<and>
     (entries ok (stdin w) \<longrightarrow> quantities ok (db w) \<longrightarrow> quantities ok (db w'))"
proof -
  assume u: "update_book w = (r, w')"
  let ?w0 = "print ''Search for the book to be updated'' (print ''-- Update --'' w)"
  obtain r1 w1 where i1: "query_for_books ?w0 = (r1, w1)"
    by (cases "query_for_books ?w0")
  from query_for_books_effect [OF i1]
  have e1: "db w1 = db w" "suffix (stdin w1) (stdin w)"
    and m1: "\<And>ms. r1 = Inr ms \<Longrightarrow> set ms \<subseteq> set (rows (db w))"
    by simp_all
  show ?thesis
  proof (cases r1)
    case (Inl e)
    with u i1 e1 show ?thesis by (auto simp: update_book_def)
  next
    case ms: (Inr matches)
    obtain r2 w2 where i2: "select_book_from_list matches w1 = (r2, w2)"
      by (cases "select_book_from_list matches w1")
    from select_book_from_list_effect [OF i2] e1
    have e2: "db w2 = db w" "suffix (stdin w2) (stdin w)"
      and m2: "\<And>b. r2 = Inr b \<Longrightarrow> b \<in> set matches"
      by (auto intro: suffix_order.trans)
    show ?thesis
    proof (cases r2)
      case (Inl e)
      with u i1 ms i2 e2 show ?thesis by (auto simp: update_book_def)
    next
      case b: (Inr book)
      with m2 m1 [OF ms] have book: "book \<in> set (rows (db w))" by auto
      obtain r3 w3 where i3: "input ''Enter the new title, or blank to skip: '' w2 = (r3, w3)"
        by (cases "input ''Enter the new title, or blank to skip: '' w2")
      from input_effect [OF i3] e2
      have e3: "db w3 = db w" "suffix (stdin w3) (stdin w)"
        by (auto intro: suffix_order.trans)
      show ?thesis
      proof (cases r3)
        case (Inl e)
        with u i1 ms i2 b i3 e3 show ?thesis by (auto simp: update_book_def)
      next
        case nt: (Inr new_title)
        obtain r4 w4 where
          i4: "input ''Enter the new author, or blank to skip: '' w3 = (r4, w4)"
          by (cases "input ''Enter the new author, or blank to skip: '' w3")
        from input_effect [OF i4] e3
        have e4: "db w4 = db w" "suffix (stdin w4) (stdin w)"
          by (auto intro: suffix_order.trans)
        show ?thesis
        proof (cases r4)
          case (Inl e)
          with u i1 ms i2 b i3 nt i4 e4 show ?thesis by (auto simp: update_book_def)
        next
          case na: (Inr new_author)
          obtain r5 w5 where
            i5: "input_integer_or_none ''Enter the new stock level, or blank to skip: '' w4
                 = (r5, w5)"
            by (cases "input_integer_or_none
                         ''Enter the new stock level, or blank to skip: '' w4")
          from input_integer_or_none_effect [OF i5] e4
          have e5: "db w5 = db w" "suffix (stdin w5) (stdin w)"
            and m5: "\<And>v. r5 = Inr (Some v) \<Longrightarrow> \<exists>l \<in> set (stdin w). py_int l = Some v"
            by (auto intro: suffix_order.trans dest: set_mono_suffix)
          show ?thesis
          proof (cases r5)
            case (Inl e)
            with u i1 ms i2 b i3 nt i4 na i5 e5 show ?thesis
              by (auto simp: update_book_def)
          next
            case nq: (Inr new_quantity)
            define new_book where "new_book =
              \<lparr>book_id = book_id book,
               title = (if length new_title > 0 then new_title else title book),
               author = (if length new_author > 0 then new_author else author book),
               quantity = (case new_quantity of Some q \<Rightarrow> q | None \<Rightarrow> quantity book)\<rparr>"
            have okq: "ok (quantity new_book)"
              if "entries ok (stdin w)" "quantities ok (db w)" "int64 (quantity new_book)"
            proof (cases new_quantity)
              case None
              with that(2) book show ?thesis
                by (auto simp: new_book_def quantities_def list_all_iff)
            next
              case (Some q)
              with m5 nq obtain l where "l \<in> set (stdin w)" "py_int l = Some q" by auto
              with that(1,3) Some show ?thesis
                by (auto simp: new_book_def dest: entries_parsed)
            qed
            show ?thesis
            proof (cases "update_row new_book (db w5)")
              case (Inl e)
              with u i1 ms i2 b i3 nt i4 na i5 nq e5 show ?thesis
                by (auto simp: update_book_def new_book_def Let_def)
            next
              case d: (Inr d)
              with u i1 ms i2 b i3 nt i4 na i5 nq
              have w': "w' = print [] (print ''Updated.'' (w5\<lparr>db := d\<rparr>))"
                by (auto simp: update_book_def new_book_def Let_def)
              have "quantities ok d" if "entries ok (stdin w)" "quantities ok (db w)"
                using update_row_quantities [OF d, of ok] okq that e5 by auto
              with w' e5 show ?thesis by auto
            qed
          qed
        qed
      qed
    qed
  qed
qed

lemma delete_book_effect:
  "delete_book w = (r, w') \<Longrightarrow>
     suffix (stdin w') (stdin w) \<and>
     (entries ok (stdin w) \<longrightarrow> quantities ok (db w) \<longrightarrow> quantities ok (db w'))"
proof -
  assume u: "delete_book w = (r, w')"
  let ?w0 = "print ''Search for the book to be deleted'' (print ''-- Delete --'' w)"
  obtain r1 w1 where i1: "query_for_books ?w0 = (r1, w1)"
    by (cases "query_for_books ?w0")
  from query_for_books_effect [OF i1]
  have e1: "db w1 = db w" "suffix (stdin w1) (stdin w)" by simp_all
  show ?thesis
  proof (cases r1)
    case (Inl e)
    with u i1 e1 show ?thesis by (auto simp: delete_book_def)
  next
    case ms: (Inr matches)
    obtain r2 w2 where i2: "select_book_from_list matches w1 = (r2, w2)"
      by (cases "select_book_from_list matches w1")
    from select_book_from_list_effect [OF i2] e1
    have e2: "db w2 = db w" "suffix (stdin w2) (stdin w)"
      by (auto intro: suffix_order.trans)
    show ?thesis
    proof (cases r2)
      case (Inl e)
      with u i1 ms i2 e2 show ?thesis by (auto simp: delete_book_def)
    next
      case b: (Inr book)
      show ?thesis
      proof (cases "delete_row (book_id book) (db w2)")
        case (Inl e)
        with u i1 ms i2 b e2 show ?thesis by (auto simp: delete_book_def)
      next
        case d: (Inr d)
        with u i1 ms i2 b
        have w': "w' = print [] (print ''Deleted.'' (w2\<lparr>db := d\<rparr>))"
          by (auto simp: delete_book_def)
        have "quantities ok d" if "quantities ok (db w)"
          using delete_row_quantities [OF d, of ok] that e2 by auto
        with w' e2 show ?thesis by auto
      qed
    qed
  qed
qed

lemma search_books_effect:
  "search_books w = (r, w') \<Longrightarrow> db w' = db w \<and> suffix (stdin w') (stdin w)"
proof -
  assume u: "search_books w = (r, w')"
  obtain r1 w1 where i1: "input ''Query (title or author): '' (print ''-- Search --'' w) = (r1, w1)"
    by (cases "input ''Query (title or author): '' (print ''-- Search --'' w)")
  from input_effect [OF i1]
  have e1: "db w1 = db w" "suffix (stdin w1) (stdin w)" by simp_all
  show ?thesis
  proof (cases r1)
    case (Inl e)
    with u i1 e1 show ?thesis by (auto simp: search_books_def)
  next
    case (Inr query)
    with u i1 e1 show ?thesis
      by (auto simp: search_books_def Let_def split: if_splits sum.splits)
  qed
qed

subsection \<open>\<open>main_menu\<close>\<close>

definition menu :: "world \<Rightarrow> world" where
  "menu w =
     print ''0. Exit'' (print ''4. Search books'' (print ''3. Delete book''
       (print ''2. Update book'' (print ''1. Enter book''
         (print ''Please choose an option:'' w)))))"

function main_menu :: "world \<Rightarrow> (error + unit) \<times> world" where
  "main_menu w =
     (case input ''> '' (menu w) of
        (Inl e, w1) \<Rightarrow> (Inl e, w1)
      | (Inr line, w1) \<Rightarrow>
          (let choice = lower line
           in if choice = ''1'' then
                (case add_books w1 of
                   (Inl e, w2) \<Rightarrow> (Inl e, w2) | (Inr u, w2) \<Rightarrow> main_menu w2)
              else if choice = ''2'' then
                (case update_book w1 of
                   (Inl e, w2) \<Rightarrow> (Inl e, w2) | (Inr u, w2) \<Rightarrow> main_menu w2)
              else if choice = ''3'' then
                (case delete_book w1 of
                   (Inl e, w2) \<Rightarrow> (Inl e, w2) | (Inr u, w2) \<Rightarrow> main_menu w2)
              else if choice = ''4'' then
                (case search_books w1 of
                   (Inl e, w2) \<Rightarrow> (Inl e, w2) | (Inr u, w2) \<Rightarrow> main_menu w2)
              else if choice = ''0'' then (Inr (), w1)
              else main_menu (print ''Invalid choice, please try again.'' w1)))"
  by pat_completeness auto
termination
proof (relation "measure (\<lambda>w. length (stdin w))", goal_cases)
  case 1
  show ?case by simp
next
  case (2 w r1 w1 line choice r2 w2 u)
  from 2(1,2) have "length (stdin w1) < length (stdin w)"
    using input_Inr_less [of "''> ''" "menu w" line w1] by (simp add: menu_def)
  moreover from add_books_effect [OF 2(5) [symmetric]]
  have "length (stdin w2) \<le> length (stdin w1)" by (auto dest: suffix_length_le)
  ultimately show ?case by simp
next
  case (3 w r1 w1 line choice r2 w2 u)
  from 3(1,2) have "length (stdin w1) < length (stdin w)"
    using input_Inr_less [of "''> ''" "menu w" line w1] by (simp add: menu_def)
  moreover from update_book_effect [OF 3(6) [symmetric]]
  have "length (stdin w2) \<le> length (stdin w1)" by (auto dest: suffix_length_le)
  ultimately show ?case by simp
next
  case (4 w r1 w1 line choice r2 w2 u)
  from 4(1,2) have "length (stdin w1) < length (stdin w)"
    using input_Inr_less [of "''> ''" "menu w" line w1] by (simp add: menu_def)
  moreover from delete_book_effect [OF 4(7) [symmetric]]
  have "length (stdin w2) \<le> length (stdin w1)" by (auto dest: suffix_length_le)
  ultimately show ?case by simp
next
  case (5 w r1 w1 line choice r2 w2 u)
  from 5(1,2) have "length (stdin w1) < length (stdin w)"
    using input_Inr_less [of "''> ''" "menu w" line w1] by (simp add: menu_def)
  moreover from search_books_effect [OF 5(8) [symmetric]]
  have "length (stdin w2) \<le> length (stdin w1)" by (auto dest: suffix_length_le)
  ultimately show ?case by simp
next
  case (6 w r1 w1 line choice)
  from 6(1,2) have "length (stdin w1) < length (stdin w)"
    using input_Inr_less [of "''> ''" "menu w" line w1] by (simp add: menu_def)
  then show ?case by simp
qed

declare main_menu.simps [simp del]

text \<open>The program: \<open>db = initialise_database()\<close>, then \<open>main_menu()\<close>.\<close>

definition program :: "database option \<Rightarrow> string list \<Rightarrow> (error + unit) \<times> world option" where
  "program file lines =
     (case initialise_database file of
        Inl e \<Rightarrow> (Inl e, None)
      | Inr d \<Rightarrow>
          (case main_menu \<lparr>stdin = lines, stdout = [], db = d\<rparr> of
             (r, w) \<Rightarrow> (r, Some w)))"

lemma largest_rowid_ge: "b \<in> set (rows d) \<Longrightarrow> book_id b \<le> largest_rowid d"
proof -
  have "b \<in> set bs \<Longrightarrow> book_id b \<le> foldr max (map book_id bs) s" for bs s
    by (induction bs) auto
  then show "b \<in> set (rows d) \<Longrightarrow> book_id b \<le> largest_rowid d"
    by (simp add: largest_rowid_def)
qed

section \<open>Reading one line\<close>

text \<open>What each helper does with the next line of the input.\<close>

lemma input_Cons:
  "stdin w = l # ls \<Longrightarrow>
     input p w = (Inr l, w\<lparr>stdin := ls, stdout := stdout w @ [Prompt p]\<rparr>)"
  by (simp add: input_def)

lemma input_Nil:
  "stdin w = [] \<Longrightarrow> input p w = (Inl EOFError, w\<lparr>stdout := stdout w @ [Prompt p]\<rparr>)"
  by (simp add: input_def)

lemma input_non_empty_string_Cons:
  assumes "stdin w = l # ls" "l \<noteq> []"
  shows "input_non_empty_string p w = (Inr l, w\<lparr>stdin := ls, stdout := stdout w @ [Prompt p]\<rparr>)"
  using assms input_Cons [OF assms(1), of p]
  by (subst input_non_empty_string.simps) simp

lemma input_integer_Cons:
  assumes "stdin w = l # ls" "py_int l = Some v"
  shows "input_integer p w = (Inr v, w\<lparr>stdin := ls, stdout := stdout w @ [Prompt p]\<rparr>)"
  using assms input_Cons [OF assms(1), of p]
  by (subst input_integer.simps) simp

lemma input_integer_or_none_Cons:
  assumes "stdin w = l # ls" "l \<noteq> []" "py_int l = Some v"
  shows "input_integer_or_none p w =
       (Inr (Some v), w\<lparr>stdin := ls, stdout := stdout w @ [Prompt p]\<rparr>)"
  using assms input_Cons [OF assms(1), of p]
  by (subst input_integer_or_none.simps) simp

lemma input_integer_or_none_blank:
  assumes "stdin w = [] # ls"
  shows "input_integer_or_none p w = (Inr None, w\<lparr>stdin := ls, stdout := stdout w @ [Prompt p]\<rparr>)"
  using input_Cons [OF assms, of p]
  by (subst input_integer_or_none.simps) simp

section \<open>Pattern matching\<close>

lemma like_percent: "like x (CHR ''%'' # ps) = (\<exists>t. suffix t x \<and> like t ps)"
proof (induction x)
  case Nil
  show ?case by (simp add: like.simps)
next
  case (Cons c x)
  have "like (c # x) (CHR ''%'' # ps) = (like (c # x) ps \<or> like x (CHR ''%'' # ps))"
    by (simp add: like.simps)
  also have "\<dots> = (like (c # x) ps \<or> (\<exists>t. suffix t x \<and> like t ps))"
    by (simp only: Cons.IH)
  also have "\<dots> = (\<exists>t. suffix t (c # x) \<and> like t ps)"
    by (auto simp: suffix_Cons)
  finally show ?case .
qed

lemma like_any: "like x ''%''"
proof -
  have "suffix [] x \<and> like [] []" by (simp add: like.simps)
  then show ?thesis unfolding like_percent by blast
qed

lemma like_same_prefix: "like t ps \<Longrightarrow> like (s @ t) (s @ ps)"
proof (induction s)
  case Nil
  then show ?case by simp
next
  case (Cons c s)
  then have IH: "like (s @ t) (s @ ps)" by simp
  show ?case
  proof (cases "c = CHR ''%''")
    case True
    have "suffix (s @ t) (c # s @ t)" by (simp add: suffix_Cons)
    with IH have "\<exists>t'. suffix t' (c # s @ t) \<and> like t' (s @ ps)" by blast
    with True show ?thesis by (simp add: like_percent)
  next
    case False
    with IH show ?thesis by (simp add: like.simps)
  qed
qed

lemma like_contains: "like (pre @ s @ post) (''%'' @ s @ ''%'')"
proof -
  have "like (s @ post) (s @ ''%'')"
    by (rule like_same_prefix) (rule like_any)
  moreover have "suffix (s @ post) (pre @ s @ post)"
    by (simp add: suffix_def)
  ultimately show ?thesis
    unfolding append_Cons append_Nil like_percent by blast
qed

lemma like_literal:
  "CHR ''%'' \<notin> set q \<Longrightarrow> CHR ''_'' \<notin> set q \<Longrightarrow>
     like x (q @ ps) =
       (\<exists>y t. x = y @ t \<and> map like_fold y = map like_fold q \<and> like t ps)"
proof (induction q arbitrary: x)
  case Nil
  show ?case by simp
next
  case (Cons p q)
  then have p: "p \<noteq> CHR ''%''" "p \<noteq> CHR ''_''"
    and IH: "\<And>x. like x (q @ ps) =
               (\<exists>y t. x = y @ t \<and> map like_fold y = map like_fold q \<and> like t ps)"
    by auto
  show ?case
  proof (cases x)
    case Nil
    with p show ?thesis by (simp add: like.simps)
  next
    case (Cons c x')
    have "like x ((p # q) @ ps) = (like_fold p = like_fold c \<and> like x' (q @ ps))"
      using p Cons by (simp add: like.simps)
    also have "\<dots> = (like_fold p = like_fold c \<and>
        (\<exists>y t. x' = y @ t \<and> map like_fold y = map like_fold q \<and> like t ps))"
      by (simp only: IH)
    also have "\<dots> = (\<exists>y t. x = y @ t \<and> map like_fold y = map like_fold (p # q) \<and> like t ps)"
    proof
      assume "like_fold p = like_fold c \<and>
        (\<exists>y t. x' = y @ t \<and> map like_fold y = map like_fold q \<and> like t ps)"
      then obtain y t where "like_fold p = like_fold c" "x' = y @ t"
        "map like_fold y = map like_fold q" "like t ps" by blast
      then have "x = (c # y) @ t \<and> map like_fold (c # y) = map like_fold (p # q) \<and> like t ps"
        using Cons by simp
      then show "\<exists>y t. x = y @ t \<and> map like_fold y = map like_fold (p # q) \<and> like t ps"
        by blast
    next
      assume "\<exists>y t. x = y @ t \<and> map like_fold y = map like_fold (p # q) \<and> like t ps"
      then obtain y t where y: "x = y @ t" "map like_fold y = map like_fold (p # q)"
        "like t ps" by blast
      from y(2) obtain c' y' where y': "y = c' # y'" by (cases y) auto
      with y Cons show "like_fold p = like_fold c \<and>
        (\<exists>y t. x' = y @ t \<and> map like_fold y = map like_fold q \<and> like t ps)"
        by auto
    qed
    finally show ?thesis .
  qed
qed

lemma like_substring:
  assumes "CHR ''%'' \<notin> set q" "CHR ''_'' \<notin> set q"
  shows "like x (''%'' @ q @ ''%'') = sublist (map like_fold q) (map like_fold x)"
proof -
  have "like x (''%'' @ q @ ''%'') = (\<exists>t. suffix t x \<and> like t (q @ ''%''))"
    unfolding append_Cons append_Nil like_percent ..
  also have "\<dots> = (\<exists>t. suffix t x \<and>
      (\<exists>y t'. t = y @ t' \<and> map like_fold y = map like_fold q \<and> like t' ''%''))"
    by (simp only: like_literal [OF assms])
  also have "\<dots> = (\<exists>p y t'. x = p @ y @ t' \<and> map like_fold y = map like_fold q)"
    by (auto simp: suffix_def like_any)
  also have "\<dots> = sublist (map like_fold q) (map like_fold x)"
  proof
    assume "\<exists>p y t'. x = p @ y @ t' \<and> map like_fold y = map like_fold q"
    then obtain p y t' where "x = p @ y @ t'" "map like_fold y = map like_fold q" by blast
    then have "map like_fold x = map like_fold p @ map like_fold q @ map like_fold t'"
      by simp
    then show "sublist (map like_fold q) (map like_fold x)"
      unfolding sublist_def by blast
  next
    assume "sublist (map like_fold q) (map like_fold x)"
    then obtain ps ss where m: "map like_fold x = ps @ map like_fold q @ ss"
      unfolding sublist_def by blast
    from m [unfolded map_eq_append_conv]
    obtain p r where pr: "x = p @ r" "map like_fold q @ ss = map like_fold r"
      by blast
    from pr(2) [symmetric, unfolded map_eq_append_conv]
    obtain y t' where "r = y @ t'" "map like_fold y = map like_fold q"
      by metis
    with pr show "\<exists>p y t'. x = p @ y @ t' \<and> map like_fold y = map like_fold q"
      by blast
  qed
  finally show ?thesis .
qed

lemma like_underscore: "like x (''%'' @ ''_'' @ ''%'') = (x \<noteq> [])"
proof -
  have one: "like t ''_%'' = (t \<noteq> [])" for t
    by (cases t) (simp_all add: like.simps(2) [where p = "CHR ''_''"] like_any)
  have "like x (''%'' @ ''_'' @ ''%'') = (\<exists>t. suffix t x \<and> t \<noteq> [])"
    unfolding append_Cons append_Nil like_percent one ..
  also have "\<dots> = (x \<noteq> [])"
    by (auto simp: suffix_def)
  finally show ?thesis .
qed

text \<open>
  What the engine reads of a string, the length of a pattern in bytes, and the \<open>SELECT\<close>
  statement on the patterns that the workflows build.
\<close>

lemma c_text_no_nul: "CHR 0x00 \<notin> set s \<Longrightarrow> c_text s = s"
  by (auto simp: c_text_def takeWhile_eq_all_conv)

lemma nul_notin_c_text: "CHR 0x00 \<notin> set (c_text s)"
  by (auto simp: c_text_def dest: set_takeWhileD)

lemma c_text_wrap:
  "CHR 0x00 \<notin> set q \<Longrightarrow> c_text (''%'' @ q @ ''%'') = ''%'' @ q @ ''%''"
  by (rule c_text_no_nul) simp

lemma utf8_length_wrap: "utf8_length (''%'' @ q @ ''%'') = utf8_length q + 2"
  by (simp add: utf8_length_def)

lemma utf8_length_replicate_ascii:
  "(of_char c :: nat) < 128 \<Longrightarrow> utf8_length (replicate n c) = int n"
  by (induction n) (simp_all add: utf8_length_def)

lemma find_matching_books_Inr:
  assumes "utf8_length p \<le> MAX_LIKE_PATTERN_LENGTH"
  shows "find_matching_books p d =
           Inr (filter (\<lambda>b. like (c_text (title b)) (c_text p)
                            \<or> like (c_text (author b)) (c_text p)) (rows d))"
  using assms by (simp add: find_matching_books_def)

lemma find_matching_books_too_long:
  assumes "rows d \<noteq> []" "utf8_length p > MAX_LIKE_PATTERN_LENGTH"
  shows "find_matching_books p d = Inl OperationalError"
  using assms by (simp add: find_matching_books_def)

lemma find_matching_books_substring:
  assumes "CHR ''%'' \<notin> set q" "CHR ''_'' \<notin> set q" "CHR 0x00 \<notin> set q"
    and "utf8_length q + 2 \<le> MAX_LIKE_PATTERN_LENGTH"
  shows "find_matching_books (''%'' @ q @ ''%'') d =
           Inr (filter (\<lambda>b. sublist (map like_fold q) (map like_fold (c_text (title b)))
                            \<or> sublist (map like_fold q) (map like_fold (c_text (author b))))
                       (rows d))"
proof -
  have "utf8_length (''%'' @ q @ ''%'') \<le> MAX_LIKE_PATTERN_LENGTH"
    using assms(4) by (simp only: utf8_length_wrap)
  from find_matching_books_Inr [OF this] show ?thesis
    by (simp only: c_text_wrap [OF assms(3)] like_substring [OF assms(1,2)])
qed

lemma find_matching_books_underscore:
  "find_matching_books (''%'' @ ''_'' @ ''%'') d =
     Inr (filter (\<lambda>b. \<not> (c_text (title b) = [] \<and> c_text (author b) = [])) (rows d))"
proof -
  have "utf8_length (''%'' @ ''_'' @ ''%'') \<le> MAX_LIKE_PATTERN_LENGTH"
    by (simp add: utf8_length_def MAX_LIKE_PATTERN_LENGTH_def)
  moreover have "c_text (''%'' @ ''_'' @ ''%'') = ''%'' @ ''_'' @ ''%''"
    by (rule c_text_wrap) simp
  ultimately show ?thesis
    by (simp only: find_matching_books_Inr like_underscore) simp
qed

lemma find_matching_books_percent:
  "find_matching_books (''%'' @ ''%'' @ ''%'') d = Inr (rows d)"
proof -
  have "like [] ''%%''"
    by (simp add: like_percent like.simps(1))
  then have "suffix [] x \<and> like [] ''%%''" for x :: string
    by simp
  then have l: "like x (''%'' @ ''%'' @ ''%'')" for x
    unfolding append_Cons append_Nil like_percent [of x] by blast
  have "utf8_length (''%'' @ ''%'' @ ''%'') \<le> MAX_LIKE_PATTERN_LENGTH"
    by (simp add: utf8_length_def MAX_LIKE_PATTERN_LENGTH_def)
  moreover have "c_text (''%'' @ ''%'' @ ''%'') = ''%'' @ ''%'' @ ''%''"
    by (rule c_text_wrap) simp
  ultimately show ?thesis
    by (simp only: find_matching_books_Inr l) simp
qed

lemma find_matching_books_contains:
  assumes "b \<in> set (rows d)"
    and "sublist s (c_text (title b)) \<or> sublist s (c_text (author b))"
    and "utf8_length s + 2 \<le> MAX_LIKE_PATTERN_LENGTH"
  shows "\<exists>ms. find_matching_books (''%'' @ s @ ''%'') d = Inr ms \<and> b \<in> set ms"
proof -
  have n: "CHR 0x00 \<notin> set s"
    using assms(2) nul_notin_c_text [of "title b"] nul_notin_c_text [of "author b"]
    by (auto dest: set_mono_sublist)
  have "like x (''%'' @ s @ ''%'')" if "sublist s x" for x
  proof -
    from that obtain pre post where "x = pre @ s @ post"
      unfolding sublist_def by blast
    then show ?thesis by (simp only: like_contains)
  qed
  with assms(2) have "like (c_text (title b)) (''%'' @ s @ ''%'')
                    \<or> like (c_text (author b)) (''%'' @ s @ ''%'')"
    by blast
  moreover have "utf8_length (''%'' @ s @ ''%'') \<le> MAX_LIKE_PATTERN_LENGTH"
    using assms(3) by (simp only: utf8_length_wrap)
  ultimately show ?thesis
    using assms(1) by (simp only: find_matching_books_Inr c_text_wrap [OF n]) simp
qed

section \<open>Supporting lemmas\<close>

lemma insert_book_ok:
  assumes "int64 q" "largest_rowid d < MAX_ROWID"
  shows "insert_book t a q d =
           Inr \<lparr>rows = rows d @
                    [\<lparr>book_id = largest_rowid d + 1, title = t, author = a, quantity = q\<rparr>],
                seq = largest_rowid d + 1\<rparr>"
  using assms by (simp add: insert_book_def)

lemma add_books_once:
  assumes lines: "stdin w = t # a # ql # c # rest"
    and t: "t \<noteq> []" and a: "a \<noteq> []" and q: "py_int ql = Some q"
    and ins: "insert_book t a q (db w) = Inr d'"
    and c: "lower c \<noteq> ''y''"
  shows "\<exists>w'. add_books w = (Inr (), w') \<and> stdin w' = rest \<and> db w' = d'"
proof -
  define w0 where "w0 = print ''Please enter the book details:''
                          (print [] (print ''-- Add new books --'' w))"
  define w1 where "w1 = w0\<lparr>stdin := a # ql # c # rest, stdout := stdout w0 @ [Prompt ''Title: '']\<rparr>"
  define w2 where "w2 = w1\<lparr>stdin := ql # c # rest, stdout := stdout w1 @ [Prompt ''Author: '']\<rparr>"
  define w3 where "w3 = w2\<lparr>stdin := c # rest,
                            stdout := stdout w2 @ [Prompt ''Number in stock: '']\<rparr>"
  define w3' where "w3' = print [] (print ''Saved.'' (w3\<lparr>db := d'\<rparr>))"
  define w4 where "w4 = w3'\<lparr>stdin := rest, stdout := stdout w3' @ [Prompt ''Add another? Y/N '']\<rparr>"
  have s0: "stdin w0 = t # a # ql # c # rest" by (simp add: w0_def lines)
  have s1: "stdin w1 = a # ql # c # rest" by (simp add: w1_def)
  have s2: "stdin w2 = ql # c # rest" by (simp add: w2_def)
  have s3: "stdin w3' = c # rest" by (simp add: w3'_def w3_def)
  have d3: "db w3 = db w" by (simp add: w3_def w2_def w1_def w0_def)
  have i1: "input_non_empty_string ''Title: '' w0 = (Inr t, w1)"
    unfolding w1_def by (rule input_non_empty_string_Cons [OF s0 t])
  have i2: "input_non_empty_string ''Author: '' w1 = (Inr a, w2)"
    unfolding w2_def by (rule input_non_empty_string_Cons [OF s1 a])
  have i3: "input_integer ''Number in stock: '' w2 = (Inr q, w3)"
    unfolding w3_def by (rule input_integer_Cons [OF s2 q])
  have i4: "input ''Add another? Y/N '' w3' = (Inr c, w4)"
    unfolding w4_def by (rule input_Cons [OF s3])
  have "add_books_loop (print [] (print ''-- Add new books --'' w)) = (Inr (), w4)"
    by (subst add_books_loop.simps)
      (simp add: w0_def [symmetric] i1 i2 i3 d3 ins w3'_def [symmetric] i4 c)
  moreover have "stdin w4 = rest" by (simp add: w4_def)
  moreover have "db w4 = d'" by (simp add: w4_def w3'_def)
  ultimately show ?thesis by (simp add: add_books_def)
qed

lemma select_book_from_list_loop_error:
  "select_book_from_list_loop books w = (Inl e, w1) \<Longrightarrow> e = EOFError \<and> stdin w1 = []"
proof (induction books w rule: select_book_from_list_loop.induct)
  case (1 books w)
  obtain r0 w0 where
    i: "input_integer ''Enter the number of the book to update: '' w = (r0, w0)"
    by (cases "input_integer ''Enter the number of the book to update: '' w")
  show ?case
  proof (cases r0)
    case (Inl e0)
    with 1(2) i
    have "input_integer ''Enter the number of the book to update: '' w = (Inl e, w1)"
      by (simp add: select_book_from_list_loop.simps)
    then show ?thesis by (rule input_integer_error)
  next
    case (Inr n)
    show ?thesis
    proof (cases "n - 1 < 0 \<or> n - 1 \<ge> int (length books)")
      case True
      with 1(2) i Inr
      have "select_book_from_list_loop books (print (out_of_range (n - 1)) w0) = (Inl e, w1)"
        by (auto simp: select_book_from_list_loop.simps Let_def)
      with 1(1) [OF i [symmetric] Inr refl] True show ?thesis by simp
    next
      case False
      then have "getitem books (n - 1) = Inr (books ! nat (n - 1))"
        by (simp add: getitem_in_range)
      with 1(2) i Inr False show ?thesis
        by (auto simp: select_book_from_list_loop.simps Let_def)
    qed
  qed
qed

lemma select_book_from_empty:
  "\<exists>w'. select_book_from_list [] w = (Inl EOFError, w') \<and> stdin w' = [] \<and> db w' = db w"
proof -
  obtain r w' where s: "select_book_from_list [] w = (r, w')"
    by (cases "select_book_from_list [] w")
  from select_book_from_list_effect [OF s] have d: "db w' = db w" and "\<forall>b. r \<noteq> Inr b"
    by auto
  then obtain e where e: "r = Inl e" by (cases r) auto
  with s have "select_book_from_list_loop [] (print [] (print_table (table_rows []) w))
               = (Inl e, w')"
    by (simp add: select_book_from_list_def)
  from select_book_from_list_loop_error [OF this] s e d show ?thesis by simp
qed

lemma lower_char_below_capitals:
  assumes "(of_char x :: nat) < 65"
  shows "(lower_char c = x) = (c = x)"
proof (cases "(65 \<le> (of_char c :: nat) \<and> (of_char c :: nat) \<le> 90) \<or>
              (192 \<le> (of_char c :: nat) \<and> (of_char c :: nat) \<le> 222 \<and> (of_char c :: nat) \<noteq> 215)")
  case False
  then show ?thesis by (auto simp: lower_char_def Let_def)
next
  case True
  then have l: "lower_char c = char_of ((of_char c :: nat) + 32)"
    by (auto simp: lower_char_def Let_def)
  have "(of_char (char_of ((of_char c :: nat) + 32)) :: nat) = ((of_char c :: nat) + 32) mod 256"
    by (simp add: of_char_of)
  also from True have "\<dots> = (of_char c :: nat) + 32" by auto
  finally have "(of_char (char_of ((of_char c :: nat) + 32)) :: nat) = (of_char c :: nat) + 32" .
  with l True have "(of_char (lower_char c) :: nat) \<ge> 65" by auto
  with assms have "lower_char c \<noteq> x" by auto
  moreover from True assms have "c \<noteq> x" by auto
  ultimately show ?thesis by simp
qed

lemma lower_digit:
  assumes "(of_char x :: nat) < 65"
  shows "(lower line = [x]) = (line = [x])"
  by (cases line) (auto simp: lower_def lower_char_below_capitals [OF assms])

lemma lower_menu_choice:
  "(lower line = ''0'') = (line = ''0'')" "(lower line = ''1'') = (line = ''1'')"
  "(lower line = ''2'') = (line = ''2'')" "(lower line = ''3'') = (line = ''3'')"
  "(lower line = ''4'') = (line = ''4'')"
  by (rule lower_digit, simp)+

lemma exit_line_after:
  assumes "stdin w = line # stdin w1" "suffix (stdin w2) (stdin w1)"
    and "\<exists>pre. stdin w2 = pre @ ''0'' # stdin w'"
  shows "\<exists>pre. stdin w = pre @ ''0'' # stdin w'"
proof -
  from assms(2) obtain p where "stdin w1 = p @ stdin w2" unfolding suffix_def by blast
  moreover from assms(3) obtain pre where "stdin w2 = pre @ ''0'' # stdin w'" by blast
  ultimately have "stdin w = (line # p @ pre) @ ''0'' # stdin w'"
    using assms(1) by simp
  then show ?thesis by blast
qed

lemma main_menu_returns:
  "main_menu w = (Inr u, w') \<Longrightarrow> \<exists>pre. stdin w = pre @ ''0'' # stdin w'"
proof (induction w rule: main_menu.induct)
  case (1 w)
  obtain r1 w1 where i: "input ''> '' (menu w) = (r1, w1)"
    by (cases "input ''> '' (menu w)")
  show ?case
  proof (cases r1)
    case (Inl e)
    with 1(6) i show ?thesis by (simp add: main_menu.simps)
  next
    case (Inr line)
    with input_effect [OF i] have w: "stdin w = line # stdin w1"
      by (simp add: menu_def)
    consider (add) "lower line = ''1''" | (update) "lower line = ''2''"
      | (delete) "lower line = ''3''" | (search) "lower line = ''4''"
      | (exit) "lower line = ''0''"
      | (other) "lower line \<noteq> ''1''" "lower line \<noteq> ''2''" "lower line \<noteq> ''3''"
          "lower line \<noteq> ''4''" "lower line \<noteq> ''0''"
      by blast
    then show ?thesis
    proof cases
      case add
      obtain r2 w2 where i2: "add_books w1 = (r2, w2)" by (cases "add_books w1")
      from add_books_effect [OF i2] have s: "suffix (stdin w2) (stdin w1)" by simp
      from 1(6) i Inr add i2 obtain u2 where r2: "r2 = Inr u2" and m: "main_menu w2 = (Inr u, w')"
        by (cases r2) (auto simp: main_menu.simps)
      from 1(1) [OF i [symmetric] Inr refl add i2 [symmetric] r2 m]
      show ?thesis by (rule exit_line_after [OF w s])
    next
      case update
      then have n: "lower line \<noteq> ''1''" by simp
      obtain r2 w2 where i2: "update_book w1 = (r2, w2)" by (cases "update_book w1")
      from update_book_effect [OF i2] have s: "suffix (stdin w2) (stdin w1)" by simp
      from 1(6) i Inr update i2 obtain u2 where r2: "r2 = Inr u2" and m: "main_menu w2 = (Inr u, w')"
        by (cases r2) (auto simp: main_menu.simps)
      from 1(2) [OF i [symmetric] Inr refl n update i2 [symmetric] r2 m]
      show ?thesis by (rule exit_line_after [OF w s])
    next
      case delete
      then have n: "lower line \<noteq> ''1''" "lower line \<noteq> ''2''" by simp_all
      obtain r2 w2 where i2: "delete_book w1 = (r2, w2)" by (cases "delete_book w1")
      from delete_book_effect [OF i2] have s: "suffix (stdin w2) (stdin w1)" by simp
      from 1(6) i Inr delete i2 obtain u2 where r2: "r2 = Inr u2" and m: "main_menu w2 = (Inr u, w')"
        by (cases r2) (auto simp: main_menu.simps)
      from 1(3) [OF i [symmetric] Inr refl n delete i2 [symmetric] r2 m]
      show ?thesis by (rule exit_line_after [OF w s])
    next
      case search
      then have n: "lower line \<noteq> ''1''" "lower line \<noteq> ''2''" "lower line \<noteq> ''3''"
        by simp_all
      obtain r2 w2 where i2: "search_books w1 = (r2, w2)" by (cases "search_books w1")
      from search_books_effect [OF i2] have s: "suffix (stdin w2) (stdin w1)" by simp
      from 1(6) i Inr search i2 obtain u2 where r2: "r2 = Inr u2" and m: "main_menu w2 = (Inr u, w')"
        by (cases r2) (auto simp: main_menu.simps)
      from 1(4) [OF i [symmetric] Inr refl n search i2 [symmetric] r2 m]
      show ?thesis by (rule exit_line_after [OF w s])
    next
      case exit
      with 1(6) i Inr have "w' = w1" by (simp add: main_menu.simps)
      moreover from exit have "line = ''0''" by (simp add: lower_menu_choice)
      ultimately have "stdin w = [] @ ''0'' # stdin w'" using w by simp
      then show ?thesis by blast
    next
      case other
      with 1(6) i Inr
      have m: "main_menu (print ''Invalid choice, please try again.'' w1) = (Inr u, w')"
        by (simp add: main_menu.simps)
      have s: "suffix (stdin (print ''Invalid choice, please try again.'' w1)) (stdin w1)"
        by simp
      from 1(5) [OF i [symmetric] Inr refl other m]
      show ?thesis by (rule exit_line_after [OF w s])
    qed
  qed
qed

lemma replace_by_id:
  assumes "distinct (map book_id rs)" "b \<in> set rs" "book_id m = book_id b"
  shows "filter (\<lambda>r. book_id r = book_id b)
           (map (\<lambda>r. if book_id r = book_id b then m else r) rs) = [m]"
  using assms
proof (induction rs)
  case Nil
  then show ?case by simp
next
  case (Cons r rs)
  show ?case
  proof (cases "book_id r = book_id b")
    case True
    with Cons.prems(1) have "\<forall>x \<in> set rs. book_id x \<noteq> book_id b"
      by (auto simp: image_iff)
    then have "filter (\<lambda>r. book_id r = book_id b)
                 (map (\<lambda>r. if book_id r = book_id b then m else r) rs) = []"
      by (auto simp: filter_empty_conv)
    with True Cons.prems(3) show ?thesis by simp
  next
    case False
    with Cons.prems have "b \<in> set rs" "distinct (map book_id rs)" by auto
    with Cons.IH Cons.prems(3) False show ?thesis by simp
  qed
qed

lemma replace_keeps_others:
  assumes "j \<noteq> book_id b" "book_id m = book_id b"
  shows "filter (\<lambda>r. book_id r = j) (map (\<lambda>r. if book_id r = book_id b then m else r) rs)
         = filter (\<lambda>r. book_id r = j) rs"
  using assms by (induction rs) auto

lemma select_book_from_list_accepts:
  assumes "input_integer ''Enter the number of the book to update: ''
             (print [] (print_table (table_rows books) w)) = (Inr k, w1)"
    and "1 \<le> k" and "k \<le> int (length books)"
  shows "select_book_from_list books w = (Inr (books ! nat (k - 1)), w1)"
proof -
  from assms(2,3) have "getitem books (k - 1) = Inr (books ! nat (k - 1))"
    by (simp add: getitem_in_range)
  with assms show ?thesis
    unfolding select_book_from_list_def
    by (subst select_book_from_list_loop.simps) (simp add: Let_def)
qed

lemma main_menu_effect:
  "main_menu w = (r, w') \<Longrightarrow>
     suffix (stdin w') (stdin w) \<and>
     (entries ok (stdin w) \<longrightarrow> quantities ok (db w) \<longrightarrow> quantities ok (db w'))"
proof (induction w rule: main_menu.induct)
  case (1 w)
  let ?P = "\<lambda>w. suffix (stdin w') (stdin w) \<and>
     (entries ok (stdin w) \<longrightarrow> quantities ok (db w) \<longrightarrow> quantities ok (db w'))"
  obtain r1 w1 where i: "input ''> '' (menu w) = (r1, w1)"
    by (cases "input ''> '' (menu w)")
  from input_effect [OF i] have e1: "db w1 = db w" "suffix (stdin w1) (stdin w)"
    by (simp_all add: menu_def)
  have step: "?P w" if "suffix (stdin w2) (stdin w1)"
    "entries ok (stdin w1) \<Longrightarrow> quantities ok (db w1) \<Longrightarrow> quantities ok (db w2)" "?P w2" for w2
  proof
    from that(1,3) e1(2) show "suffix (stdin w') (stdin w)"
      by (blast intro: suffix_order.trans)
    show "entries ok (stdin w) \<longrightarrow> quantities ok (db w) \<longrightarrow> quantities ok (db w')"
    proof (intro impI)
      assume a: "entries ok (stdin w)" "quantities ok (db w)"
      from a(1) e1(2) have "entries ok (stdin w1)" by (blast intro: entries_suffix)
      moreover from this that(1) have "entries ok (stdin w2)" by (blast intro: entries_suffix)
      ultimately show "quantities ok (db w')" using that(2,3) a(2) e1(1) by simp
    qed
  qed
  show ?case
  proof (cases r1)
    case (Inl e)
    with 1(6) i e1 show ?thesis by (auto simp: main_menu.simps)
  next
    case (Inr line)
    consider (add) "lower line = ''1''" | (update) "lower line = ''2''"
      | (delete) "lower line = ''3''" | (search) "lower line = ''4''"
      | (exit) "lower line = ''0''"
      | (other) "lower line \<noteq> ''1''" "lower line \<noteq> ''2''" "lower line \<noteq> ''3''"
          "lower line \<noteq> ''4''" "lower line \<noteq> ''0''"
      by blast
    then show ?thesis
    proof cases
      case add
      obtain r2 w2 where i2: "add_books w1 = (r2, w2)" by (cases "add_books w1")
      note e2 = add_books_effect [OF i2, of ok]
      show ?thesis
      proof (cases r2)
        case (Inl e)
        with 1(6) i Inr add i2 have "w' = w2" by (simp add: main_menu.simps)
        with e2 show ?thesis by (intro step [of w2]) auto
      next
        case r2: (Inr u)
        with 1(6) i Inr add i2 have "main_menu w2 = (r, w')" by (simp add: main_menu.simps)
        from 1(1) [OF i [symmetric] Inr refl add i2 [symmetric] r2 this] e2
        show ?thesis by (intro step [of w2]) auto
      qed
    next
      case update
      then have n: "lower line \<noteq> ''1''" by simp
      obtain r2 w2 where i2: "update_book w1 = (r2, w2)" by (cases "update_book w1")
      note e2 = update_book_effect [OF i2, of ok]
      show ?thesis
      proof (cases r2)
        case (Inl e)
        with 1(6) i Inr update i2 have "w' = w2" by (simp add: main_menu.simps)
        with e2 show ?thesis by (intro step [of w2]) auto
      next
        case r2: (Inr u)
        with 1(6) i Inr update i2 have "main_menu w2 = (r, w')" by (simp add: main_menu.simps)
        from 1(2) [OF i [symmetric] Inr refl n update i2 [symmetric] r2 this] e2
        show ?thesis by (intro step [of w2]) auto
      qed
    next
      case delete
      then have n: "lower line \<noteq> ''1''" "lower line \<noteq> ''2''" by simp_all
      obtain r2 w2 where i2: "delete_book w1 = (r2, w2)" by (cases "delete_book w1")
      note e2 = delete_book_effect [OF i2, of ok]
      show ?thesis
      proof (cases r2)
        case (Inl e)
        with 1(6) i Inr delete i2 have "w' = w2" by (simp add: main_menu.simps)
        with e2 show ?thesis by (intro step [of w2]) auto
      next
        case r2: (Inr u)
        with 1(6) i Inr delete i2 have "main_menu w2 = (r, w')" by (simp add: main_menu.simps)
        from 1(3) [OF i [symmetric] Inr refl n delete i2 [symmetric] r2 this] e2
        show ?thesis by (intro step [of w2]) auto
      qed
    next
      case search
      then have n: "lower line \<noteq> ''1''" "lower line \<noteq> ''2''" "lower line \<noteq> ''3''"
        by simp_all
      obtain r2 w2 where i2: "search_books w1 = (r2, w2)" by (cases "search_books w1")
      note e2 = search_books_effect [OF i2]
      show ?thesis
      proof (cases r2)
        case (Inl e)
        with 1(6) i Inr search i2 have "w' = w2" by (simp add: main_menu.simps)
        with e2 show ?thesis by (intro step [of w2]) auto
      next
        case r2: (Inr u)
        with 1(6) i Inr search i2 have "main_menu w2 = (r, w')" by (simp add: main_menu.simps)
        from 1(4) [OF i [symmetric] Inr refl n search i2 [symmetric] r2 this] e2
        show ?thesis by (intro step [of w2]) auto
      qed
    next
      case exit
      with 1(6) i Inr have "w' = w1" by (simp add: main_menu.simps)
      then show ?thesis by (intro step [of w1]) auto
    next
      case other
      with 1(6) i Inr
      have "main_menu (print ''Invalid choice, please try again.'' w1) = (r, w')"
        by (simp add: main_menu.simps)
      from 1(5) [OF i [symmetric] Inr refl other this]
      show ?thesis by (intro step [of "print ''Invalid choice, please try again.'' w1"]) auto
    qed
  qed
qed

lemma initialise_database_None:
  "initialise_database None = Inr \<lparr>rows = initial_data, seq = 3005\<rparr>"
  by (simp add: initialise_database_def initial_data_def insert_row_def int64_def)

lemma program_quantities:
  assumes run: "program dbfile lines = (r, Some w')"
    and stored: "case dbfile of None \<Rightarrow> True | Some d \<Rightarrow> quantities ok d"
    and seeds: "ok 30" "ok 40" "ok 25" "ok 37" "ok 12"
    and entered: "entries ok lines"
  shows "quantities ok (db w')"
proof -
  obtain d where d: "initialise_database dbfile = Inr d" "quantities ok d"
  proof (cases dbfile)
    case None
    with seeds that [of "\<lparr>rows = initial_data, seq = 3005\<rparr>"] show ?thesis
      by (simp add: initialise_database_None quantities_def initial_data_def)
  next
    case (Some d)
    with stored that [of d] show ?thesis by (simp add: initialise_database_def)
  qed
  from run d(1) have "main_menu \<lparr>stdin = lines, stdout = [], db = d\<rparr> = (r, w')"
    by (simp add: program_def split: prod.splits)
  from main_menu_effect [OF this, of ok] entered d(2) show ?thesis by simp
qed

text \<open>The table stays well-formed through every statement and every workflow.\<close>

lemma largest_rowid_int64:
  assumes "table_ok d"
  shows "int64 (largest_rowid d)"
proof -
  have "int64 s \<Longrightarrow> \<forall>r \<in> set rs. int64 (book_id r) \<Longrightarrow>
          int64 (foldr max (map book_id rs) s)" for rs s
    by (induction rs) (auto simp: int64_def max_def)
  with assms show ?thesis
    by (auto simp: table_ok_def largest_rowid_def list_all_iff)
qed

lemma insert_book_table_ok:
  assumes "table_ok d" "insert_book t a q d = Inr d'"
  shows "table_ok d'"
proof -
  from assms(2) have q: "int64 q" and l: "largest_rowid d < MAX_ROWID"
    and d': "d' = \<lparr>rows = rows d @
                   [\<lparr>book_id = largest_rowid d + 1, title = t, author = a, quantity = q\<rparr>],
                seq = largest_rowid d + 1\<rparr>"
    by (auto simp: insert_book_def split: if_splits)
  from largest_rowid_int64 [OF assms(1)] l have n: "int64 (largest_rowid d + 1)"
    by (simp add: int64_def MAX_ROWID_def)
  have "largest_rowid d + 1 \<notin> book_id ` set (rows d)"
    using largest_rowid_ge [of _ d] by fastforce
  with assms(1) q n show ?thesis
    by (simp add: d' table_ok_def)
qed

lemma update_row_table_ok:
  assumes "table_ok d" "update_row b d = Inr d'"
  shows "table_ok d'"
proof -
  from assms(2) have b: "int64 (quantity b)" "int64 (book_id b)"
    and d': "d' = d\<lparr>rows := map (\<lambda>r. if book_id r = book_id b then b else r) (rows d)\<rparr>"
    by (auto simp: update_row_def split: if_splits)
  have ids: "map book_id (map (\<lambda>r. if book_id r = book_id b then b else r) rs) = map book_id rs"
    for rs by (induction rs) simp_all
  have r: "rows d' = map (\<lambda>r. if book_id r = book_id b then b else r) (rows d)"
    by (simp add: d')
  have "map book_id (rows d') = map book_id (rows d)"
    unfolding r by (rule ids)
  moreover have "list_all (\<lambda>r. int64 (book_id r) \<and> int64 (quantity r)) (rows d')"
    using assms(1) b by (auto simp: d' table_ok_def list_all_iff)
  moreover have "seq d' = seq d" by (simp add: d')
  ultimately show ?thesis
    using assms(1) by (simp add: table_ok_def)
qed

lemma delete_row_table_ok:
  assumes "table_ok d" "delete_row i d = Inr d'"
  shows "table_ok d'"
  using assms
  by (auto simp: delete_row_def table_ok_def list_all_iff distinct_map_filter split: if_splits)

lemma add_books_loop_table_ok:
  "add_books_loop w = (r, w') \<Longrightarrow> table_ok (db w) \<Longrightarrow> table_ok (db w')"
proof (induction w rule: add_books_loop.induct)
  case (1 w)
  let ?w0 = "print ''Please enter the book details:'' w"
  obtain r1 w1 where i1: "input_non_empty_string ''Title: '' ?w0 = (r1, w1)"
    by (cases "input_non_empty_string ''Title: '' ?w0")
  from input_non_empty_string_effect [OF i1] have e1: "db w1 = db w" by simp
  show ?case
  proof (cases r1)
    case (Inl e)
    with 1(2,3) i1 e1 show ?thesis by (auto simp: add_books_loop.simps)
  next
    case t: (Inr t)
    obtain r2 w2 where i2: "input_non_empty_string ''Author: '' w1 = (r2, w2)"
      by (cases "input_non_empty_string ''Author: '' w1")
    from input_non_empty_string_effect [OF i2] e1 have e2: "db w2 = db w" by simp
    show ?thesis
    proof (cases r2)
      case (Inl e)
      with 1(2,3) i1 t i2 e2 show ?thesis by (auto simp: add_books_loop.simps)
    next
      case a: (Inr a)
      obtain r3 w3 where i3: "input_integer ''Number in stock: '' w2 = (r3, w3)"
        by (cases "input_integer ''Number in stock: '' w2")
      from input_integer_effect [OF i3] e2 have e3: "db w3 = db w" by simp
      show ?thesis
      proof (cases r3)
        case (Inl e)
        with 1(2,3) i1 t i2 a i3 e3 show ?thesis by (auto simp: add_books_loop.simps)
      next
        case q: (Inr q)
        show ?thesis
        proof (cases "insert_book t a q (db w3)")
          case (Inl e)
          with 1(2,3) i1 t i2 a i3 q e3 show ?thesis by (auto simp: add_books_loop.simps)
        next
          case d: (Inr d)
          from d e3 1(3) have okd: "table_ok d"
            by (auto intro: insert_book_table_ok)
          let ?w3 = "print [] (print ''Saved.'' (w3\<lparr>db := d\<rparr>))"
          obtain r4 w4 where i4: "input ''Add another? Y/N '' ?w3 = (r4, w4)"
            by (cases "input ''Add another? Y/N '' ?w3")
          from input_effect [OF i4] have e4: "db w4 = d" by simp
          show ?thesis
          proof (cases r4)
            case (Inl e)
            with 1(2) i1 t i2 a i3 q d i4 e4 okd show ?thesis
              by (auto simp: add_books_loop.simps)
          next
            case c: (Inr choice)
            show ?thesis
            proof (cases "lower choice \<noteq> ''y''")
              case True
              with 1(2) i1 t i2 a i3 q d i4 c e4 okd show ?thesis
                by (auto simp: add_books_loop.simps)
            next
              case False
              with 1(2) i1 t i2 a i3 q d i4 c have "add_books_loop w4 = (r, w')"
                by (auto simp: add_books_loop.simps)
              with 1(1) [OF i1 [symmetric] t i2 [symmetric] a i3 [symmetric] q d
                  i4 [symmetric] c] False e4 okd
              show ?thesis by simp
            qed
          qed
        qed
      qed
    qed
  qed
qed

lemma update_book_table_ok:
  assumes "update_book w = (r, w')" "table_ok (db w)"
  shows "table_ok (db w')"
proof -
  let ?w0 = "print ''Search for the book to be updated'' (print ''-- Update --'' w)"
  obtain r1 w1 where i1: "query_for_books ?w0 = (r1, w1)"
    by (cases "query_for_books ?w0")
  from query_for_books_effect [OF i1] have e1: "db w1 = db w" by simp
  show ?thesis
  proof (cases r1)
    case (Inl e)
    with assms i1 e1 show ?thesis by (auto simp: update_book_def)
  next
    case ms: (Inr matches)
    obtain r2 w2 where i2: "select_book_from_list matches w1 = (r2, w2)"
      by (cases "select_book_from_list matches w1")
    from select_book_from_list_effect [OF i2] e1 have e2: "db w2 = db w" by simp
    show ?thesis
    proof (cases r2)
      case (Inl e)
      with assms i1 ms i2 e2 show ?thesis by (auto simp: update_book_def)
    next
      case b: (Inr book)
      obtain r3 w3 where i3: "input ''Enter the new title, or blank to skip: '' w2 = (r3, w3)"
        by (cases "input ''Enter the new title, or blank to skip: '' w2")
      from input_effect [OF i3] e2 have e3: "db w3 = db w" by simp
      show ?thesis
      proof (cases r3)
        case (Inl e)
        with assms i1 ms i2 b i3 e3 show ?thesis by (auto simp: update_book_def)
      next
        case nt: (Inr new_title)
        obtain r4 w4 where
          i4: "input ''Enter the new author, or blank to skip: '' w3 = (r4, w4)"
          by (cases "input ''Enter the new author, or blank to skip: '' w3")
        from input_effect [OF i4] e3 have e4: "db w4 = db w" by simp
        show ?thesis
        proof (cases r4)
          case (Inl e)
          with assms i1 ms i2 b i3 nt i4 e4 show ?thesis by (auto simp: update_book_def)
        next
          case na: (Inr new_author)
          obtain r5 w5 where
            i5: "input_integer_or_none ''Enter the new stock level, or blank to skip: '' w4
                 = (r5, w5)"
            by (cases "input_integer_or_none
                         ''Enter the new stock level, or blank to skip: '' w4")
          from input_integer_or_none_effect [OF i5] e4 have e5: "db w5 = db w" by simp
          show ?thesis
          proof (cases r5)
            case (Inl e)
            with assms i1 ms i2 b i3 nt i4 na i5 e5 show ?thesis
              by (auto simp: update_book_def)
          next
            case nq: (Inr new_quantity)
            define new_book where "new_book =
              \<lparr>book_id = book_id book,
               title = (if length new_title > 0 then new_title else title book),
               author = (if length new_author > 0 then new_author else author book),
               quantity = (case new_quantity of Some q \<Rightarrow> q | None \<Rightarrow> quantity book)\<rparr>"
            show ?thesis
            proof (cases "update_row new_book (db w5)")
              case (Inl e)
              with assms i1 ms i2 b i3 nt i4 na i5 nq e5 show ?thesis
                by (auto simp: update_book_def new_book_def Let_def)
            next
              case d: (Inr d)
              with assms(1) i1 ms i2 b i3 nt i4 na i5 nq
              have w': "w' = print [] (print ''Updated.'' (w5\<lparr>db := d\<rparr>))"
                by (auto simp: update_book_def new_book_def Let_def)
              from d e5 assms(2) have "table_ok d"
                by (auto intro: update_row_table_ok)
              with w' show ?thesis by simp
            qed
          qed
        qed
      qed
    qed
  qed
qed

lemma delete_book_table_ok:
  assumes "delete_book w = (r, w')" "table_ok (db w)"
  shows "table_ok (db w')"
proof -
  let ?w0 = "print ''Search for the book to be deleted'' (print ''-- Delete --'' w)"
  obtain r1 w1 where i1: "query_for_books ?w0 = (r1, w1)"
    by (cases "query_for_books ?w0")
  from query_for_books_effect [OF i1] have e1: "db w1 = db w" by simp
  show ?thesis
  proof (cases r1)
    case (Inl e)
    with assms i1 e1 show ?thesis by (auto simp: delete_book_def)
  next
    case ms: (Inr matches)
    obtain r2 w2 where i2: "select_book_from_list matches w1 = (r2, w2)"
      by (cases "select_book_from_list matches w1")
    from select_book_from_list_effect [OF i2] e1 have e2: "db w2 = db w" by simp
    show ?thesis
    proof (cases r2)
      case (Inl e)
      with assms i1 ms i2 e2 show ?thesis by (auto simp: delete_book_def)
    next
      case b: (Inr book)
      show ?thesis
      proof (cases "delete_row (book_id book) (db w2)")
        case (Inl e)
        with assms i1 ms i2 b e2 show ?thesis by (auto simp: delete_book_def)
      next
        case d: (Inr d)
        with assms(1) i1 ms i2 b
        have w': "w' = print [] (print ''Deleted.'' (w2\<lparr>db := d\<rparr>))"
          by (auto simp: delete_book_def)
        from d e2 assms(2) have "table_ok d"
          by (auto intro: delete_row_table_ok)
        with w' show ?thesis by simp
      qed
    qed
  qed
qed

lemma main_menu_table_ok:
  "main_menu w = (r, w') \<Longrightarrow> table_ok (db w) \<Longrightarrow> table_ok (db w')"
proof (induction w rule: main_menu.induct)
  case (1 w)
  obtain r1 w1 where i: "input ''> '' (menu w) = (r1, w1)"
    by (cases "input ''> '' (menu w)")
  from input_effect [OF i] 1(7) have e1: "table_ok (db w1)"
    by (simp add: menu_def)
  show ?case
  proof (cases r1)
    case (Inl e)
    with 1(6) i e1 show ?thesis by (auto simp: main_menu.simps)
  next
    case (Inr line)
    consider (add) "lower line = ''1''" | (update) "lower line = ''2''"
      | (delete) "lower line = ''3''" | (search) "lower line = ''4''"
      | (exit) "lower line = ''0''"
      | (other) "lower line \<noteq> ''1''" "lower line \<noteq> ''2''" "lower line \<noteq> ''3''"
          "lower line \<noteq> ''4''" "lower line \<noteq> ''0''"
      by blast
    then show ?thesis
    proof cases
      case add
      obtain r2 w2 where i2: "add_books w1 = (r2, w2)" by (cases "add_books w1")
      then have e2: "table_ok (db w2)"
        using add_books_loop_table_ok [of _ r2 w2] e1 by (simp add: add_books_def)
      show ?thesis
      proof (cases r2)
        case (Inl e)
        with 1(6) i Inr add i2 e2 show ?thesis by (simp add: main_menu.simps)
      next
        case r2: (Inr u)
        with 1(6) i Inr add i2 have "main_menu w2 = (r, w')" by (simp add: main_menu.simps)
        from 1(1) [OF i [symmetric] Inr refl add i2 [symmetric] r2 this e2]
        show ?thesis .
      qed
    next
      case update
      then have n: "lower line \<noteq> ''1''" by simp
      obtain r2 w2 where i2: "update_book w1 = (r2, w2)" by (cases "update_book w1")
      from update_book_table_ok [OF i2 e1] have e2: "table_ok (db w2)" .
      show ?thesis
      proof (cases r2)
        case (Inl e)
        with 1(6) i Inr update i2 e2 show ?thesis by (simp add: main_menu.simps)
      next
        case r2: (Inr u)
        with 1(6) i Inr update i2 have "main_menu w2 = (r, w')" by (simp add: main_menu.simps)
        from 1(2) [OF i [symmetric] Inr refl n update i2 [symmetric] r2 this e2]
        show ?thesis .
      qed
    next
      case delete
      then have n: "lower line \<noteq> ''1''" "lower line \<noteq> ''2''" by simp_all
      obtain r2 w2 where i2: "delete_book w1 = (r2, w2)" by (cases "delete_book w1")
      from delete_book_table_ok [OF i2 e1] have e2: "table_ok (db w2)" .
      show ?thesis
      proof (cases r2)
        case (Inl e)
        with 1(6) i Inr delete i2 e2 show ?thesis by (simp add: main_menu.simps)
      next
        case r2: (Inr u)
        with 1(6) i Inr delete i2 have "main_menu w2 = (r, w')" by (simp add: main_menu.simps)
        from 1(3) [OF i [symmetric] Inr refl n delete i2 [symmetric] r2 this e2]
        show ?thesis .
      qed
    next
      case search
      then have n: "lower line \<noteq> ''1''" "lower line \<noteq> ''2''" "lower line \<noteq> ''3''"
        by simp_all
      obtain r2 w2 where i2: "search_books w1 = (r2, w2)" by (cases "search_books w1")
      from search_books_effect [OF i2] e1 have e2: "table_ok (db w2)" by simp
      show ?thesis
      proof (cases r2)
        case (Inl e)
        with 1(6) i Inr search i2 e2 show ?thesis by (simp add: main_menu.simps)
      next
        case r2: (Inr u)
        with 1(6) i Inr search i2 have "main_menu w2 = (r, w')" by (simp add: main_menu.simps)
        from 1(4) [OF i [symmetric] Inr refl n search i2 [symmetric] r2 this e2]
        show ?thesis .
      qed
    next
      case exit
      with 1(6) i Inr e1 show ?thesis by (simp add: main_menu.simps)
    next
      case other
      with 1(6) i Inr
      have "main_menu (print ''Invalid choice, please try again.'' w1) = (r, w')"
        by (simp add: main_menu.simps)
      from 1(5) [OF i [symmetric] Inr refl other this] e1
      show ?thesis by simp
    qed
  qed
qed

lemma program_table_ok:
  assumes "program dbfile lines = (r, Some w')"
    and "case dbfile of None \<Rightarrow> True | Some d \<Rightarrow> table_ok d"
  shows "table_ok (db w')"
proof -
  obtain d where d: "initialise_database dbfile = Inr d" "table_ok d"
  proof (cases dbfile)
    case None
    with that [of "\<lparr>rows = initial_data, seq = 3005\<rparr>"] show ?thesis
      by (simp add: initialise_database_None table_ok_def initial_data_def int64_def)
  next
    case (Some d)
    with assms(2) that [of d] show ?thesis by (simp add: initialise_database_def)
  qed
  from assms(1) d(1) have "main_menu \<lparr>stdin = lines, stdout = [], db = d\<rparr> = (r, w')"
    by (simp add: program_def split: prod.splits)
  from main_menu_table_ok [OF this] d(2) show ?thesis by simp
qed

text \<open>The query step and the search workflow on the next line of the input.\<close>

lemma query_for_books_found:
  assumes "stdin w = ql # rest"
    and "find_matching_books (''%'' @ ql @ ''%'') (db w) = Inr ms" and "ms \<noteq> []"
  shows "query_for_books w =
           (Inr ms, w\<lparr>stdin := rest, stdout := stdout w @ [Prompt ''Query (title or author): '']\<rparr>)"
  using assms(2,3)
  by (subst query_for_books.simps) (simp add: input_Cons [OF assms(1)])

lemma query_for_books_declined:
  assumes "stdin w = ql # c # rest"
    and "find_matching_books (''%'' @ ql @ ''%'') (db w) = Inr []" and "lower c \<noteq> ''y''"
  shows "query_for_books w =
           (Inr [], w\<lparr>stdin := rest,
                      stdout := stdout w @ [Prompt ''Query (title or author): '',
                                            Prompt ''No matches, try again? Y/N '']\<rparr>)"
proof -
  let ?w1 = "w\<lparr>stdin := c # rest, stdout := stdout w @ [Prompt ''Query (title or author): '']\<rparr>"
  have i1: "input ''Query (title or author): '' w = (Inr ql, ?w1)"
    by (rule input_Cons [OF assms(1)])
  have "stdin ?w1 = c # rest" by simp
  from input_Cons [OF this, of "''No matches, try again? Y/N ''"] assms(2,3) show ?thesis
    by (subst query_for_books.simps) (simp add: i1)
qed

lemma query_for_books_refused:
  assumes "stdin w = ql # rest"
    and "find_matching_books (''%'' @ ql @ ''%'') (db w) = Inl e"
  shows "query_for_books w =
           (Inl e, w\<lparr>stdin := rest, stdout := stdout w @ [Prompt ''Query (title or author): '']\<rparr>)"
  using assms(2)
  by (subst query_for_books.simps) (simp add: input_Cons [OF assms(1)])

lemma search_books_Cons:
  assumes "stdin w = q # rest"
  shows "search_books w =
    (case find_matching_books (''%'' @ q @ ''%'') (db w) of
       Inl e \<Rightarrow>
         (Inl e, w\<lparr>stdin := rest,
                    stdout := stdout w @ [Print ''-- Search --'',
                                          Prompt ''Query (title or author): '', Print []]\<rparr>)
     | Inr ms \<Rightarrow>
         (Inr (), w\<lparr>stdin := rest,
                    stdout := stdout w @
                      [Print ''-- Search --'', Prompt ''Query (title or author): '', Print [],
                       Print (str_int (int (length ms)) @ '' result(s)''), Print []] @
                      (if ms = [] then []
                       else [Tabulate
                               ([Text ''Title'', Text ''Author'', Text ''Stock Level''] #
                                map (\<lambda>book. [Text (title book), Text (author book),
                                              Number (quantity book)]) ms),
                             Print []])\<rparr>))"
proof -
  have s0: "stdin (print ''-- Search --'' w) = q # rest" using assms by simp
  show ?thesis
    unfolding search_books_def input_Cons [OF s0]
    by (simp add: Let_def print_def print_table_def split: sum.splits)
qed

lemma update_book_inputs:
  assumes lines: "stdin w = ql # kl # nt # na # nl # rest"
    and found: "find_matching_books (''%'' @ ql @ ''%'') (db w) = Inr matches" "matches \<noteq> []"
    and k: "py_int kl = Some k" "1 \<le> k" "k \<le> int (length matches)"
    and nl: "nl = [] \<and> nq = None \<or> nl \<noteq> [] \<and> py_int nl = Some v \<and> nq = Some v"
  shows "\<exists>w1 w2 w3 w4 w5.
           query_for_books
             (print ''Search for the book to be updated'' (print ''-- Update --'' w))
           = (Inr matches, w1)
         \<and> select_book_from_list matches w1 = (Inr (matches ! nat (k - 1)), w2)
         \<and> input ''Enter the new title, or blank to skip: '' w2 = (Inr nt, w3)
         \<and> input ''Enter the new author, or blank to skip: '' w3 = (Inr na, w4)
         \<and> input_integer_or_none ''Enter the new stock level, or blank to skip: '' w4
           = (Inr nq, w5)
         \<and> stdin w5 = rest \<and> db w5 = db w"
proof -
  let ?w0 = "print ''Search for the book to be updated'' (print ''-- Update --'' w)"
  define w1 where "w1 = ?w0\<lparr>stdin := kl # nt # na # nl # rest,
                              stdout := stdout ?w0 @ [Prompt ''Query (title or author): '']\<rparr>"
  let ?w1' = "print [] (print_table (table_rows matches) w1)"
  define w2 where "w2 = ?w1'\<lparr>stdin := nt # na # nl # rest,
      stdout := stdout ?w1' @ [Prompt ''Enter the number of the book to update: '']\<rparr>"
  define w3 where "w3 = w2\<lparr>stdin := na # nl # rest,
      stdout := stdout w2 @ [Prompt ''Enter the new title, or blank to skip: '']\<rparr>"
  define w4 where "w4 = w3\<lparr>stdin := nl # rest,
      stdout := stdout w3 @ [Prompt ''Enter the new author, or blank to skip: '']\<rparr>"
  define w5 where "w5 = w4\<lparr>stdin := rest,
      stdout := stdout w4 @ [Prompt ''Enter the new stock level, or blank to skip: '']\<rparr>"
  have s0: "stdin ?w0 = ql # kl # nt # na # nl # rest" by (simp add: lines)
  have i0: "input ''Query (title or author): '' ?w0 = (Inr ql, w1)"
    unfolding w1_def by (rule input_Cons [OF s0])
  have d1: "db w1 = db w" by (simp add: w1_def)
  have f0: "find_matching_books (''%'' @ ql @ ''%'') (db ?w0) = Inr matches"
    using found(1) by simp
  have q: "query_for_books ?w0 = (Inr matches, w1)"
    unfolding w1_def by (rule query_for_books_found [OF s0 f0 found(2)])
  have s1: "stdin ?w1' = kl # nt # na # nl # rest" by (simp add: w1_def)
  have i1: "input_integer ''Enter the number of the book to update: '' ?w1' = (Inr k, w2)"
    unfolding w2_def by (rule input_integer_Cons [OF s1 k(1)])
  from i1 k(2,3)
  have s: "select_book_from_list matches w1 = (Inr (matches ! nat (k - 1)), w2)"
    by (rule select_book_from_list_accepts)
  have s2: "stdin w2 = nt # na # nl # rest" by (simp add: w2_def)
  have t: "input ''Enter the new title, or blank to skip: '' w2 = (Inr nt, w3)"
    unfolding w3_def by (rule input_Cons [OF s2])
  have s3: "stdin w3 = na # nl # rest" by (simp add: w3_def)
  have a: "input ''Enter the new author, or blank to skip: '' w3 = (Inr na, w4)"
    unfolding w4_def by (rule input_Cons [OF s3])
  have s4: "stdin w4 = nl # rest" by (simp add: w4_def)
  have n: "input_integer_or_none ''Enter the new stock level, or blank to skip: '' w4
           = (Inr nq, w5)"
  proof (cases "nl = []")
    case True
    with nl s4 show ?thesis
      unfolding w5_def by (auto intro: input_integer_or_none_blank)
  next
    case False
    with nl s4 show ?thesis
      unfolding w5_def by (auto intro: input_integer_or_none_Cons)
  qed
  have "stdin w5 = rest" "db w5 = db w"
    by (simp_all add: w5_def w4_def w3_def w2_def w1_def)
  with q s t a n show ?thesis by blast
qed

text \<open>
  The add workflow when the \<open>INSERT\<close> statement fails, the selection from the empty
  list, and the query and selection steps on two lines of the input.
\<close>

lemma add_books_refused:
  assumes lines: "stdin w = t # a # ql # rest"
    and t: "t \<noteq> []" and a: "a \<noteq> []" and q: "py_int ql = Some q"
    and ins: "insert_book t a q (db w) = Inl e"
  shows "\<exists>w'. add_books w = (Inl e, w') \<and> stdin w' = rest \<and> db w' = db w"
proof -
  define w0 where "w0 = print ''Please enter the book details:''
                          (print [] (print ''-- Add new books --'' w))"
  define w1 where "w1 = w0\<lparr>stdin := a # ql # rest, stdout := stdout w0 @ [Prompt ''Title: '']\<rparr>"
  define w2 where "w2 = w1\<lparr>stdin := ql # rest, stdout := stdout w1 @ [Prompt ''Author: '']\<rparr>"
  define w3 where "w3 = w2\<lparr>stdin := rest,
                            stdout := stdout w2 @ [Prompt ''Number in stock: '']\<rparr>"
  have s0: "stdin w0 = t # a # ql # rest" by (simp add: w0_def lines)
  have s1: "stdin w1 = a # ql # rest" by (simp add: w1_def)
  have s2: "stdin w2 = ql # rest" by (simp add: w2_def)
  have d3: "db w3 = db w" by (simp add: w3_def w2_def w1_def w0_def)
  have i1: "input_non_empty_string ''Title: '' w0 = (Inr t, w1)"
    unfolding w1_def by (rule input_non_empty_string_Cons [OF s0 t])
  have i2: "input_non_empty_string ''Author: '' w1 = (Inr a, w2)"
    unfolding w2_def by (rule input_non_empty_string_Cons [OF s1 a])
  have i3: "input_integer ''Number in stock: '' w2 = (Inr q, w3)"
    unfolding w3_def by (rule input_integer_Cons [OF s2 q])
  have "add_books_loop (print [] (print ''-- Add new books --'' w)) = (Inl e, w3)"
    by (subst add_books_loop.simps)
      (simp add: w0_def [symmetric] i1 i2 i3 d3 ins)
  moreover have "stdin w3 = rest" by (simp add: w3_def)
  ultimately show ?thesis using d3 by (simp add: add_books_def)
qed

lemma select_book_from_list_loop_empty:
  "select_book_from_list_loop [] w =
     (Inl EOFError,
      w\<lparr>stdin := [],
        stdout := stdout w @
          concat (map (\<lambda>l. [Prompt ''Enter the number of the book to update: '',
                            Print (case py_int l of
                                     None \<Rightarrow> ''Expected an integer as input, please try again.''
                                   | Some k \<Rightarrow> out_of_range (k - 1))])
                      (stdin w)) @
          [Prompt ''Enter the number of the book to update: '']\<rparr>)"
proof (induction "stdin w" arbitrary: w)
  case Nil
  then have s: "stdin w = []" by simp
  have "input_integer ''Enter the number of the book to update: '' w =
          (Inl EOFError,
           w\<lparr>stdout := stdout w @ [Prompt ''Enter the number of the book to update: '']\<rparr>)"
    by (subst input_integer.simps) (simp add: input_Nil [OF s])
  then have "select_book_from_list_loop [] w =
          (Inl EOFError,
           w\<lparr>stdout := stdout w @ [Prompt ''Enter the number of the book to update: '']\<rparr>)"
    by (subst select_book_from_list_loop.simps) simp
  with s show ?case by (cases w) simp
next
  case (Cons l ls)
  then have s: "stdin w = l # ls" by simp
  let ?p = "''Enter the number of the book to update: ''"
  let ?w1 = "w\<lparr>stdin := ls, stdout := stdout w @ [Prompt ?p]\<rparr>"
  show ?case
  proof (cases "py_int l")
    case None
    let ?w2 = "print ''Expected an integer as input, please try again.'' ?w1"
    have "input_integer ?p w = input_integer ?p ?w2"
      by (subst input_integer.simps) (simp add: input_Cons [OF s] None)
    then have "select_book_from_list_loop [] w = select_book_from_list_loop [] ?w2"
      by (simp add: select_book_from_list_loop.simps [of "[]" w]
                    select_book_from_list_loop.simps [of "[]" ?w2])
    moreover have "ls = stdin ?w2" by simp
    ultimately show ?thesis
      using Cons(1) [of ?w2] None s by (simp add: print_def)
  next
    case (Some k)
    let ?w2 = "print (out_of_range (k - 1)) ?w1"
    have "input_integer ?p w = (Inr k, ?w1)"
      by (rule input_integer_Cons [OF s Some])
    then have "select_book_from_list_loop [] w = select_book_from_list_loop [] ?w2"
      by (auto simp add: select_book_from_list_loop.simps [of "[]" w] Let_def)
    moreover have "ls = stdin ?w2" by simp
    ultimately show ?thesis
      using Cons(1) [of ?w2] Some s by (simp add: print_def)
  qed
qed

lemma select_book_from_list_empty:
  "select_book_from_list [] w =
     (Inl EOFError,
      w\<lparr>stdin := [],
        stdout := stdout w @ [Tabulate (table_rows []), Print []] @
          concat (map (\<lambda>l. [Prompt ''Enter the number of the book to update: '',
                            Print (case py_int l of
                                     None \<Rightarrow> ''Expected an integer as input, please try again.''
                                   | Some k \<Rightarrow> out_of_range (k - 1))])
                      (stdin w)) @
          [Prompt ''Enter the number of the book to update: '']\<rparr>)"
  unfolding select_book_from_list_def select_book_from_list_loop_empty
  by (simp add: print_def print_table_def)

lemma query_and_select:
  assumes lines: "stdin w = ql # kl # rest"
    and found: "find_matching_books (''%'' @ ql @ ''%'') (db w) = Inr matches" "matches \<noteq> []"
    and k: "py_int kl = Some k" "1 \<le> k" "k \<le> int (length matches)"
  shows "\<exists>w1 w2. query_for_books w = (Inr matches, w1)
           \<and> select_book_from_list matches w1 = (Inr (matches ! nat (k - 1)), w2)
           \<and> stdin w2 = rest \<and> db w2 = db w"
proof -
  define w1 where "w1 = w\<lparr>stdin := kl # rest,
                            stdout := stdout w @ [Prompt ''Query (title or author): '']\<rparr>"
  let ?w1' = "print [] (print_table (table_rows matches) w1)"
  define w2 where "w2 = ?w1'\<lparr>stdin := rest,
      stdout := stdout ?w1' @ [Prompt ''Enter the number of the book to update: '']\<rparr>"
  have q: "query_for_books w = (Inr matches, w1)"
    unfolding w1_def by (rule query_for_books_found [OF lines found])
  have s1: "stdin ?w1' = kl # rest" by (simp add: w1_def)
  have i1: "input_integer ''Enter the number of the book to update: '' ?w1' = (Inr k, w2)"
    unfolding w2_def by (rule input_integer_Cons [OF s1 k(1)])
  from i1 k(2,3)
  have s: "select_book_from_list matches w1 = (Inr (matches ! nat (k - 1)), w2)"
    by (rule select_book_from_list_accepts)
  have "stdin w2 = rest" "db w2 = db w"
    by (simp_all add: w2_def w1_def)
  with q s show ?thesis by blast
qed

section \<open>The claims\<close>

text \<open>
  C1 (as amended). \<open>find_matching_books\<close> takes a \<open>LIKE\<close> pattern, and the query workflows
  build it as \<open>%s%\<close> from the line \<open>s\<close> that was entered. For every valid triple (a title
  and an author that are not empty, a line that \<open>int\<close> reads as a quantity within the
  engine's signed 64-bit \<open>INTEGER\<close>) entered into the add workflow on a table whose key is
  not exhausted, the workflow inserts a record with exactly these values under a new id,
  which no record of the table had. For every \<open>s\<close> that is a substring of the title or of
  the author as the engine reads them, up to their first NUL character, and with \<open>%s%\<close>
  of at most 50000 bytes, \<open>find_matching_books\<close> on \<open>%s%\<close> returns a result that contains
  that record, and so does the query step of a workflow in which the line \<open>s\<close> is entered.
\<close>

theorem add_then_find:
  assumes "stdin w = t # a # ql # c # rest"
    and "t \<noteq> []" and "a \<noteq> []"
    and "py_int ql = Some q" and "int64 q"
    and "largest_rowid (db w) < MAX_ROWID"
    and "lower c \<noteq> ''y''"
    and "sublist s (c_text t) \<or> sublist s (c_text a)"
    and "utf8_length s + 2 \<le> MAX_LIKE_PATTERN_LENGTH"
  shows "\<exists>w' ms. add_books w = (Inr (), w') \<and> stdin w' = rest
           \<and> insert_book t a q (db w) = Inr (db w')
           \<and> rows (db w') = rows (db w) @
                [\<lparr>book_id = largest_rowid (db w) + 1, title = t, author = a, quantity = q\<rparr>]
           \<and> find_matching_books (''%'' @ s @ ''%'') (db w') = Inr ms
           \<and> \<lparr>book_id = largest_rowid (db w) + 1, title = t, author = a, quantity = q\<rparr>
                \<in> set ms
           \<and> (\<forall>v more. stdin v = s # more \<and> db v = db w' \<longrightarrow>
                  query_for_books v =
                    (Inr ms, v\<lparr>stdin := more,
                               stdout := stdout v @ [Prompt ''Query (title or author): '']\<rparr>))
           \<and> (\<forall>r \<in> set (rows (db w)). book_id r \<noteq> largest_rowid (db w) + 1)"
proof -
  let ?new = "\<lparr>book_id = largest_rowid (db w) + 1, title = t, author = a, quantity = q\<rparr>"
  let ?d' = "\<lparr>rows = rows (db w) @ [?new], seq = largest_rowid (db w) + 1\<rparr>"
  have ins: "insert_book t a q (db w) = Inr ?d'"
    using assms(5,6) by (rule insert_book_ok)
  from add_books_once [OF assms(1-4) ins assms(7)]
  obtain w' where w': "add_books w = (Inr (), w')" "stdin w' = rest" "db w' = ?d'"
    by blast
  have "?new \<in> set (rows ?d')" by simp
  moreover have "sublist s (c_text (title ?new)) \<or> sublist s (c_text (author ?new))"
    using assms(8) by simp
  ultimately obtain ms where
    ms: "find_matching_books (''%'' @ s @ ''%'') ?d' = Inr ms" "?new \<in> set ms"
    using find_matching_books_contains [OF _ _ assms(9)] by blast
  from ms(2) have ne: "ms \<noteq> []" by auto
  have qu: "\<forall>v more. stdin v = s # more \<and> db v = db w' \<longrightarrow>
              query_for_books v =
                (Inr ms, v\<lparr>stdin := more,
                           stdout := stdout v @ [Prompt ''Query (title or author): '']\<rparr>)"
  proof (intro allI impI)
    fix v :: world and more
    assume v: "stdin v = s # more \<and> db v = db w'"
    then have "find_matching_books (''%'' @ s @ ''%'') (db v) = Inr ms"
      using ms(1) w'(3) by simp
    with v show "query_for_books v =
                (Inr ms, v\<lparr>stdin := more,
                           stdout := stdout v @ [Prompt ''Query (title or author): '']\<rparr>)"
      using ne by (intro query_for_books_found) simp_all
  qed
  have fresh: "\<forall>r \<in> set (rows (db w)). book_id r \<noteq> largest_rowid (db w) + 1"
    using largest_rowid_ge [of _ "db w"] by fastforce
  have 1: "insert_book t a q (db w) = Inr (db w')" using ins w'(3) by simp
  have 2: "rows (db w') = rows (db w) @ [?new]" using w'(3) by simp
  have 3: "find_matching_books (''%'' @ s @ ''%'') (db w') = Inr ms" using ms(1) w'(3) by simp
  from w'(1,2) 1 2 3 ms(2) qu fresh show ?thesis
    by (intro exI [of _ w'] exI [of _ ms] conjI)
qed

theorem add_then_find_witness:
  "fst (add_books \<lparr>stdin = [''Dune'', ''Frank Herbert'', ''10'', ''n''], stdout = [],
                     db = \<lparr>rows = [], seq = 3005\<rparr>\<rparr>) = Inr ()
   \<and> db (snd (add_books \<lparr>stdin = [''Dune'', ''Frank Herbert'', ''10'', ''n''], stdout = [],
                          db = \<lparr>rows = [], seq = 3005\<rparr>\<rparr>)) =
       \<lparr>rows = [\<lparr>book_id = 3006, title = ''Dune'', author = ''Frank Herbert'',
                  quantity = 10\<rparr>],
        seq = 3006\<rparr>
   \<and> find_matching_books (''%'' @ ''un'' @ ''%'')
         \<lparr>rows = [\<lparr>book_id = 3006, title = ''Dune'', author = ''Frank Herbert'',
                    quantity = 10\<rparr>],
          seq = 3006\<rparr> =
       Inr [\<lparr>book_id = 3006, title = ''Dune'', author = ''Frank Herbert'', quantity = 10\<rparr>]
   \<and> fst (query_for_books
            \<lparr>stdin = [''un''], stdout = [],
             db = \<lparr>rows = [\<lparr>book_id = 3006, title = ''Dune'', author = ''Frank Herbert'',
                              quantity = 10\<rparr>],
                   seq = 3006\<rparr>\<rparr>) =
       Inr [\<lparr>book_id = 3006, title = ''Dune'', author = ''Frank Herbert'', quantity = 10\<rparr>]"
proof -
  let ?W = "\<lparr>stdin = [''Dune'', ''Frank Herbert'', ''10'', ''n''], stdout = [],
             db = \<lparr>rows = [], seq = 3005\<rparr>\<rparr>"
  let ?new = "\<lparr>book_id = 3006, title = ''Dune'', author = ''Frank Herbert'', quantity = 10\<rparr>"
  have h1: "stdin ?W = ''Dune'' # ''Frank Herbert'' # ''10'' # ''n'' # []" by simp
  have h2: "''Dune'' \<noteq> []" and h3: "''Frank Herbert'' \<noteq> []" by simp_all
  have h4: "py_int ''10'' = Some 10" by code_simp
  have h5: "int64 10" by (simp add: int64_def)
  have h6: "largest_rowid (db ?W) < MAX_ROWID"
    by (simp add: largest_rowid_def MAX_ROWID_def)
  have h7: "lower ''n'' \<noteq> ''y''" by code_simp
  have h8: "sublist ''un'' (c_text ''Dune'') \<or> sublist ''un'' (c_text ''Frank Herbert'')"
    by code_simp
  have h9: "utf8_length ''un'' + 2 \<le> MAX_LIKE_PATTERN_LENGTH"
    by (simp add: utf8_length_def MAX_LIKE_PATTERN_LENGTH_def)
  have l: "largest_rowid (db ?W) + 1 = 3006" by (simp add: largest_rowid_def)
  from add_then_find [OF h1 h2 h3 h4 h5 h6 h7 h8 h9] obtain w' ms where
    w': "add_books ?W = (Inr (), w')"
      "insert_book ''Dune'' ''Frank Herbert'' 10 (db ?W) = Inr (db w')"
      "find_matching_books (''%'' @ ''un'' @ ''%'') (db w') = Inr ms"
      "\<lparr>book_id = largest_rowid (db ?W) + 1, title = ''Dune'',
         author = ''Frank Herbert'', quantity = 10\<rparr> \<in> set ms"
      "\<forall>v more. stdin v = ''un'' # more \<and> db v = db w' \<longrightarrow>
         query_for_books v =
           (Inr ms, v\<lparr>stdin := more,
                      stdout := stdout v @ [Prompt ''Query (title or author): '']\<rparr>)"
    by blast
  from w'(2) have d: "db w' = \<lparr>rows = [?new], seq = 3006\<rparr>"
    by (simp add: insert_book_def int64_def MAX_ROWID_def largest_rowid_def)
  from find_matching_books_rows [OF w'(3)] have "set ms \<subseteq> {?new}"
    unfolding d by simp
  moreover from w'(3) have "distinct ms"
    unfolding d by (auto simp: find_matching_books_def split: if_splits)
  moreover from w'(4) have "?new \<in> set ms" unfolding l .
  ultimately have m: "ms = [?new]"
    by (cases ms) (auto simp: subset_singleton_iff)
  let ?V = "\<lparr>stdin = [''un''], stdout = [], db = \<lparr>rows = [?new], seq = 3006\<rparr>\<rparr>"
  have "stdin ?V = ''un'' # [] \<and> db ?V = db w'" using d by simp
  with w'(5) have "query_for_books ?V =
      (Inr ms, ?V\<lparr>stdin := [], stdout := stdout ?V @ [Prompt ''Query (title or author): '']\<rparr>)"
    by blast
  then have "fst (query_for_books ?V) = Inr [?new]" using m by simp
  with w'(1,3) d m show ?thesis by simp
qed

text \<open>
  The claim as stated leaves out four conditions. A title may hold a NUL character, at
  which the engine stops reading: after the add of the title \<open>a\<close>, NUL, \<open>b\<close> the substring
  \<open>b\<close> of the title finds nothing, neither as the pattern \<open>%b%\<close> nor as the line \<open>b\<close> of a
  query step. A substring of 49999 bytes makes a pattern that the engine refuses as too
  long, and the query step ends with \<open>OperationalError\<close>. The quantity \<open>2^63\<close> is one that \<open>int\<close> reads and the engine cannot store: the add
  workflow ends with \<open>OverflowError\<close>. On a table that has held the largest key the add
  workflow ends with \<open>OperationalError\<close>.
\<close>

theorem add_then_find_counterexample:
  "fst (add_books \<lparr>stdin = [CHR ''a'' # CHR 0x00 # ''b'', ''c'', ''1'', ''n''], stdout = [],
                     db = \<lparr>rows = [], seq = 3005\<rparr>\<rparr>) = Inr ()
   \<and> db (snd (add_books \<lparr>stdin = [CHR ''a'' # CHR 0x00 # ''b'', ''c'', ''1'', ''n''],
                          stdout = [], db = \<lparr>rows = [], seq = 3005\<rparr>\<rparr>)) =
       \<lparr>rows = [\<lparr>book_id = 3006, title = CHR ''a'' # CHR 0x00 # ''b'', author = ''c'',
                  quantity = 1\<rparr>],
        seq = 3006\<rparr>
   \<and> sublist ''b'' (CHR ''a'' # CHR 0x00 # ''b'')
   \<and> find_matching_books (''%'' @ ''b'' @ ''%'')
         \<lparr>rows = [\<lparr>book_id = 3006, title = CHR ''a'' # CHR 0x00 # ''b'', author = ''c'',
                    quantity = 1\<rparr>],
          seq = 3006\<rparr> = Inr []
   \<and> fst (query_for_books
            \<lparr>stdin = [''b'', ''n''], stdout = [],
             db = \<lparr>rows = [\<lparr>book_id = 3006, title = CHR ''a'' # CHR 0x00 # ''b'',
                              author = ''c'', quantity = 1\<rparr>],
                   seq = 3006\<rparr>\<rparr>) = Inr []
   \<and> fst (add_books \<lparr>stdin = [replicate 49999 (CHR ''a''), ''c'', ''1'', ''n''], stdout = [],
                       db = \<lparr>rows = [], seq = 3005\<rparr>\<rparr>) = Inr ()
   \<and> db (snd (add_books \<lparr>stdin = [replicate 49999 (CHR ''a''), ''c'', ''1'', ''n''],
                          stdout = [], db = \<lparr>rows = [], seq = 3005\<rparr>\<rparr>)) =
       \<lparr>rows = [\<lparr>book_id = 3006, title = replicate 49999 (CHR ''a''), author = ''c'',
                  quantity = 1\<rparr>],
        seq = 3006\<rparr>
   \<and> find_matching_books (''%'' @ replicate 49999 (CHR ''a'') @ ''%'')
         \<lparr>rows = [\<lparr>book_id = 3006, title = replicate 49999 (CHR ''a''), author = ''c'',
                    quantity = 1\<rparr>],
          seq = 3006\<rparr> = Inl OperationalError
   \<and> fst (query_for_books
            \<lparr>stdin = [replicate 49999 (CHR ''a'')], stdout = [],
             db = \<lparr>rows = [\<lparr>book_id = 3006, title = replicate 49999 (CHR ''a''),
                              author = ''c'', quantity = 1\<rparr>],
                   seq = 3006\<rparr>\<rparr>) = Inl OperationalError
   \<and> fst (add_books \<lparr>stdin = [''Dune'', ''Frank Herbert'', ''9223372036854775808'', ''n''],
                       stdout = [], db = \<lparr>rows = [], seq = 3005\<rparr>\<rparr>) = Inl OverflowError
   \<and> fst (add_books \<lparr>stdin = [''Dune'', ''Frank Herbert'', ''10'', ''n''], stdout = [],
                       db = \<lparr>rows = [], seq = 9223372036854775807\<rparr>\<rparr>)
       = Inl OperationalError"
proof -
  let ?t = "CHR ''a'' # CHR 0x00 # ''b''"
  let ?Wa = "\<lparr>stdin = [?t, ''c'', ''1'', ''n''], stdout = [], db = \<lparr>rows = [], seq = 3005\<rparr>\<rparr>"
  let ?Da = "\<lparr>rows = [\<lparr>book_id = 3006, title = ?t, author = ''c'', quantity = 1\<rparr>],
              seq = 3006\<rparr>"
  let ?u = "replicate 49999 (CHR ''a'')"
  let ?Wb = "\<lparr>stdin = [?u, ''c'', ''1'', ''n''], stdout = [], db = \<lparr>rows = [], seq = 3005\<rparr>\<rparr>"
  let ?Db = "\<lparr>rows = [\<lparr>book_id = 3006, title = ?u, author = ''c'', quantity = 1\<rparr>],
              seq = 3006\<rparr>"
  let ?Wc = "\<lparr>stdin = [''Dune'', ''Frank Herbert'', ''9223372036854775808'', ''n''],
              stdout = [], db = \<lparr>rows = [], seq = 3005\<rparr>\<rparr>"
  let ?Wd = "\<lparr>stdin = [''Dune'', ''Frank Herbert'', ''10'', ''n''], stdout = [],
              db = \<lparr>rows = [], seq = 9223372036854775807\<rparr>\<rparr>"
  have one: "py_int ''1'' = Some 1" and ten: "py_int ''10'' = Some 10" by code_simp+
  have big: "py_int ''9223372036854775808'' = Some 9223372036854775808"
    by (simp add: py_int_def strip_def is_space_def is_digit_def digits_value_def)
  have n: "lower ''n'' \<noteq> ''y''" by code_simp
  have ta: "?t \<noteq> []" and c: "''c'' \<noteq> []" and u: "?u \<noteq> []"
    and dune: "''Dune'' \<noteq> []" and fh: "''Frank Herbert'' \<noteq> []"
    by simp_all
  have ia: "insert_book ?t ''c'' 1 (db ?Wa) = Inr ?Da"
    by (simp add: insert_book_def int64_def MAX_ROWID_def largest_rowid_def)
  have la: "stdin ?Wa = ?t # ''c'' # ''1'' # ''n'' # []" by simp
  from add_books_once [OF la ta c one ia n]
  have a12: "fst (add_books ?Wa) = Inr () \<and> db (snd (add_books ?Wa)) = ?Da"
    by auto
  have a3: "sublist ''b'' ?t"
    by code_simp
  have a4: "find_matching_books (''%'' @ ''b'' @ ''%'') ?Da = Inr []"
    by code_simp
  have lq: "stdin \<lparr>stdin = [''b'', ''n''], stdout = [], db = ?Da\<rparr> = ''b'' # ''n'' # []"
    by simp
  have a4': "find_matching_books (''%'' @ ''b'' @ ''%'')
               (db \<lparr>stdin = [''b'', ''n''], stdout = [], db = ?Da\<rparr>) = Inr []"
    using a4 by simp
  have a5: "fst (query_for_books \<lparr>stdin = [''b'', ''n''], stdout = [], db = ?Da\<rparr>) = Inr []"
    by (simp only: query_for_books_declined [OF lq a4' n] fst_conv)
  have ib: "insert_book ?u ''c'' 1 (db ?Wb) = Inr ?Db"
    by (simp add: insert_book_def int64_def MAX_ROWID_def largest_rowid_def)
  have lb: "stdin ?Wb = ?u # ''c'' # ''1'' # ''n'' # []" by simp
  from add_books_once [OF lb u c one ib n]
  have b12: "fst (add_books ?Wb) = Inr () \<and> db (snd (add_books ?Wb)) = ?Db"
    by auto
  have "utf8_length (''%'' @ ?u @ ''%'') = 50001"
    by (simp only: utf8_length_wrap) (simp add: utf8_length_replicate_ascii)
  then have b3: "find_matching_books (''%'' @ ?u @ ''%'') ?Db = Inl OperationalError"
    by (intro find_matching_books_too_long) (simp_all add: MAX_LIKE_PATTERN_LENGTH_def)
  have lr: "stdin \<lparr>stdin = [?u], stdout = [], db = ?Db\<rparr> = ?u # []"
    by simp
  have b3': "find_matching_books (''%'' @ ?u @ ''%'')
               (db \<lparr>stdin = [?u], stdout = [], db = ?Db\<rparr>) = Inl OperationalError"
    using b3 by simp
  have b4: "fst (query_for_books \<lparr>stdin = [?u], stdout = [], db = ?Db\<rparr>)
            = Inl OperationalError"
    by (simp only: query_for_books_refused [OF lr b3'] fst_conv)
  have ic: "insert_book ''Dune'' ''Frank Herbert'' 9223372036854775808 (db ?Wc)
            = Inl OverflowError"
    by (simp add: insert_book_def int64_def)
  have lc: "stdin ?Wc = ''Dune'' # ''Frank Herbert'' # ''9223372036854775808'' # [''n'']"
    by simp
  from add_books_refused [OF lc dune fh big ic]
  have c1: "fst (add_books ?Wc) = Inl OverflowError" by auto
  have id: "insert_book ''Dune'' ''Frank Herbert'' 10 (db ?Wd) = Inl OperationalError"
    by (simp add: insert_book_def int64_def MAX_ROWID_def largest_rowid_def)
  have ld: "stdin ?Wd = ''Dune'' # ''Frank Herbert'' # ''10'' # [''n'']"
    by simp
  from add_books_refused [OF ld dune fh ten id]
  have d1: "fst (add_books ?Wd) = Inl OperationalError" by auto
  from a12 a3 a4 a5 b12 b3 b4 c1 d1 show ?thesis
    by (intro conjI) (erule conjunct1 conjunct2 | assumption)+
qed

text \<open>
  C2 (as amended). On a well-formed table (\<open>table_ok\<close>: distinct ids), let the update
  workflow select the record \<open>book\<close> (its query step returns \<open>matches\<close>, its selection
  step \<open>book\<close>) and read the new title, the new author and the new quantity, where a
  blank (empty) line means that the field is kept. The record is one of the table. If the
  quantity entered fits the engine's signed 64-bit \<open>INTEGER\<close>, the workflow writes the
  merged record: the id of \<open>book\<close>, the new title if it is not blank and the old one
  otherwise, likewise the author, and the quantity entered if one was entered and the
  old one otherwise. Afterwards the selection of the rows with that id returns exactly
  the merged record, and the rows with any other id are as they were.
\<close>

theorem update_book_merges:
  assumes ok: "table_ok (db w)"
    and q: "query_for_books
              (print ''Search for the book to be updated'' (print ''-- Update --'' w))
            = (Inr matches, w1)"
    and s: "select_book_from_list matches w1 = (Inr book, w2)"
    and t: "input ''Enter the new title, or blank to skip: '' w2 = (Inr new_title, w3)"
    and a: "input ''Enter the new author, or blank to skip: '' w3 = (Inr new_author, w4)"
    and n: "input_integer_or_none ''Enter the new stock level, or blank to skip: '' w4
            = (Inr new_quantity, w5)"
    and r: "case new_quantity of None \<Rightarrow> True | Some k \<Rightarrow> int64 k"
    and m: "merged = \<lparr>book_id = book_id book,
                      title = (if new_title \<noteq> [] then new_title else title book),
                      author = (if new_author \<noteq> [] then new_author else author book),
                      quantity = (case new_quantity of Some k \<Rightarrow> k | None \<Rightarrow> quantity book)\<rparr>"
  shows "\<exists>w'. update_book w = (Inr (), w')
           \<and> book \<in> set (rows (db w))
           \<and> rows (db w') =
               map (\<lambda>r. if book_id r = book_id book then merged else r) (rows (db w))
           \<and> filter (\<lambda>r. book_id r = book_id book) (rows (db w')) = [merged]
           \<and> (\<forall>j. j \<noteq> book_id book \<longrightarrow>
                  filter (\<lambda>r. book_id r = j) (rows (db w'))
                  = filter (\<lambda>r. book_id r = j) (rows (db w)))"
proof -
  from query_for_books_effect [OF q] have d1: "db w1 = db w"
    and m1: "set matches \<subseteq> set (rows (db w))" by simp_all
  from select_book_from_list_effect [OF s] have d2: "db w2 = db w1"
    and m2: "book \<in> set matches" by simp_all
  from input_effect [OF t] have d3: "db w3 = db w2" by simp
  from input_effect [OF a] have d4: "db w4 = db w3" by simp
  from input_integer_or_none_effect [OF n] have d5: "db w5 = db w4" by simp
  from d1 d2 d3 d4 d5 have d: "db w5 = db w" by simp
  from m1 m2 have book: "book \<in> set (rows (db w))" by auto
  with ok have b64: "int64 (book_id book)" "int64 (quantity book)"
    and dist: "distinct (map book_id (rows (db w)))"
    by (auto simp: table_ok_def list_all_iff)
  have q64: "int64 (quantity merged)"
    using r b64 by (cases new_quantity) (simp_all add: m)
  have id: "book_id merged = book_id book" by (simp add: m)
  let ?rows = "map (\<lambda>r. if book_id r = book_id book then merged else r) (rows (db w))"
  let ?w' = "print [] (print ''Updated.'' (w5\<lparr>db := (db w)\<lparr>rows := ?rows\<rparr>\<rparr>))"
  have u: "update_row merged (db w5) = Inr ((db w)\<lparr>rows := ?rows\<rparr>)"
    using q64 b64 id d by (simp add: update_row_def)
  have "update_book w = (Inr (), ?w')"
    using u by (simp add: update_book_def q s t a n m Let_def)
  moreover have "rows (db ?w') = ?rows" by simp
  moreover have "filter (\<lambda>r. book_id r = book_id book) ?rows = [merged]"
    using dist book id by (rule replace_by_id)
  moreover have "\<forall>j. j \<noteq> book_id book \<longrightarrow>
      filter (\<lambda>r. book_id r = j) ?rows = filter (\<lambda>r. book_id r = j) (rows (db w))"
    using id by (simp add: replace_keeps_others)
  ultimately show ?thesis using book
    by (intro exI [of _ ?w']) simp
qed

theorem update_book_merges_witness:
  "fst (update_book
          \<lparr>stdin = [''Alice'', ''1'', '''', ''L. Carroll'', ''5''], stdout = [],
           db = \<lparr>rows = [\<lparr>book_id = 3004, title = ''The Lord of the Rings'',
                            author = ''J. R. R. Tolkien'', quantity = 37\<rparr>,
                          \<lparr>book_id = 3005, title = ''Alice in Wonderland'',
                            author = ''Lewis Carroll'', quantity = 12\<rparr>],
                 seq = 3005\<rparr>\<rparr>) = Inr ()
   \<and> rows (db (snd (update_book
          \<lparr>stdin = [''Alice'', ''1'', '''', ''L. Carroll'', ''5''], stdout = [],
           db = \<lparr>rows = [\<lparr>book_id = 3004, title = ''The Lord of the Rings'',
                            author = ''J. R. R. Tolkien'', quantity = 37\<rparr>,
                          \<lparr>book_id = 3005, title = ''Alice in Wonderland'',
                            author = ''Lewis Carroll'', quantity = 12\<rparr>],
                 seq = 3005\<rparr>\<rparr>))) =
       [\<lparr>book_id = 3004, title = ''The Lord of the Rings'',
         author = ''J. R. R. Tolkien'', quantity = 37\<rparr>,
        \<lparr>book_id = 3005, title = ''Alice in Wonderland'',
         author = ''L. Carroll'', quantity = 5\<rparr>]"
proof -
  let ?lotr = "\<lparr>book_id = 3004, title = ''The Lord of the Rings'',
                author = ''J. R. R. Tolkien'', quantity = 37\<rparr>"
  let ?alice = "\<lparr>book_id = 3005, title = ''Alice in Wonderland'',
                 author = ''Lewis Carroll'', quantity = 12\<rparr>"
  let ?D = "\<lparr>rows = [?lotr, ?alice], seq = 3005\<rparr>"
  let ?W = "\<lparr>stdin = [''Alice'', ''1'', '''', ''L. Carroll'', ''5''], stdout = [], db = ?D\<rparr>"
  have l: "stdin ?W = ''Alice'' # ''1'' # [] # ''L. Carroll'' # ''5'' # []" by simp
  have f: "find_matching_books (''%'' @ ''Alice'' @ ''%'') (db ?W) = Inr [?alice]" by code_simp
  have k: "py_int ''1'' = Some 1" and v: "py_int ''5'' = Some 5" by code_simp+
  have nl: "''5'' = [] \<and> Some 5 = None
            \<or> ''5'' \<noteq> [] \<and> py_int ''5'' = Some 5 \<and> Some (5 :: int) = Some 5"
    using v by simp
  have ok: "table_ok (db ?W)" by (simp add: table_ok_def int64_def)
  have r: "case Some (5 :: int) of None \<Rightarrow> True | Some k \<Rightarrow> int64 k"
    by (simp add: int64_def)
  from update_book_inputs [OF l f _ k _ _ nl] obtain w1 w2 w3 w4 w5 where
    q: "query_for_books (print ''Search for the book to be updated'' (print ''-- Update --'' ?W))
       = (Inr [?alice], w1)"
    and s: "select_book_from_list [?alice] w1 = (Inr ?alice, w2)"
    and t: "input ''Enter the new title, or blank to skip: '' w2 = (Inr [], w3)"
    and a: "input ''Enter the new author, or blank to skip: '' w3 = (Inr ''L. Carroll'', w4)"
    and n: "input_integer_or_none ''Enter the new stock level, or blank to skip: '' w4
       = (Inr (Some 5), w5)"
    by auto
  from update_book_merges [OF ok q s t a n r refl] obtain w' where
    "update_book ?W = (Inr (), w')"
    "rows (db w') = [?lotr, \<lparr>book_id = 3005, title = ''Alice in Wonderland'',
                              author = ''L. Carroll'', quantity = 5\<rparr>]"
    by auto
  then show ?thesis by simp
qed

text \<open>
  The claim as stated fails for a quantity the engine cannot store: with the new
  quantity \<open>9223372036854775808\<close> (\<open>2^63\<close>), which \<open>int\<close> reads, the binding of the
  \<open>UPDATE\<close> statement raises \<open>OverflowError\<close> and the table is left unchanged.
\<close>

theorem update_book_overflow_counterexample:
  "fst (update_book
          \<lparr>stdin = [''Alice'', ''1'', '''', '''', ''9223372036854775808''], stdout = [],
           db = \<lparr>rows = [\<lparr>book_id = 3005, title = ''Alice in Wonderland'',
                            author = ''Lewis Carroll'', quantity = 12\<rparr>],
                 seq = 3005\<rparr>\<rparr>) = Inl OverflowError
   \<and> db (snd (update_book
          \<lparr>stdin = [''Alice'', ''1'', '''', '''', ''9223372036854775808''], stdout = [],
           db = \<lparr>rows = [\<lparr>book_id = 3005, title = ''Alice in Wonderland'',
                            author = ''Lewis Carroll'', quantity = 12\<rparr>],
                 seq = 3005\<rparr>\<rparr>)) =
       \<lparr>rows = [\<lparr>book_id = 3005, title = ''Alice in Wonderland'',
                  author = ''Lewis Carroll'', quantity = 12\<rparr>],
        seq = 3005\<rparr>
   \<and> py_int ''9223372036854775808'' = Some 9223372036854775808"
proof -
  let ?alice = "\<lparr>book_id = 3005, title = ''Alice in Wonderland'',
                 author = ''Lewis Carroll'', quantity = 12\<rparr>"
  let ?D = "\<lparr>rows = [?alice], seq = 3005\<rparr>"
  let ?W = "\<lparr>stdin = [''Alice'', ''1'', '''', '''', ''9223372036854775808''], stdout = [],
             db = ?D\<rparr>"
  have l: "stdin ?W = ''Alice'' # ''1'' # [] # [] # ''9223372036854775808'' # []" by simp
  have f: "find_matching_books (''%'' @ ''Alice'' @ ''%'') (db ?W) = Inr [?alice]" by code_simp
  have k: "py_int ''1'' = Some 1" by code_simp
  have v: "py_int ''9223372036854775808'' = Some 9223372036854775808"
    by (simp add: py_int_def strip_def is_space_def is_digit_def digits_value_def)
  have nl: "''9223372036854775808'' = [] \<and> Some 9223372036854775808 = None
            \<or> ''9223372036854775808'' \<noteq> []
              \<and> py_int ''9223372036854775808'' = Some 9223372036854775808
              \<and> Some (9223372036854775808 :: int) = Some 9223372036854775808"
    using v by simp
  from update_book_inputs [OF l f _ k _ _ nl] obtain w1 w2 w3 w4 w5 where
    "query_for_books (print ''Search for the book to be updated'' (print ''-- Update --'' ?W))
       = (Inr [?alice], w1)"
    "select_book_from_list [?alice] w1 = (Inr ([?alice] ! nat (1 - 1)), w2)"
    "input ''Enter the new title, or blank to skip: '' w2 = (Inr [], w3)"
    "input ''Enter the new author, or blank to skip: '' w3 = (Inr [], w4)"
    "input_integer_or_none ''Enter the new stock level, or blank to skip: '' w4
       = (Inr (Some 9223372036854775808), w5)"
    "db w5 = db ?W"
    by auto
  then have "update_book ?W = (Inl OverflowError, w5)" "db w5 = ?D"
    by (simp_all add: update_book_def update_row_def int64_def)
  with v show ?thesis by simp
qed

text \<open>
  C3. The delete workflow, on a well-formed table, once its query step has returned
  \<open>matches\<close> and its selection step the record \<open>book\<close>: the record is one of the table,
  the \<open>DELETE\<close> statement is run with its id and raises no error, and the workflow ends
  normally. Afterwards the table holds the rows whose id is not that of \<open>book\<close>, as they
  were and in their order: the selection of the rows with that id is empty, no
  \<open>find_matching_books\<close> result holds a record with that id, and the rows with any other
  id are as they were. The statement run on an id that no row has changes nothing and
  raises no error: so it is for the same id run once more on the new table, and for
  every id of the key's type on every table.
\<close>

theorem delete_book_removes:
  assumes ok: "table_ok (db w)"
    and q: "query_for_books
              (print ''Search for the book to be deleted'' (print ''-- Delete --'' w))
            = (Inr matches, w1)"
    and s: "select_book_from_list matches w1 = (Inr book, w2)"
  shows "\<exists>w'. delete_book w = (Inr (), w')
           \<and> book \<in> set (rows (db w))
           \<and> delete_row (book_id book) (db w) = Inr (db w')
           \<and> rows (db w') = filter (\<lambda>r. book_id r \<noteq> book_id book) (rows (db w))
           \<and> filter (\<lambda>r. book_id r = book_id book) (rows (db w')) = []
           \<and> (\<forall>p ms. find_matching_books p (db w') = Inr ms \<longrightarrow>
                  (\<forall>b \<in> set ms. book_id b \<noteq> book_id book))
           \<and> (\<forall>j. j \<noteq> book_id book \<longrightarrow>
                  filter (\<lambda>r. book_id r = j) (rows (db w'))
                  = filter (\<lambda>r. book_id r = j) (rows (db w)))
           \<and> delete_row (book_id book) (db w') = Inr (db w')
           \<and> (\<forall>i d. int64 i \<and> i \<notin> set (map book_id (rows d)) \<longrightarrow> delete_row i d = Inr d)"
proof -
  from query_for_books_effect [OF q] have d1: "db w1 = db w"
    and m1: "set matches \<subseteq> set (rows (db w))" by simp_all
  from select_book_from_list_effect [OF s] have d2: "db w2 = db w1"
    and m2: "book \<in> set matches" by simp_all
  from d1 d2 have d: "db w2 = db w" by simp
  from m1 m2 have book: "book \<in> set (rows (db w))" by auto
  with ok have b64: "int64 (book_id book)"
    by (auto simp: table_ok_def list_all_iff)
  let ?rows = "filter (\<lambda>r. book_id r \<noteq> book_id book) (rows (db w))"
  let ?d' = "(db w)\<lparr>rows := ?rows\<rparr>"
  let ?w' = "print [] (print ''Deleted.'' (w2\<lparr>db := ?d'\<rparr>))"
  have del: "delete_row (book_id book) (db w) = Inr ?d'"
    using b64 by (simp add: delete_row_def)
  have 1: "delete_book w = (Inr (), ?w')"
    using del d by (simp add: delete_book_def q s)
  have 2: "delete_row (book_id book) (db w) = Inr (db ?w')"
    using del by simp
  have 3: "rows (db ?w') = ?rows" by simp
  have 4: "filter (\<lambda>r. book_id r = book_id book) (rows (db ?w')) = []"
    by (simp add: filter_empty_conv)
  have 5: "\<forall>p ms. find_matching_books p (db ?w') = Inr ms \<longrightarrow>
             (\<forall>b \<in> set ms. book_id b \<noteq> book_id book)"
  proof (intro allI impI ballI)
    fix p ms b
    assume "find_matching_books p (db ?w') = Inr ms" "b \<in> set ms"
    with find_matching_books_rows [of p "db ?w'" ms] have "b \<in> set (rows (db ?w'))"
      by blast
    then show "book_id b \<noteq> book_id book" by simp
  qed
  have 6: "\<forall>j. j \<noteq> book_id book \<longrightarrow>
             filter (\<lambda>r. book_id r = j) (rows (db ?w'))
             = filter (\<lambda>r. book_id r = j) (rows (db w))"
    by (auto intro: filter_cong)
  have 7: "delete_row (book_id book) (db ?w') = Inr (db ?w')"
    using b64 by (simp add: delete_row_def)
  have 8: "\<forall>i d. int64 i \<and> i \<notin> set (map book_id (rows d)) \<longrightarrow> delete_row i d = Inr d"
  proof (intro allI impI)
    fix i :: int and d :: database
    assume a: "int64 i \<and> i \<notin> set (map book_id (rows d))"
    then have "filter (\<lambda>r. book_id r \<noteq> i) (rows d) = rows d"
      by (auto simp: filter_id_conv)
    with a show "delete_row i d = Inr d" by (simp add: delete_row_def)
  qed
  from 1 book 2 3 4 5 6 7 8 show ?thesis
    by (intro exI [of _ ?w'] conjI)
qed

theorem delete_book_removes_witness:
  "fst (delete_book
          \<lparr>stdin = [''Dune'', ''1''], stdout = [],
           db = \<lparr>rows = [\<lparr>book_id = 1, title = ''Emma'', author = ''Austen'', quantity = 3\<rparr>,
                          \<lparr>book_id = 2, title = ''Dune'', author = ''Herbert'', quantity = 10\<rparr>],
                 seq = 2\<rparr>\<rparr>) = Inr ()
   \<and> db (snd (delete_book
          \<lparr>stdin = [''Dune'', ''1''], stdout = [],
           db = \<lparr>rows = [\<lparr>book_id = 1, title = ''Emma'', author = ''Austen'', quantity = 3\<rparr>,
                          \<lparr>book_id = 2, title = ''Dune'', author = ''Herbert'', quantity = 10\<rparr>],
                 seq = 2\<rparr>\<rparr>))
     = \<lparr>rows = [\<lparr>book_id = 1, title = ''Emma'', author = ''Austen'', quantity = 3\<rparr>], seq = 2\<rparr>
   \<and> delete_row 2 \<lparr>rows = [\<lparr>book_id = 1, title = ''Emma'', author = ''Austen'', quantity = 3\<rparr>],
                     seq = 2\<rparr>
     = Inr \<lparr>rows = [\<lparr>book_id = 1, title = ''Emma'', author = ''Austen'', quantity = 3\<rparr>],
            seq = 2\<rparr>
   \<and> delete_row 7 \<lparr>rows = [\<lparr>book_id = 1, title = ''Emma'', author = ''Austen'', quantity = 3\<rparr>],
                     seq = 2\<rparr>
     = Inr \<lparr>rows = [\<lparr>book_id = 1, title = ''Emma'', author = ''Austen'', quantity = 3\<rparr>],
            seq = 2\<rparr>"
proof -
  let ?emma = "\<lparr>book_id = 1, title = ''Emma'', author = ''Austen'', quantity = 3\<rparr>"
  let ?dune = "\<lparr>book_id = 2, title = ''Dune'', author = ''Herbert'', quantity = 10\<rparr>"
  let ?W = "\<lparr>stdin = [''Dune'', ''1''], stdout = [], db = \<lparr>rows = [?emma, ?dune], seq = 2\<rparr>\<rparr>"
  let ?w0 = "print ''Search for the book to be deleted'' (print ''-- Delete --'' ?W)"
  have ok: "table_ok (db ?W)" by (simp add: table_ok_def int64_def)
  have l: "stdin ?w0 = ''Dune'' # ''1'' # []" by simp
  have f: "find_matching_books (''%'' @ ''Dune'' @ ''%'') (db ?w0) = Inr [?dune]" by code_simp
  have k: "py_int ''1'' = Some 1" by code_simp
  have ne: "[?dune] \<noteq> []" and k1: "(1::int) \<le> 1" and k2: "1 \<le> int (length [?dune])"
    by simp_all
  from query_and_select [OF l f ne k k1 k2] obtain w1 w2 where
    q: "query_for_books ?w0 = (Inr [?dune], w1)"
    and s: "select_book_from_list [?dune] w1 = (Inr ([?dune] ! nat (1 - 1)), w2)"
    by blast
  from s have s': "select_book_from_list [?dune] w1 = (Inr ?dune, w2)" by simp
  from delete_book_removes [OF ok q s'] obtain w' where
    w': "delete_book ?W = (Inr (), w')"
      "delete_row (book_id ?dune) (db ?W) = Inr (db w')"
      "delete_row (book_id ?dune) (db w') = Inr (db w')"
      "\<forall>i d. int64 i \<and> i \<notin> set (map book_id (rows d)) \<longrightarrow> delete_row i d = Inr d"
    by blast
  from w'(2) have d: "db w' = \<lparr>rows = [?emma], seq = 2\<rparr>"
    by (simp add: delete_row_def int64_def)
  from w'(3) have 2: "delete_row 2 \<lparr>rows = [?emma], seq = 2\<rparr> = Inr \<lparr>rows = [?emma], seq = 2\<rparr>"
    unfolding d by simp
  have "int64 7 \<and> 7 \<notin> set (map book_id (rows \<lparr>rows = [?emma], seq = 2\<rparr>))"
    by (simp add: int64_def)
  with w'(4) have 7: "delete_row 7 \<lparr>rows = [?emma], seq = 2\<rparr> = Inr \<lparr>rows = [?emma], seq = 2\<rparr>"
    by blast
  from w'(1) d 2 7 show ?thesis by simp
qed

text \<open>
  C4. On the first run, when the database file does not exist, initialisation creates the
  table and seeds it: exactly five records exist, with the ids 3001 to 3005 and the
  literal titles, authors and quantities of the source. When the file exists already,
  initialisation seeds nothing and the table is the one the file holds.
\<close>

theorem initialise_database_seed:
  "initialise_database None =
     Inr \<lparr>rows =
            [\<lparr>book_id = 3001, title = ''A Tale of Two Cities'',
              author = ''Charles Dickens'', quantity = 30\<rparr>,
             \<lparr>book_id = 3002,
              title = ''Harry Potter and the Philosopher'' @ CHR 0x27 # ''s Stone'',
              author = ''J. K. Rowling'', quantity = 40\<rparr>,
             \<lparr>book_id = 3003, title = ''The Lion, the Witch, and the Warderobe'',
              author = ''C. S. Lewis'', quantity = 25\<rparr>,
             \<lparr>book_id = 3004, title = ''The Lord of the Rings'',
              author = ''J. R. R. Tolkien'', quantity = 37\<rparr>,
             \<lparr>book_id = 3005, title = ''Alice in Wonderland'',
              author = ''Lewis Carroll'', quantity = 12\<rparr>],
          seq = 3005\<rparr>
   \<and> (\<forall>d. initialise_database (Some d) = Inr d)"
  by (simp add: initialise_database_def initial_data_def insert_row_def int64_def)

text \<open>
  C5. When the selection step has displayed the list and the user enters the integer
  \<open>k\<close>, the entry is accepted if and only if \<open>1 \<le> k \<le> N\<close>, where \<open>N\<close> is the length of
  the list: then the step returns the \<open>k\<close>-th book, which is the book shown in the row
  numbered \<open>k\<close> of the displayed table. Every other integer (0, a negative one, \<open>N + 1\<close>)
  is answered with the message that names it, and the step prompts again.
\<close>

theorem select_book_from_list_choice:
  assumes "input_integer ''Enter the number of the book to update: ''
             (print [] (print_table (table_rows books) w)) = (Inr k, w1)"
  shows "select_book_from_list books w =
           (if 1 \<le> k \<and> k \<le> int (length books) then (Inr (books ! nat (k - 1)), w1)
            else select_book_from_list_loop books
                   (print (CHR 0x27 # str_int k @ CHR 0x27 #
                             '' is not a valid choice, out of range.'') w1))
       \<and> (1 \<le> k \<and> k \<le> int (length books) \<longrightarrow>
            table_rows books ! nat k =
              [Number k, Text (title (books ! nat (k - 1))),
               Text (author (books ! nat (k - 1))), Number (quantity (books ! nat (k - 1)))])"
proof
  show "select_book_from_list books w =
           (if 1 \<le> k \<and> k \<le> int (length books) then (Inr (books ! nat (k - 1)), w1)
            else select_book_from_list_loop books
                   (print (CHR 0x27 # str_int k @ CHR 0x27 #
                             '' is not a valid choice, out of range.'') w1))"
  proof (cases "1 \<le> k \<and> k \<le> int (length books)")
    case True
    then have "getitem books (k - 1) = Inr (books ! nat (k - 1))"
      by (simp add: getitem_in_range)
    with True assms show ?thesis
      unfolding select_book_from_list_def
      by (subst select_book_from_list_loop.simps) (simp add: Let_def)
  next
    case False
    with assms show ?thesis
      unfolding select_book_from_list_def
      by (subst select_book_from_list_loop.simps) (auto simp: Let_def out_of_range_def)
  qed
next
  show "1 \<le> k \<and> k \<le> int (length books) \<longrightarrow>
            table_rows books ! nat k =
              [Number k, Text (title (books ! nat (k - 1))),
               Text (author (books ! nat (k - 1))), Number (quantity (books ! nat (k - 1)))]"
  proof
    assume k: "1 \<le> k \<and> k \<le> int (length books)"
    define n where "n = nat (k - 1)"
    from k have n: "nat k = Suc n" "n < length books" "nat (k - 1) = n" "k = int n + 1"
      unfolding n_def by arith+
    then show "table_rows books ! nat k =
              [Number k, Text (title (books ! nat (k - 1))),
               Text (author (books ! nat (k - 1))), Number (quantity (books ! nat (k - 1)))]"
      by (simp add: table_rows_def nth_enumerate_eq)
  qed
qed

theorem select_book_from_list_choice_witness:
  "select_book_from_list
     [\<lparr>book_id = 3001, title = ''Emma'', author = ''Austen'', quantity = 3\<rparr>,
      \<lparr>book_id = 3002, title = ''Dune'', author = ''Herbert'', quantity = 10\<rparr>]
     \<lparr>stdin = [''2''], stdout = [], db = \<lparr>rows = [], seq = 0\<rparr>\<rparr>
   = (Inr \<lparr>book_id = 3002, title = ''Dune'', author = ''Herbert'', quantity = 10\<rparr>,
      \<lparr>stdin = [],
       stdout = [Tabulate [[Text ''#'', Text ''Title'', Text ''Author'', Text ''Stock Level''],
                           [Number 1, Text ''Emma'', Text ''Austen'', Number 3],
                           [Number 2, Text ''Dune'', Text ''Herbert'', Number 10]],
                 Print [],
                 Prompt ''Enter the number of the book to update: ''],
       db = \<lparr>rows = [], seq = 0\<rparr>\<rparr>)
   \<and> select_book_from_list
     [\<lparr>book_id = 3001, title = ''Emma'', author = ''Austen'', quantity = 3\<rparr>,
      \<lparr>book_id = 3002, title = ''Dune'', author = ''Herbert'', quantity = 10\<rparr>]
     \<lparr>stdin = [''3''], stdout = [], db = \<lparr>rows = [], seq = 0\<rparr>\<rparr>
   = (Inl EOFError,
      \<lparr>stdin = [],
       stdout = [Tabulate [[Text ''#'', Text ''Title'', Text ''Author'', Text ''Stock Level''],
                           [Number 1, Text ''Emma'', Text ''Austen'', Number 3],
                           [Number 2, Text ''Dune'', Text ''Herbert'', Number 10]],
                 Print [],
                 Prompt ''Enter the number of the book to update: '',
                 Print (CHR 0x27 # ''3'' @ CHR 0x27 # '' is not a valid choice, out of range.''),
                 Prompt ''Enter the number of the book to update: ''],
       db = \<lparr>rows = [], seq = 0\<rparr>\<rparr>)"
proof -
  let ?B = "[\<lparr>book_id = 3001, title = ''Emma'', author = ''Austen'', quantity = 3\<rparr>,
      \<lparr>book_id = 3002, title = ''Dune'', author = ''Herbert'', quantity = 10\<rparr>]"
  let ?T = "[Tabulate [[Text ''#'', Text ''Title'', Text ''Author'', Text ''Stock Level''],
                           [Number 1, Text ''Emma'', Text ''Austen'', Number 3],
                           [Number 2, Text ''Dune'', Text ''Herbert'', Number 10]],
                 Print [],
                 Prompt ''Enter the number of the book to update: '']"
  let ?D = "\<lparr>rows = [], seq = 0\<rparr>"
  have t: "table_rows ?B = [[Text ''#'', Text ''Title'', Text ''Author'', Text ''Stock Level''],
                           [Number 1, Text ''Emma'', Text ''Austen'', Number 3],
                           [Number 2, Text ''Dune'', Text ''Herbert'', Number 10]]"
    by (simp add: table_rows_def enumerate_eq_zip upt_rec)
  have p2: "py_int ''2'' = Some 2" and p3: "py_int ''3'' = Some 3" by code_simp+
  have s3: "str_int 3 = ''3''" by code_simp
  have h2: "input_integer ''Enter the number of the book to update: ''
             (print [] (print_table (table_rows ?B) \<lparr>stdin = [''2''], stdout = [], db = ?D\<rparr>))
            = (Inr 2, \<lparr>stdin = [], stdout = ?T, db = ?D\<rparr>)"
    by (subst input_integer_Cons [where l = "''2''" and ls = "[]" and v = 2])
      (simp_all add: p2 t print_def print_table_def)
  have h3: "input_integer ''Enter the number of the book to update: ''
             (print [] (print_table (table_rows ?B) \<lparr>stdin = [''3''], stdout = [], db = ?D\<rparr>))
            = (Inr 3, \<lparr>stdin = [], stdout = ?T, db = ?D\<rparr>)"
    by (subst input_integer_Cons [where l = "''3''" and ls = "[]" and v = 3])
      (simp_all add: p3 t print_def print_table_def)
  have e: "select_book_from_list_loop ?B
             (print (CHR 0x27 # str_int 3 @ CHR 0x27 # '' is not a valid choice, out of range.'')
                \<lparr>stdin = [], stdout = ?T, db = ?D\<rparr>)
           = (Inl EOFError,
              \<lparr>stdin = [],
               stdout = ?T @
                 [Print (CHR 0x27 # ''3'' @ CHR 0x27 # '' is not a valid choice, out of range.''),
                  Prompt ''Enter the number of the book to update: ''],
               db = ?D\<rparr>)"
    by (subst select_book_from_list_loop.simps, subst input_integer.simps)
      (simp add: input_def print_def s3)
  from select_book_from_list_choice [OF h2] select_book_from_list_choice [OF h3] e
  show ?thesis by simp
qed

text \<open>
  C6 (as amended). For every query \<open>q\<close> in which none of \<open>%\<close>, \<open>_\<close> and the NUL character
  occurs and that makes a pattern \<open>%q%\<close> of at most 50000 bytes, the search wraps \<open>q\<close> in a
  leading and a trailing \<open>%\<close> and finds exactly the records whose title or whose author,
  read up to its first NUL character, contains \<open>q\<close> as a substring anywhere, ASCII
  letters compared without regard to case; the search workflow prints their number and,
  when there are any, the table of these records in the order of the table.
\<close>

theorem search_books_substring:
  assumes "stdin w = q # rest"
    and "CHR ''%'' \<notin> set q" and "CHR ''_'' \<notin> set q" and "CHR 0x00 \<notin> set q"
    and "utf8_length q + 2 \<le> MAX_LIKE_PATTERN_LENGTH"
    and "ms = filter (\<lambda>b. sublist (map like_fold q) (map like_fold (c_text (title b)))
                          \<or> sublist (map like_fold q) (map like_fold (c_text (author b))))
                     (rows (db w))"
  shows "find_matching_books (''%'' @ q @ ''%'') (db w) = Inr ms
       \<and> search_books w =
           (Inr (),
            w\<lparr>stdin := rest,
              stdout := stdout w @
                [Print ''-- Search --'', Prompt ''Query (title or author): '', Print [],
                 Print (str_int (int (length ms)) @ '' result(s)''), Print []] @
                (if ms = [] then []
                 else [Tabulate
                         ([Text ''Title'', Text ''Author'', Text ''Stock Level''] #
                          map (\<lambda>book. [Text (title book), Text (author book),
                                        Number (quantity book)]) ms),
                       Print []])\<rparr>)"
proof -
  have f: "find_matching_books (''%'' @ q @ ''%'') (db w) = Inr ms"
    unfolding assms(6) by (rule find_matching_books_substring [OF assms(2-5)])
  from search_books_Cons [OF assms(1)] f show ?thesis
    by (simp only: sum.case)
qed

theorem search_books_substring_witness:
  "find_matching_books (''%'' @ ''Potter'' @ ''%'') \<lparr>rows = initial_data, seq = 3005\<rparr> =
     Inr [\<lparr>book_id = 3002,
           title = ''Harry Potter and the Philosopher'' @ CHR 0x27 # ''s Stone'',
           author = ''J. K. Rowling'', quantity = 40\<rparr>]
   \<and> search_books \<lparr>stdin = [''Potter''], stdout = [],
                    db = \<lparr>rows = initial_data, seq = 3005\<rparr>\<rparr> =
       (Inr (),
        \<lparr>stdin = [],
         stdout =
           [Print ''-- Search --'', Prompt ''Query (title or author): '', Print [],
            Print ''1 result(s)'', Print [],
            Tabulate [[Text ''Title'', Text ''Author'', Text ''Stock Level''],
                      [Text (''Harry Potter and the Philosopher'' @ CHR 0x27 # ''s Stone''),
                       Text ''J. K. Rowling'', Number 40]],
            Print []],
         db = \<lparr>rows = initial_data, seq = 3005\<rparr>\<rparr>)"
proof -
  let ?D = "\<lparr>rows = initial_data, seq = 3005\<rparr>"
  let ?W = "\<lparr>stdin = [''Potter''], stdout = [], db = ?D\<rparr>"
  let ?hp = "\<lparr>book_id = 3002,
       title = ''Harry Potter and the Philosopher'' @ CHR 0x27 # ''s Stone'',
       author = ''J. K. Rowling'', quantity = 40\<rparr>"
  have h1: "stdin ?W = ''Potter'' # []" by simp
  have h2: "CHR ''%'' \<notin> set ''Potter''" and h3: "CHR ''_'' \<notin> set ''Potter''"
    and h4: "CHR 0x00 \<notin> set ''Potter''" by simp_all
  have h5: "utf8_length ''Potter'' + 2 \<le> MAX_LIKE_PATTERN_LENGTH"
    by (simp add: utf8_length_def MAX_LIKE_PATTERN_LENGTH_def)
  have "filter (\<lambda>b. sublist (map like_fold ''Potter'') (map like_fold (c_text (title b)))
                     \<or> sublist (map like_fold ''Potter'') (map like_fold (c_text (author b))))
               initial_data = [?hp]"
    by code_simp
  then have h6: "[?hp] =
      filter (\<lambda>b. sublist (map like_fold ''Potter'') (map like_fold (c_text (title b)))
                   \<or> sublist (map like_fold ''Potter'') (map like_fold (c_text (author b))))
             (rows (db ?W))"
    by simp
  have n: "str_int 1 = ''1''" by code_simp
  from search_books_substring [OF h1 h2 h3 h4 h5 h6] n show ?thesis
    by simp
qed

text \<open>
  The claim as stated says it of every query. The query \<open>_\<close> finds a record in whose
  title and author no underscore occurs. The query made of a NUL character and \<open>zzz\<close>
  finds that record too: the engine reads the pattern up to the NUL character, as \<open>%\<close>.
  The query of 49999 letters \<open>a\<close> makes a pattern that the engine refuses, and the
  search workflow ends with \<open>OperationalError\<close>.
\<close>

theorem search_query_counterexample:
  "search_books \<lparr>stdin = [''_''], stdout = [],
                  db = \<lparr>rows = [\<lparr>book_id = 3001, title = ''A Tale of Two Cities'',
                                   author = ''Charles Dickens'', quantity = 30\<rparr>],
                        seq = 3005\<rparr>\<rparr> =
     (Inr (),
      \<lparr>stdin = [],
       stdout =
         [Print ''-- Search --'', Prompt ''Query (title or author): '', Print [],
          Print ''1 result(s)'', Print [],
          Tabulate [[Text ''Title'', Text ''Author'', Text ''Stock Level''],
                    [Text ''A Tale of Two Cities'', Text ''Charles Dickens'', Number 30]],
          Print []],
       db = \<lparr>rows = [\<lparr>book_id = 3001, title = ''A Tale of Two Cities'',
                        author = ''Charles Dickens'', quantity = 30\<rparr>],
             seq = 3005\<rparr>\<rparr>)
   \<and> \<not> sublist (map like_fold ''_'') (map like_fold ''A Tale of Two Cities'')
   \<and> \<not> sublist (map like_fold ''_'') (map like_fold ''Charles Dickens'')
   \<and> search_books \<lparr>stdin = [CHR 0x00 # ''zzz''], stdout = [],
                  db = \<lparr>rows = [\<lparr>book_id = 3001, title = ''A Tale of Two Cities'',
                                   author = ''Charles Dickens'', quantity = 30\<rparr>],
                        seq = 3005\<rparr>\<rparr> =
     (Inr (),
      \<lparr>stdin = [],
       stdout =
         [Print ''-- Search --'', Prompt ''Query (title or author): '', Print [],
          Print ''1 result(s)'', Print [],
          Tabulate [[Text ''Title'', Text ''Author'', Text ''Stock Level''],
                    [Text ''A Tale of Two Cities'', Text ''Charles Dickens'', Number 30]],
          Print []],
       db = \<lparr>rows = [\<lparr>book_id = 3001, title = ''A Tale of Two Cities'',
                        author = ''Charles Dickens'', quantity = 30\<rparr>],
             seq = 3005\<rparr>\<rparr>)
   \<and> \<not> sublist (map like_fold (CHR 0x00 # ''zzz'')) (map like_fold ''A Tale of Two Cities'')
   \<and> \<not> sublist (map like_fold (CHR 0x00 # ''zzz'')) (map like_fold ''Charles Dickens'')
   \<and> fst (search_books
            \<lparr>stdin = [replicate 49999 (CHR ''a'')], stdout = [],
             db = \<lparr>rows = [\<lparr>book_id = 3001, title = ''A Tale of Two Cities'',
                              author = ''Charles Dickens'', quantity = 30\<rparr>],
                   seq = 3005\<rparr>\<rparr>) = Inl OperationalError"
proof -
  let ?tale = "\<lparr>book_id = 3001, title = ''A Tale of Two Cities'',
                author = ''Charles Dickens'', quantity = 30\<rparr>"
  let ?D = "\<lparr>rows = [?tale], seq = 3005\<rparr>"
  let ?Wa = "\<lparr>stdin = [''_''], stdout = [], db = ?D\<rparr>"
  let ?Wb = "\<lparr>stdin = [CHR 0x00 # ''zzz''], stdout = [], db = ?D\<rparr>"
  let ?u = "replicate 49999 (CHR ''a'')"
  let ?Wc = "\<lparr>stdin = [?u], stdout = [], db = ?D\<rparr>"
  have n: "str_int 1 = ''1''" by code_simp
  have la: "stdin ?Wa = ''_'' # []" by simp
  have fa: "find_matching_books (''%'' @ ''_'' @ ''%'') (db ?Wa) = Inr [?tale]"
    by code_simp
  have a: "search_books ?Wa =
     (Inr (),
      \<lparr>stdin = [],
       stdout =
         [Print ''-- Search --'', Prompt ''Query (title or author): '', Print [],
          Print ''1 result(s)'', Print [],
          Tabulate [[Text ''Title'', Text ''Author'', Text ''Stock Level''],
                    [Text ''A Tale of Two Cities'', Text ''Charles Dickens'', Number 30]],
          Print []],
       db = ?D\<rparr>)"
    unfolding search_books_Cons [OF la] fa by (simp add: n)
  have a': "\<not> sublist (map like_fold ''_'') (map like_fold ''A Tale of Two Cities'')"
    "\<not> sublist (map like_fold ''_'') (map like_fold ''Charles Dickens'')"
    by code_simp+
  have lb: "stdin ?Wb = (CHR 0x00 # ''zzz'') # []" by simp
  have fb: "find_matching_books (''%'' @ (CHR 0x00 # ''zzz'') @ ''%'') (db ?Wb) = Inr [?tale]"
    by code_simp
  have b: "search_books ?Wb =
     (Inr (),
      \<lparr>stdin = [],
       stdout =
         [Print ''-- Search --'', Prompt ''Query (title or author): '', Print [],
          Print ''1 result(s)'', Print [],
          Tabulate [[Text ''Title'', Text ''Author'', Text ''Stock Level''],
                    [Text ''A Tale of Two Cities'', Text ''Charles Dickens'', Number 30]],
          Print []],
       db = ?D\<rparr>)"
    unfolding search_books_Cons [OF lb] fb by (simp add: n)
  have b': "\<not> sublist (map like_fold (CHR 0x00 # ''zzz'')) (map like_fold ''A Tale of Two Cities'')"
    "\<not> sublist (map like_fold (CHR 0x00 # ''zzz'')) (map like_fold ''Charles Dickens'')"
    by code_simp+
  have lc: "stdin ?Wc = ?u # []" by simp
  have "utf8_length (''%'' @ ?u @ ''%'') = 50001"
    by (simp only: utf8_length_wrap) (simp add: utf8_length_replicate_ascii)
  then have fc: "find_matching_books (''%'' @ ?u @ ''%'') (db ?Wc) = Inl OperationalError"
    by (intro find_matching_books_too_long) (simp_all add: MAX_LIKE_PATTERN_LENGTH_def)
  have c: "fst (search_books ?Wc) = Inl OperationalError"
    unfolding search_books_Cons [OF lc] fc by simp
  from a a' b b' c show ?thesis
    by (intro conjI)
qed

text \<open>
  C7 (as amended). For every run of the program, on every input and from a new or an
  existing file, every quantity in the table is an integer of the engine's signed
  64-bit range (when those of an existing file are). Non-negativity is not enforced:
  the add and the update workflow store the integer that is entered, negative or not.
  It is preserved under a condition on the input only: the seed quantities are
  non-negative, and when no line of the input is a negative integer (and the quantities
  of an existing file are non-negative), every quantity in the table is non-negative.
  The table in question is the one the program has when it returns or when an
  exception ends it, hence every table a run passes through.
\<close>

theorem quantities_invariant:
  assumes "program dbfile lines = (r, Some w')"
  shows "((case dbfile of None \<Rightarrow> True | Some d \<Rightarrow> quantities int64 d)
            \<longrightarrow> quantities int64 (db w'))
       \<and> ((case dbfile of None \<Rightarrow> True | Some d \<Rightarrow> quantities (\<lambda>k. 0 \<le> k) d)
            \<and> entries (\<lambda>k. 0 \<le> k) lines
            \<longrightarrow> quantities (\<lambda>k. 0 \<le> k) (db w'))"
proof (intro conjI impI)
  assume "case dbfile of None \<Rightarrow> True | Some d \<Rightarrow> quantities int64 d"
  moreover have "entries int64 lines"
    by (simp add: entries_def list_all_iff split: option.splits)
  ultimately show "quantities int64 (db w')"
    using assms by (intro program_quantities [of dbfile lines r w' int64]) (simp_all add: int64_def)
next
  assume "(case dbfile of None \<Rightarrow> True | Some d \<Rightarrow> quantities (\<lambda>k. 0 \<le> k) d)
            \<and> entries (\<lambda>k. 0 \<le> k) lines"
  then show "quantities (\<lambda>k. 0 \<le> k) (db w')"
    using assms by (intro program_quantities [of dbfile lines r w' "\<lambda>k. 0 \<le> k"]) simp_all
qed

theorem quantities_invariant_witness:
  "quantities int64
     (db (snd (main_menu \<lparr>stdin = [''1'', ''Dune'', ''Frank Herbert'', ''7'', ''n'', ''0''],
                           stdout = [], db = \<lparr>rows = initial_data, seq = 3005\<rparr>\<rparr>)))
   \<and> quantities (\<lambda>k. 0 \<le> k)
     (db (snd (main_menu \<lparr>stdin = [''1'', ''Dune'', ''Frank Herbert'', ''7'', ''n'', ''0''],
                           stdout = [], db = \<lparr>rows = initial_data, seq = 3005\<rparr>\<rparr>)))"
proof -
  let ?lines = "[''1'', ''Dune'', ''Frank Herbert'', ''7'', ''n'', ''0'']"
  let ?W = "\<lparr>stdin = ?lines, stdout = [], db = \<lparr>rows = initial_data, seq = 3005\<rparr>\<rparr>"
  have run: "program None ?lines = (fst (main_menu ?W), Some (snd (main_menu ?W)))"
    by (simp add: program_def initialise_database_None split: prod.splits)
  have e: "entries (\<lambda>k. 0 \<le> k) ?lines"
    by code_simp
  from quantities_invariant [OF run] e show ?thesis by simp
qed

text \<open>
  The claim as stated fails: the add workflow accepts the quantity \<open>-5\<close> and stores it.
\<close>

theorem negative_quantity_counterexample:
  "fst (add_books \<lparr>stdin = [''Dune'', ''Frank Herbert'', ''-5'', ''n''], stdout = [],
                     db = \<lparr>rows = [], seq = 3005\<rparr>\<rparr>) = Inr ()
   \<and> db (snd (add_books \<lparr>stdin = [''Dune'', ''Frank Herbert'', ''-5'', ''n''], stdout = [],
                          db = \<lparr>rows = [], seq = 3005\<rparr>\<rparr>)) =
       \<lparr>rows = [\<lparr>book_id = 3006, title = ''Dune'', author = ''Frank Herbert'',
                  quantity = - 5\<rparr>],
        seq = 3006\<rparr>"
proof -
  let ?W = "\<lparr>stdin = [''Dune'', ''Frank Herbert'', ''-5'', ''n''], stdout = [],
             db = \<lparr>rows = [], seq = 3005\<rparr>\<rparr>"
  let ?D' = "\<lparr>rows = [\<lparr>book_id = 3006, title = ''Dune'', author = ''Frank Herbert'',
                        quantity = - 5\<rparr>],
              seq = 3006\<rparr>"
  have l: "stdin ?W = ''Dune'' # ''Frank Herbert'' # ''-5'' # ''n'' # []" by simp
  have t: "''Dune'' \<noteq> []" and a: "''Frank Herbert'' \<noteq> []" by simp_all
  have q: "py_int ''-5'' = Some (- 5)" by code_simp
  have c: "lower ''n'' \<noteq> ''y''" by code_simp
  have ins: "insert_book ''Dune'' ''Frank Herbert'' (- 5) (db ?W) = Inr ?D'"
    by (simp add: insert_book_def int64_def MAX_ROWID_def largest_rowid_def)
  from add_books_once [OF l t a q ins c] obtain w' where
    "add_books ?W = (Inr (), w')" "db w' = ?D'"
    by blast
  then show ?thesis by simp
qed

text \<open>
  C8. The menu loop reads one line and lower-cases it; since no other line lower-cases
  to a digit, the dispatch is on the line itself: \<open>1\<close> runs the add workflow, \<open>2\<close>
  update, \<open>3\<close> delete, \<open>4\<close> search, each followed by the menu again when it returns
  (an exception of the workflow ends the loop), and \<open>0\<close> returns. Every other line
  prints the error and displays the menu again. When no line is left the
  loop ends with the \<open>EOFError\<close> of \<open>input\<close>. The loop returns only on the line \<open>0\<close>:
  whenever it returns, the last line it has read is exactly \<open>0\<close>.
\<close>

theorem main_menu_dispatch:
  "(stdin w = line # rest \<longrightarrow>
      main_menu w =
        (let w1 = (menu w)\<lparr>stdin := rest, stdout := stdout (menu w) @ [Prompt ''> '']\<rparr>
         in if line = ''1'' then
              (case add_books w1 of (Inl e, w2) \<Rightarrow> (Inl e, w2) | (Inr u, w2) \<Rightarrow> main_menu w2)
            else if line = ''2'' then
              (case update_book w1 of (Inl e, w2) \<Rightarrow> (Inl e, w2) | (Inr u, w2) \<Rightarrow> main_menu w2)
            else if line = ''3'' then
              (case delete_book w1 of (Inl e, w2) \<Rightarrow> (Inl e, w2) | (Inr u, w2) \<Rightarrow> main_menu w2)
            else if line = ''4'' then
              (case search_books w1 of (Inl e, w2) \<Rightarrow> (Inl e, w2) | (Inr u, w2) \<Rightarrow> main_menu w2)
            else if line = ''0'' then (Inr (), w1)
            else main_menu (print ''Invalid choice, please try again.'' w1)))
   \<and> (stdin w = [] \<longrightarrow>
        main_menu w = (Inl EOFError, (menu w)\<lparr>stdout := stdout (menu w) @ [Prompt ''> '']\<rparr>))
   \<and> (main_menu w = (Inr (), w') \<longrightarrow> (\<exists>pre. stdin w = pre @ ''0'' # stdin w'))"
proof (intro conjI impI)
  assume "stdin w = line # rest"
  then have "stdin (menu w) = line # rest" by (simp add: menu_def)
  from input_Cons [OF this, of "''> ''"] show "main_menu w =
        (let w1 = (menu w)\<lparr>stdin := rest, stdout := stdout (menu w) @ [Prompt ''> '']\<rparr>
         in if line = ''1'' then
              (case add_books w1 of (Inl e, w2) \<Rightarrow> (Inl e, w2) | (Inr u, w2) \<Rightarrow> main_menu w2)
            else if line = ''2'' then
              (case update_book w1 of (Inl e, w2) \<Rightarrow> (Inl e, w2) | (Inr u, w2) \<Rightarrow> main_menu w2)
            else if line = ''3'' then
              (case delete_book w1 of (Inl e, w2) \<Rightarrow> (Inl e, w2) | (Inr u, w2) \<Rightarrow> main_menu w2)
            else if line = ''4'' then
              (case search_books w1 of (Inl e, w2) \<Rightarrow> (Inl e, w2) | (Inr u, w2) \<Rightarrow> main_menu w2)
            else if line = ''0'' then (Inr (), w1)
            else main_menu (print ''Invalid choice, please try again.'' w1))"
    by (subst main_menu.simps) (simp add: Let_def lower_menu_choice)
next
  assume "stdin w = []"
  then have "stdin (menu w) = []" by (simp add: menu_def)
  from input_Nil [OF this, of "''> ''"]
  show "main_menu w = (Inl EOFError, (menu w)\<lparr>stdout := stdout (menu w) @ [Prompt ''> '']\<rparr>)"
    by (subst main_menu.simps) simp
next
  assume "main_menu w = (Inr (), w')"
  then show "\<exists>pre. stdin w = pre @ ''0'' # stdin w'"
    by (rule main_menu_returns)
qed

theorem main_menu_dispatch_witness:
  "main_menu \<lparr>stdin = [''x'', ''0''], stdout = [], db = \<lparr>rows = [], seq = 0\<rparr>\<rparr> =
     (Inr (),
      \<lparr>stdin = [],
       stdout = [Print ''Please choose an option:'', Print ''1. Enter book'',
                 Print ''2. Update book'', Print ''3. Delete book'', Print ''4. Search books'',
                 Print ''0. Exit'', Prompt ''> '',
                 Print ''Invalid choice, please try again.'',
                 Print ''Please choose an option:'', Print ''1. Enter book'',
                 Print ''2. Update book'', Print ''3. Delete book'', Print ''4. Search books'',
                 Print ''0. Exit'', Prompt ''> ''],
       db = \<lparr>rows = [], seq = 0\<rparr>\<rparr>)
   \<and> main_menu \<lparr>stdin = [], stdout = [], db = \<lparr>rows = [], seq = 0\<rparr>\<rparr> =
     (Inl EOFError,
      \<lparr>stdin = [],
       stdout = [Print ''Please choose an option:'', Print ''1. Enter book'',
                 Print ''2. Update book'', Print ''3. Delete book'', Print ''4. Search books'',
                 Print ''0. Exit'', Prompt ''> ''],
       db = \<lparr>rows = [], seq = 0\<rparr>\<rparr>)"
proof -
  let ?D = "\<lparr>rows = [], seq = 0\<rparr>"
  let ?W = "\<lparr>stdin = [''x'', ''0''], stdout = [], db = ?D\<rparr>"
  let ?M = "[Print ''Please choose an option:'', Print ''1. Enter book'',
             Print ''2. Update book'', Print ''3. Delete book'', Print ''4. Search books'',
             Print ''0. Exit'', Prompt ''> '']"
  let ?W1 = "\<lparr>stdin = [''0''], stdout = ?M @ [Print ''Invalid choice, please try again.''],
              db = ?D\<rparr>"
  have a: "stdin ?W = ''x'' # [''0'']" and b: "stdin ?W1 = ''0'' # []"
    and c: "stdin \<lparr>stdin = [], stdout = [], db = ?D\<rparr> = []"
    by simp_all
  have 1: "main_menu ?W = main_menu ?W1"
    using main_menu_dispatch [of ?W "''x''" "[''0'']", THEN conjunct1, THEN mp, OF a]
    by (simp add: Let_def menu_def print_def)
  have 2: "main_menu ?W1 =
             (Inr (), \<lparr>stdin = [],
                       stdout = ?M @ [Print ''Invalid choice, please try again.''] @ ?M,
                       db = ?D\<rparr>)"
    using main_menu_dispatch [of ?W1 "''0''" "[]", THEN conjunct1, THEN mp, OF b]
    by (simp add: Let_def menu_def print_def)
  have 3: "main_menu \<lparr>stdin = [], stdout = [], db = ?D\<rparr> =
             (Inl EOFError, \<lparr>stdin = [], stdout = ?M, db = ?D\<rparr>)"
    using main_menu_dispatch [of "\<lparr>stdin = [], stdout = [], db = ?D\<rparr>",
        THEN conjunct2, THEN conjunct1, THEN mp, OF c]
    by (simp add: menu_def print_def)
  from 1 2 3 show ?thesis by simp
qed

text \<open>
  C9 (as amended). Given the empty list, the selection never returns a book: no entered
  integer \<open>k\<close> has \<open>1 \<le> k \<le> 0\<close>. It shows the empty table and then, for every line of
  the input in turn, prompts and rejects the line: an integer with the out-of-range
  message that names it, any other line with the message that an integer was expected.
  The prompt is repeated for as long as there are lines; after the last one it comes
  once more and the function ends with the \<open>EOFError\<close> of \<open>input\<close>, which is the only
  exception of this path: the list is never indexed, so there is no \<open>IndexError\<close>. The
  update and the delete workflow reach this whenever the query step returns the empty
  list (the user declined to retry a query without matches); they end with that
  \<open>EOFError\<close> and leave the table as it was.
\<close>

theorem select_from_empty_list_rejects_every_line:
  "select_book_from_list [] w =
     (Inl EOFError,
      w\<lparr>stdin := [],
        stdout := stdout w @ [Tabulate (table_rows []), Print []] @
          concat (map (\<lambda>l. [Prompt ''Enter the number of the book to update: '',
                            Print (case py_int l of
                                     None \<Rightarrow> ''Expected an integer as input, please try again.''
                                   | Some k \<Rightarrow> out_of_range (k - 1))])
                      (stdin w)) @
          [Prompt ''Enter the number of the book to update: '']\<rparr>)
   \<and> (query_for_books (print ''Search for the book to be updated'' (print ''-- Update --'' w))
         = (Inr [], w1)
        \<longrightarrow> (\<exists>w'. update_book w = (Inl EOFError, w') \<and> stdin w' = [] \<and> db w' = db w))
   \<and> (query_for_books (print ''Search for the book to be deleted'' (print ''-- Delete --'' w))
         = (Inr [], w2)
        \<longrightarrow> (\<exists>w'. delete_book w = (Inl EOFError, w') \<and> stdin w' = [] \<and> db w' = db w))"
proof (intro conjI impI)
  show "select_book_from_list [] w =
     (Inl EOFError,
      w\<lparr>stdin := [],
        stdout := stdout w @ [Tabulate (table_rows []), Print []] @
          concat (map (\<lambda>l. [Prompt ''Enter the number of the book to update: '',
                            Print (case py_int l of
                                     None \<Rightarrow> ''Expected an integer as input, please try again.''
                                   | Some k \<Rightarrow> out_of_range (k - 1))])
                      (stdin w)) @
          [Prompt ''Enter the number of the book to update: '']\<rparr>)"
    by (rule select_book_from_list_empty)
next
  assume q: "query_for_books (print ''Search for the book to be updated'' (print ''-- Update --'' w))
         = (Inr [], w1)"
  from query_for_books_effect [OF q] have d: "db w1 = db w" by simp
  from select_book_from_empty [of w1] obtain w' where
    "select_book_from_list [] w1 = (Inl EOFError, w')" "stdin w' = []" "db w' = db w1"
    by blast
  with q d show "\<exists>w'. update_book w = (Inl EOFError, w') \<and> stdin w' = [] \<and> db w' = db w"
    by (simp add: update_book_def)
next
  assume q: "query_for_books (print ''Search for the book to be deleted'' (print ''-- Delete --'' w))
         = (Inr [], w2)"
  from query_for_books_effect [OF q] have d: "db w2 = db w" by simp
  from select_book_from_empty [of w2] obtain w' where
    "select_book_from_list [] w2 = (Inl EOFError, w')" "stdin w' = []" "db w' = db w2"
    by blast
  with q d show "\<exists>w'. delete_book w = (Inl EOFError, w') \<and> stdin w' = [] \<and> db w' = db w"
    by (simp add: delete_book_def)
qed

theorem select_from_empty_list_rejects_every_line_witness:
  "select_book_from_list [] \<lparr>stdin = [''0'', ''-1'', ''x''], stdout = [],
                              db = \<lparr>rows = [], seq = 3005\<rparr>\<rparr> =
     (Inl EOFError,
      \<lparr>stdin = [],
       stdout = [Tabulate [[Text ''#'', Text ''Title'', Text ''Author'', Text ''Stock Level'']],
                 Print [],
                 Prompt ''Enter the number of the book to update: '',
                 Print (CHR 0x27 # ''0'' @ CHR 0x27 # '' is not a valid choice, out of range.''),
                 Prompt ''Enter the number of the book to update: '',
                 Print (CHR 0x27 # ''-1'' @ CHR 0x27 # '' is not a valid choice, out of range.''),
                 Prompt ''Enter the number of the book to update: '',
                 Print ''Expected an integer as input, please try again.'',
                 Prompt ''Enter the number of the book to update: ''],
       db = \<lparr>rows = [], seq = 3005\<rparr>\<rparr>)
   \<and> fst (update_book \<lparr>stdin = [''zzz'', ''n'', ''1'', ''0''], stdout = [],
                        db = \<lparr>rows = [\<lparr>book_id = 3005, title = ''Alice in Wonderland'',
                                         author = ''Lewis Carroll'', quantity = 12\<rparr>],
                              seq = 3005\<rparr>\<rparr>) = Inl EOFError
   \<and> stdin (snd (update_book \<lparr>stdin = [''zzz'', ''n'', ''1'', ''0''], stdout = [],
                        db = \<lparr>rows = [\<lparr>book_id = 3005, title = ''Alice in Wonderland'',
                                         author = ''Lewis Carroll'', quantity = 12\<rparr>],
                              seq = 3005\<rparr>\<rparr>)) = []
   \<and> fst (delete_book \<lparr>stdin = [''zzz'', ''n'', ''1'', ''0''], stdout = [],
                        db = \<lparr>rows = [\<lparr>book_id = 3005, title = ''Alice in Wonderland'',
                                         author = ''Lewis Carroll'', quantity = 12\<rparr>],
                              seq = 3005\<rparr>\<rparr>) = Inl EOFError
   \<and> db (snd (delete_book \<lparr>stdin = [''zzz'', ''n'', ''1'', ''0''], stdout = [],
                        db = \<lparr>rows = [\<lparr>book_id = 3005, title = ''Alice in Wonderland'',
                                         author = ''Lewis Carroll'', quantity = 12\<rparr>],
                              seq = 3005\<rparr>\<rparr>)) =
       \<lparr>rows = [\<lparr>book_id = 3005, title = ''Alice in Wonderland'',
                  author = ''Lewis Carroll'', quantity = 12\<rparr>],
        seq = 3005\<rparr>"
proof -
  let ?D = "\<lparr>rows = [\<lparr>book_id = 3005, title = ''Alice in Wonderland'',
                      author = ''Lewis Carroll'', quantity = 12\<rparr>], seq = 3005\<rparr>"
  let ?W = "\<lparr>stdin = [''zzz'', ''n'', ''1'', ''0''], stdout = [], db = ?D\<rparr>"
  let ?V = "\<lparr>stdin = [''0'', ''-1'', ''x''], stdout = [], db = \<lparr>rows = [], seq = 3005\<rparr>\<rparr>"
  let ?w0 = "print ''Search for the book to be updated'' (print ''-- Update --'' ?W)"
  have l: "stdin ?w0 = ''zzz'' # ''n'' # [''1'', ''0'']" by simp
  have f: "find_matching_books (''%'' @ ''zzz'' @ ''%'') (db ?w0) = Inr []" by code_simp
  have c: "lower ''n'' \<noteq> ''y''" by code_simp
  note q = query_for_books_declined [OF l f c]
  let ?v0 = "print ''Search for the book to be deleted'' (print ''-- Delete --'' ?W)"
  have l': "stdin ?v0 = ''zzz'' # ''n'' # [''1'', ''0'']" by simp
  have f': "find_matching_books (''%'' @ ''zzz'' @ ''%'') (db ?v0) = Inr []" by code_simp
  note q' = query_for_books_declined [OF l' f' c]
  have p: "py_int ''0'' = Some 0" "py_int ''-1'' = Some (- 1)" "py_int ''x'' = None"
    by code_simp+
  have m: "str_int 0 = ''0''" "str_int (- 1) = ''-1''"
    by code_simp+
  from select_from_empty_list_rejects_every_line [of ?V, THEN conjunct1]
  have "select_book_from_list [] ?V =
     (Inl EOFError,
      \<lparr>stdin = [],
       stdout = [Tabulate [[Text ''#'', Text ''Title'', Text ''Author'', Text ''Stock Level'']],
                 Print [],
                 Prompt ''Enter the number of the book to update: '',
                 Print (CHR 0x27 # ''0'' @ CHR 0x27 # '' is not a valid choice, out of range.''),
                 Prompt ''Enter the number of the book to update: '',
                 Print (CHR 0x27 # ''-1'' @ CHR 0x27 # '' is not a valid choice, out of range.''),
                 Prompt ''Enter the number of the book to update: '',
                 Print ''Expected an integer as input, please try again.'',
                 Prompt ''Enter the number of the book to update: ''],
       db = \<lparr>rows = [], seq = 3005\<rparr>\<rparr>)"
    by (simp add: p m out_of_range_def table_rows_def)
  moreover from select_from_empty_list_rejects_every_line
                  [of ?W _ , THEN conjunct2, THEN conjunct1, THEN mp, OF q]
  obtain w' where "update_book ?W = (Inl EOFError, w')" "stdin w' = []"
    by blast
  then have "fst (update_book ?W) = Inl EOFError \<and> stdin (snd (update_book ?W)) = []"
    by simp
  moreover from select_from_empty_list_rejects_every_line
                  [of ?W _ _, THEN conjunct2, THEN conjunct2, THEN mp, OF q']
  obtain v' where "delete_book ?W = (Inl EOFError, v')" "db v' = db ?W"
    by blast
  then have "fst (delete_book ?W) = Inl EOFError \<and> db (snd (delete_book ?W)) = ?D"
    by simp
  ultimately show ?thesis by blast
qed

text \<open>
  The claim as stated says that the loop never returns and that no exception occurs.
  With the one line \<open>1\<close> the selection from the empty list rejects it, prompts again
  and ends with \<open>EOFError\<close>; so does the update workflow after a declined retry.
\<close>

theorem select_from_empty_list_counterexample:
  "select_book_from_list [] \<lparr>stdin = [''1''], stdout = [],
                              db = \<lparr>rows = [], seq = 3005\<rparr>\<rparr> =
     (Inl EOFError,
      \<lparr>stdin = [],
       stdout = [Tabulate [[Text ''#'', Text ''Title'', Text ''Author'', Text ''Stock Level'']],
                 Print [],
                 Prompt ''Enter the number of the book to update: '',
                 Print (CHR 0x27 # ''1'' @ CHR 0x27 # '' is not a valid choice, out of range.''),
                 Prompt ''Enter the number of the book to update: ''],
       db = \<lparr>rows = [], seq = 3005\<rparr>\<rparr>)
   \<and> fst (update_book \<lparr>stdin = [''zzz'', ''n'', ''1''], stdout = [],
                        db = \<lparr>rows = [\<lparr>book_id = 3005, title = ''Alice in Wonderland'',
                                         author = ''Lewis Carroll'', quantity = 12\<rparr>],
                              seq = 3005\<rparr>\<rparr>) = Inl EOFError"
proof -
  let ?D = "\<lparr>rows = [\<lparr>book_id = 3005, title = ''Alice in Wonderland'',
                      author = ''Lewis Carroll'', quantity = 12\<rparr>], seq = 3005\<rparr>"
  let ?W = "\<lparr>stdin = [''zzz'', ''n'', ''1''], stdout = [], db = ?D\<rparr>"
  let ?w0 = "print ''Search for the book to be updated'' (print ''-- Update --'' ?W)"
  have l: "stdin ?w0 = ''zzz'' # ''n'' # [''1'']" by simp
  have f: "find_matching_books (''%'' @ ''zzz'' @ ''%'') (db ?w0) = Inr []" by code_simp
  have c: "lower ''n'' \<noteq> ''y''" by code_simp
  note q = query_for_books_declined [OF l f c]
  have p: "py_int ''1'' = Some 1" by code_simp
  have m: "str_int 1 = ''1''" by code_simp
  have "select_book_from_list [] \<lparr>stdin = [''1''], stdout = [],
                              db = \<lparr>rows = [], seq = 3005\<rparr>\<rparr> =
     (Inl EOFError,
      \<lparr>stdin = [],
       stdout = [Tabulate [[Text ''#'', Text ''Title'', Text ''Author'', Text ''Stock Level'']],
                 Print [],
                 Prompt ''Enter the number of the book to update: '',
                 Print (CHR 0x27 # ''1'' @ CHR 0x27 # '' is not a valid choice, out of range.''),
                 Prompt ''Enter the number of the book to update: ''],
       db = \<lparr>rows = [], seq = 3005\<rparr>\<rparr>)"
    by (simp add: select_book_from_list_empty p m out_of_range_def table_rows_def)
  moreover have "fst (update_book ?W) = Inl EOFError"
    by (simp add: update_book_def q select_book_from_list_empty)
  ultimately show ?thesis by blast
qed

text \<open>
  C10 (as amended). For some queries the matching is not the containment of the query as
  a substring: the query is put between two \<open>%\<close> and the whole is the \<open>LIKE\<close> pattern, so a
  \<open>%\<close> or \<open>_\<close> of the query, before any NUL character of it, is a wildcard (any sequence,
  any single character). When the line entered is \<open>_\<close>, the search workflow and the query
  step of the update and delete workflows find every record whose title or author is
  not empty as the engine reads it, that is up to its first NUL character, and no other
  record, whether or not an underscore occurs in it; when the line is \<open>%\<close> they find
  every record of the table.
\<close>

theorem wildcard_queries:
  assumes "stdin w = q # rest"
    and "q = ''_'' \<and> ms = filter (\<lambda>b. c_text (title b) \<noteq> [] \<or> c_text (author b) \<noteq> [])
                                  (rows (db w))
         \<or> q = ''%'' \<and> ms = rows (db w)"
  shows "find_matching_books (''%'' @ q @ ''%'') (db w) = Inr ms
       \<and> search_books w =
           (Inr (),
            w\<lparr>stdin := rest,
              stdout := stdout w @
                [Print ''-- Search --'', Prompt ''Query (title or author): '', Print [],
                 Print (str_int (int (length ms)) @ '' result(s)''), Print []] @
                (if ms = [] then []
                 else [Tabulate
                         ([Text ''Title'', Text ''Author'', Text ''Stock Level''] #
                          map (\<lambda>book. [Text (title book), Text (author book),
                                        Number (quantity book)]) ms),
                       Print []])\<rparr>)
       \<and> (ms \<noteq> [] \<longrightarrow>
            query_for_books w =
              (Inr ms, w\<lparr>stdin := rest,
                         stdout := stdout w @ [Prompt ''Query (title or author): '']\<rparr>))"
proof -
  have f: "find_matching_books (''%'' @ q @ ''%'') (db w) = Inr ms"
    using assms(2) find_matching_books_underscore [of "db w"]
      find_matching_books_percent [of "db w"]
    by auto
  have s: "search_books w =
           (Inr (),
            w\<lparr>stdin := rest,
              stdout := stdout w @
                [Print ''-- Search --'', Prompt ''Query (title or author): '', Print [],
                 Print (str_int (int (length ms)) @ '' result(s)''), Print []] @
                (if ms = [] then []
                 else [Tabulate
                         ([Text ''Title'', Text ''Author'', Text ''Stock Level''] #
                          map (\<lambda>book. [Text (title book), Text (author book),
                                        Number (quantity book)]) ms),
                       Print []])\<rparr>)"
    unfolding search_books_Cons [OF assms(1)] f by simp
  have "query_for_books w =
              (Inr ms, w\<lparr>stdin := rest,
                         stdout := stdout w @ [Prompt ''Query (title or author): '']\<rparr>)"
    if "ms \<noteq> []"
    using assms(1) f that by (rule query_for_books_found)
  with f s show ?thesis by blast
qed

theorem wildcard_queries_witness:
  "search_books \<lparr>stdin = [''_''], stdout = [],
                  db = \<lparr>rows = [\<lparr>book_id = 3005, title = ''Alice in Wonderland'',
                                   author = ''Lewis Carroll'', quantity = 12\<rparr>],
                        seq = 3005\<rparr>\<rparr> =
     (Inr (),
      \<lparr>stdin = [],
       stdout =
         [Print ''-- Search --'', Prompt ''Query (title or author): '', Print [],
          Print ''1 result(s)'', Print [],
          Tabulate [[Text ''Title'', Text ''Author'', Text ''Stock Level''],
                    [Text ''Alice in Wonderland'', Text ''Lewis Carroll'', Number 12]],
          Print []],
       db = \<lparr>rows = [\<lparr>book_id = 3005, title = ''Alice in Wonderland'',
                        author = ''Lewis Carroll'', quantity = 12\<rparr>],
             seq = 3005\<rparr>\<rparr>)
   \<and> CHR ''_'' \<notin> set ''Alice in Wonderland'' \<and> CHR ''_'' \<notin> set ''Lewis Carroll''
   \<and> fst (query_for_books \<lparr>stdin = [''_''], stdout = [],
                            db = \<lparr>rows = initial_data, seq = 3005\<rparr>\<rparr>) = Inr initial_data
   \<and> fst (query_for_books \<lparr>stdin = [''%''], stdout = [],
                            db = \<lparr>rows = initial_data, seq = 3005\<rparr>\<rparr>) = Inr initial_data"
proof -
  let ?alice = "\<lparr>book_id = 3005, title = ''Alice in Wonderland'',
                 author = ''Lewis Carroll'', quantity = 12\<rparr>"
  let ?W = "\<lparr>stdin = [''_''], stdout = [], db = \<lparr>rows = [?alice], seq = 3005\<rparr>\<rparr>"
  let ?U = "\<lparr>stdin = [''_''], stdout = [], db = \<lparr>rows = initial_data, seq = 3005\<rparr>\<rparr>"
  let ?P = "\<lparr>stdin = [''%''], stdout = [], db = \<lparr>rows = initial_data, seq = 3005\<rparr>\<rparr>"
  have n: "str_int 1 = ''1''" by code_simp
  have lw: "stdin ?W = ''_'' # []" and lu: "stdin ?U = ''_'' # []"
    and lp: "stdin ?P = ''%'' # []" by simp_all
  have hw: "''_'' = ''_'' \<and> [?alice] =
              filter (\<lambda>b. c_text (title b) \<noteq> [] \<or> c_text (author b) \<noteq> []) (rows (db ?W))
            \<or> ''_'' = ''%'' \<and> [?alice] = rows (db ?W)"
    by (simp add: c_text_def)
  have hu: "''_'' = ''_'' \<and> initial_data =
              filter (\<lambda>b. c_text (title b) \<noteq> [] \<or> c_text (author b) \<noteq> []) (rows (db ?U))
            \<or> ''_'' = ''%'' \<and> initial_data = rows (db ?U)"
    by (simp add: c_text_def initial_data_def)
  have hp: "''%'' = ''_'' \<and> initial_data =
              filter (\<lambda>b. c_text (title b) \<noteq> [] \<or> c_text (author b) \<noteq> []) (rows (db ?P))
            \<or> ''%'' = ''%'' \<and> initial_data = rows (db ?P)"
    by simp
  have ne: "initial_data \<noteq> []" by (simp add: initial_data_def)
  from wildcard_queries [OF lw hw] n have 1: "search_books ?W =
     (Inr (),
      \<lparr>stdin = [],
       stdout =
         [Print ''-- Search --'', Prompt ''Query (title or author): '', Print [],
          Print ''1 result(s)'', Print [],
          Tabulate [[Text ''Title'', Text ''Author'', Text ''Stock Level''],
                    [Text ''Alice in Wonderland'', Text ''Lewis Carroll'', Number 12]],
          Print []],
       db = \<lparr>rows = [?alice], seq = 3005\<rparr>\<rparr>)"
    by simp
  have 2: "CHR ''_'' \<notin> set ''Alice in Wonderland''" "CHR ''_'' \<notin> set ''Lewis Carroll''"
    by simp_all
  from wildcard_queries [OF lu hu] ne have 3: "fst (query_for_books ?U) = Inr initial_data"
    by simp
  from wildcard_queries [OF lp hp] ne have 4: "fst (query_for_books ?P) = Inr initial_data"
    by simp
  from 1 2 3 4 show ?thesis
    by (intro conjI)
qed

text \<open>
  The claim as stated says that the query \<open>_\<close> finds every record whose title or author
  is not empty. The add workflow stores a record whose title and author are each one
  NUL character; the search workflow with the line \<open>_\<close> then prints no result, and the
  query step with that line finds nothing.
\<close>

theorem nul_title_counterexample:
  "db (snd (add_books \<lparr>stdin = [[CHR 0x00], [CHR 0x00], ''1'', ''n''], stdout = [],
                        db = \<lparr>rows = [], seq = 3005\<rparr>\<rparr>)) =
     \<lparr>rows = [\<lparr>book_id = 3006, title = [CHR 0x00], author = [CHR 0x00], quantity = 1\<rparr>],
      seq = 3006\<rparr>
   \<and> search_books
       \<lparr>stdin = [''_''], stdout = [],
        db = \<lparr>rows = [\<lparr>book_id = 3006, title = [CHR 0x00], author = [CHR 0x00],
                         quantity = 1\<rparr>],
              seq = 3006\<rparr>\<rparr> =
     (Inr (),
      \<lparr>stdin = [],
       stdout =
         [Print ''-- Search --'', Prompt ''Query (title or author): '', Print [],
          Print ''0 result(s)'', Print []],
       db = \<lparr>rows = [\<lparr>book_id = 3006, title = [CHR 0x00], author = [CHR 0x00],
                        quantity = 1\<rparr>],
             seq = 3006\<rparr>\<rparr>)
   \<and> fst (query_for_books
            \<lparr>stdin = [''_'', ''n''], stdout = [],
             db = \<lparr>rows = [\<lparr>book_id = 3006, title = [CHR 0x00], author = [CHR 0x00],
                              quantity = 1\<rparr>],
                   seq = 3006\<rparr>\<rparr>) = Inr []"
proof -
  let ?t = "[CHR 0x00]"
  let ?D = "\<lparr>rows = [\<lparr>book_id = 3006, title = ?t, author = ?t, quantity = 1\<rparr>], seq = 3006\<rparr>"
  let ?A = "\<lparr>stdin = [?t, ?t, ''1'', ''n''], stdout = [], db = \<lparr>rows = [], seq = 3005\<rparr>\<rparr>"
  let ?W = "\<lparr>stdin = [''_''], stdout = [], db = ?D\<rparr>"
  let ?Q = "\<lparr>stdin = [''_'', ''n''], stdout = [], db = ?D\<rparr>"
  have one: "py_int ''1'' = Some 1" by code_simp
  have n: "lower ''n'' \<noteq> ''y''" by code_simp
  have z: "str_int 0 = ''0''" by code_simp
  have t: "?t \<noteq> []" by simp
  have i: "insert_book ?t ?t 1 (db ?A) = Inr ?D"
    by (simp add: insert_book_def int64_def MAX_ROWID_def largest_rowid_def)
  have la: "stdin ?A = ?t # ?t # ''1'' # ''n'' # []" by simp
  from add_books_once [OF la t t one i n] have 1: "db (snd (add_books ?A)) = ?D"
    by auto
  have lw: "stdin ?W = ''_'' # []" by simp
  have fw: "find_matching_books (''%'' @ ''_'' @ ''%'') (db ?W) = Inr []"
    by code_simp
  have 2: "search_books ?W =
     (Inr (),
      \<lparr>stdin = [],
       stdout =
         [Print ''-- Search --'', Prompt ''Query (title or author): '', Print [],
          Print ''0 result(s)'', Print []],
       db = ?D\<rparr>)"
    unfolding search_books_Cons [OF lw] fw by (simp add: z)
  have lq: "stdin ?Q = ''_'' # ''n'' # []" by simp
  have fq: "find_matching_books (''%'' @ ''_'' @ ''%'') (db ?Q) = Inr []"
    by code_simp
  have 3: "fst (query_for_books ?Q) = Inr []"
    by (simp only: query_for_books_declined [OF lq fq n] fst_conv)
  from 1 2 3 show ?thesis
    by (intro conjI)
qed

end
